(* ===== verification/Prelude.thy ===== *)
theory Prelude
  imports Complex_Main "HOL-Library.Sublist"
begin

section \<open>Prelude: effects, tables and interfaces shared by the components\<close>

text \<open>
  What every component theory of the development shares:
  \<^item> the collections of simplification facts (\<^verbatim>\<open>op_simps\<close>, \<^verbatim>\<open>table_simps\<close>);
  \<^item> operations with state and exceptions: an operation takes the state and returns the outcome
    (\<open>Inl\<close> an exception, \<open>Inr\<close> a value) together with the state it leaves behind, because a
    Python method that raises may have mutated its object before;
  \<^item> the row lists that model a table with a primary key (\<open>find_by\<close>, \<open>update_by\<close>);
  \<^item> the interfaces several components share, as locales: a system of operations with an
    invariant, a store shared by tenants, an append-only log, a simulation of an abstract
    specification, a life cycle with terminal states.
\<close>

named_theorems op_simps \<open>unfolding rules of state and exception operations\<close>
named_theorems table_simps \<open>laws of the row lists that model tables\<close>

subsection \<open>Operations with state and exceptions\<close>

type_synonym ('e, 's, 'a) op = "'s \<Rightarrow> ('e + 'a) \<times> 's"

definition op_return :: "'a \<Rightarrow> ('e, 's, 'a) op" where
  "op_return a s = (Inr a, s)"

definition op_raise :: "'e \<Rightarrow> ('e, 's, 'a) op" where
  "op_raise e s = (Inl e, s)"

definition op_bind :: "('e, 's, 'a) op \<Rightarrow> ('a \<Rightarrow> ('e, 's, 'b) op) \<Rightarrow> ('e, 's, 'b) op" where
  "op_bind m f s = (case m s of (Inl e, s') \<Rightarrow> (Inl e, s') | (Inr a, s') \<Rightarrow> f a s')"

definition op_modify :: "('s \<Rightarrow> 's) \<Rightarrow> ('e, 's, unit) op" where
  "op_modify f s = (Inr (), f s)"

definition op_get :: "('s \<Rightarrow> 'a) \<Rightarrow> ('e, 's, 'a) op" where
  "op_get f s = (Inr (f s), s)"

fun op_iter :: "('x \<Rightarrow> ('e, 's, unit) op) \<Rightarrow> 'x list \<Rightarrow> ('e, 's, unit) op" where
  "op_iter f [] s = (Inr (), s)"
| "op_iter f (x # xs) s =
     (case f x s of (Inl e, s') \<Rightarrow> (Inl e, s') | (Inr u, s') \<Rightarrow> op_iter f xs s')"

lemma op_return_eq [op_simps, simp]: "op_return a s = (Inr a, s)"
  by (simp add: op_return_def)

lemma op_raise_eq [op_simps, simp]: "op_raise e s = (Inl e, s)"
  by (simp add: op_raise_def)

lemma op_modify_eq [op_simps, simp]: "op_modify f s = (Inr (), f s)"
  by (simp add: op_modify_def)

lemma op_get_eq [op_simps, simp]: "op_get f s = (Inr (f s), s)"
  by (simp add: op_get_def)

lemma op_bind_Inr: "m s = (Inr a, s') \<Longrightarrow> op_bind m f s = f a s'"
  by (simp add: op_bind_def)

lemma op_bind_Inl: "m s = (Inl e, s') \<Longrightarrow> op_bind m f s = (Inl e, s')"
  by (simp add: op_bind_def)

lemma op_bind_InrE:
  assumes "op_bind m f s = (Inr b, t)"
  obtains a s' where "m s = (Inr a, s')" and "f a s' = (Inr b, t)"
  using assms by (auto simp: op_bind_def split: prod.splits sum.splits)

lemma op_bind_return [simp]: "op_bind (op_return a) f = f a"
  by (rule ext) (simp add: op_bind_def)

lemma op_bind_raise [simp]: "op_bind (op_raise e) f = op_raise e"
  by (rule ext) (simp add: op_bind_def)

lemma op_bind_modify [simp]: "op_bind (op_modify g) f = (\<lambda>s. f () (g s))"
  by (rule ext) (simp add: op_bind_def)

lemma op_bind_get [simp]: "op_bind (op_get g) f = (\<lambda>s. f (g s) s)"
  by (rule ext) (simp add: op_bind_def)

text \<open>A property of the state kept by every element operation is kept by the loop.\<close>

lemma op_iter_invariant:
  assumes "op_iter f xs s = (Inr u, t)" and "P s"
    and "\<And>x s s' u. x \<in> set xs \<Longrightarrow> P s \<Longrightarrow> f x s = (Inr u, s') \<Longrightarrow> P s'"
  shows "P t"
  using assms
proof (induction xs arbitrary: s)
  case Nil
  then show ?case by simp
next
  case (Cons x xs)
  from Cons.prems(1) obtain u' s' where
      x: "f x s = (Inr u', s')" and xs: "op_iter f xs s' = (Inr u, t)"
    by (auto split: prod.splits sum.splits)
  from x Cons.prems have "P s'" by (meson list.set_intros(1))
  with xs show ?case using Cons.prems(3) by (intro Cons.IH) auto
qed

text \<open>
  \<open>keeps P m\<close>: when \<open>m\<close> returns, it has kept \<open>P\<close>; \<open>always P m\<close>: it has kept \<open>P\<close>
  however it ended. The rules follow the structure of the operation.
\<close>

definition keeps :: "('s \<Rightarrow> bool) \<Rightarrow> ('e, 's, 'a) op \<Rightarrow> bool" where
  "keeps P m \<longleftrightarrow> (\<forall>s a t. P s \<longrightarrow> m s = (Inr a, t) \<longrightarrow> P t)"

definition always :: "('s \<Rightarrow> bool) \<Rightarrow> ('e, 's, 'a) op \<Rightarrow> bool" where
  "always P m \<longleftrightarrow> (\<forall>s. P s \<longrightarrow> P (snd (m s)))"

named_theorems keeps_intros \<open>how operations are composed from ones that keep a property\<close>

lemma keepsI: "(\<And>s a t. P s \<Longrightarrow> m s = (Inr a, t) \<Longrightarrow> P t) \<Longrightarrow> keeps P m"
  by (auto simp: keeps_def)

lemma keepsD: "keeps P m \<Longrightarrow> P s \<Longrightarrow> m s = (Inr a, t) \<Longrightarrow> P t"
  by (auto simp: keeps_def)

lemma alwaysI: "(\<And>s. P s \<Longrightarrow> P (snd (m s))) \<Longrightarrow> always P m"
  by (auto simp: always_def)

lemma alwaysD: "always P m \<Longrightarrow> P s \<Longrightarrow> m s = (r, t) \<Longrightarrow> P t"
  unfolding always_def by (metis snd_conv)

lemma keeps_return [keeps_intros]: "keeps P (op_return a)"
  by (rule keepsI) simp

lemma keeps_raise [keeps_intros]: "keeps P (op_raise e)"
  by (rule keepsI) simp

lemma keeps_get [keeps_intros]: "keeps P (op_get f)"
  by (rule keepsI) simp

lemma keeps_bind [keeps_intros]:
  "keeps P m \<Longrightarrow> (\<And>a. keeps P (f a)) \<Longrightarrow> keeps P (op_bind m f)"
  by (rule keepsI) (auto elim!: op_bind_InrE dest: keepsD)

lemma keeps_iter [keeps_intros]: "(\<And>x. keeps P (f x)) \<Longrightarrow> keeps P (op_iter f xs)"
  by (rule keepsI) (erule op_iter_invariant, auto dest: keepsD)

lemma keeps_if [keeps_intros]: "keeps P m \<Longrightarrow> keeps P n \<Longrightarrow> keeps P (if b then m else n)"
  by simp

lemma keeps_case_option [keeps_intros]:
  "keeps P m \<Longrightarrow> (\<And>x. keeps P (f x)) \<Longrightarrow> keeps P (case z of None \<Rightarrow> m | Some x \<Rightarrow> f x)"
  by (simp split: option.split)

subsection \<open>Tables as row lists\<close>

text \<open>
  A table is the list of its rows in insertion order. \<open>find_by key k rs\<close> is the row whose
  key column is \<open>k\<close> (a primary key lookup), \<open>update_by key k f rs\<close> an UPDATE of that row.
\<close>

definition find_by :: "('r \<Rightarrow> 'k) \<Rightarrow> 'k \<Rightarrow> 'r list \<Rightarrow> 'r option" where
  "find_by key k rs = List.find (\<lambda>r. key r = k) rs"

definition update_by :: "('r \<Rightarrow> 'k) \<Rightarrow> 'k \<Rightarrow> ('r \<Rightarrow> 'r) \<Rightarrow> 'r list \<Rightarrow> 'r list" where
  "update_by key k f rs = map (\<lambda>r. if key r = k then f r else r) rs"

lemma find_by_Nil [simp, table_simps]: "find_by key k [] = None"
  by (simp add: find_by_def)

lemma find_by_Cons [simp, table_simps]:
  "find_by key k (r # rs) = (if key r = k then Some r else find_by key k rs)"
  by (simp add: find_by_def)

lemma find_by_append [table_simps]:
  "find_by key k (rs @ qs) =
     (case find_by key k rs of Some r \<Rightarrow> Some r | None \<Rightarrow> find_by key k qs)"
  by (induction rs) simp_all

lemma find_by_None_iff: "find_by key k rs = None \<longleftrightarrow> k \<notin> key ` set rs"
  by (induction rs) auto

lemma find_by_SomeD: "find_by key k rs = Some r \<Longrightarrow> r \<in> set rs \<and> key r = k"
  by (induction rs) (auto split: if_splits)

lemma find_by_key: "find_by key k rs = Some r \<Longrightarrow> key r = k"
  by (auto dest: find_by_SomeD)

lemma find_by_distinct:
  "distinct (map key rs) \<Longrightarrow> r \<in> set rs \<Longrightarrow> find_by key (key r) rs = Some r"
  by (induction rs) (auto simp: rev_image_eqI)

lemma find_by_update_by:
  assumes "\<And>r. key (f r) = key r"
  shows "find_by key k (update_by key j f rs) =
    (if k = j then map_option f (find_by key k rs) else find_by key k rs)"
  by (induction rs) (auto simp: update_by_def assms)

lemma map_key_update_by:
  assumes "\<And>r. key (f r) = key r"
  shows "map key (update_by key j f rs) = map key rs"
  by (simp add: update_by_def assms)

lemma length_update_by [simp]: "length (update_by key j f rs) = length rs"
  by (simp add: update_by_def)

lemma set_update_by:
  "set (update_by key j f rs) = (\<lambda>r. if key r = j then f r else r) ` set rs"
  by (simp add: update_by_def)

lemma update_by_absent: "j \<notin> key ` set rs \<Longrightarrow> update_by key j f rs = rs"
  by (induction rs) (auto simp: update_by_def)

lemma filter_update_by:
  assumes "\<And>r. P (f r) = P r" and "\<And>r. key r = j \<Longrightarrow> r \<in> set rs \<Longrightarrow> \<not> P r"
  shows "filter P (update_by key j f rs) = filter P rs"
  using assms(2) by (induction rs) (auto simp: update_by_def assms(1))

subsection \<open>Interfaces\<close>

text \<open>Operations that keep an invariant: every run of them keeps it.\<close>

locale invariant_system =
  fixes step :: "'x \<Rightarrow> 's \<Rightarrow> 's"
    and inv :: "'s \<Rightarrow> bool"
  assumes step_inv: "inv s \<Longrightarrow> inv (step x s)"
begin

lemma run_inv: "inv s \<Longrightarrow> inv (fold step xs s)"
  by (induction xs arbitrary: s) (auto simp: step_inv)

end

text \<open>
  Operations on behalf of tenants: one that works for a tenant leaves what every other tenant
  can see alone. Then no run of other tenants' operations changes a tenant's view.
\<close>

locale tenant_store = invariant_system step inv
  for step :: "'x \<Rightarrow> 's \<Rightarrow> 's" and inv :: "'s \<Rightarrow> bool" +
  fixes owner :: "'x \<Rightarrow> string"
    and view :: "string \<Rightarrow> 's \<Rightarrow> 'v"
  assumes step_view: "inv s \<Longrightarrow> owner x \<noteq> t \<Longrightarrow> view t (step x s) = view t s"
begin

lemma run_view: "inv s \<Longrightarrow> \<forall>x \<in> set xs. owner x \<noteq> t \<Longrightarrow> view t (fold step xs s) = view t s"
  by (induction xs arbitrary: s) (simp_all add: step_inv step_view)

end

text \<open>
  A log that operations only extend: what was recorded stays recorded, at its place, whatever
  operations follow.
\<close>

locale append_only =
  fixes step :: "'x \<Rightarrow> 's \<Rightarrow> 's"
    and log :: "'s \<Rightarrow> 'e list"
  assumes step_log: "prefix (log s) (log (step x s))"
begin

lemma run_log: "prefix (log s) (log (fold step xs s))"
proof (induction xs arbitrary: s)
  case Nil
  show ?case by simp
next
  case (Cons x xs)
  have "prefix (log s) (log (step x s))" by (rule step_log)
  also have "prefix (log (step x s)) (log (fold step xs (step x s)))" by (rule Cons.IH)
  finally show ?case by simp
qed

lemma run_entry: "i < length (log s) \<Longrightarrow> log (fold step xs s) ! i = log s ! i"
  using run_log [of s xs] by (auto simp: prefix_def nth_append)

lemma run_mem: "e \<in> set (log s) \<Longrightarrow> e \<in> set (log (fold step xs s))"
  using run_log [of s xs] by (auto simp: prefix_def)

end

text \<open>The results of a sequence of operations and the state after it.\<close>

fun outcomes :: "('x \<Rightarrow> 's \<Rightarrow> 'r \<times> 's) \<Rightarrow> 'x list \<Rightarrow> 's \<Rightarrow> 'r list \<times> 's" where
  "outcomes f [] s = ([], s)"
| "outcomes f (x # xs) s = (case f x s of (r, s') \<Rightarrow> case outcomes f xs s' of (rs, t) \<Rightarrow> (r # rs, t))"

text \<open>
  A functional refinement: on admissible operations the implementation returns what the
  specification returns on the abstract state. Then so does every sequence of them.
\<close>

locale simulation =
  fixes step :: "'x \<Rightarrow> 's \<Rightarrow> 'r \<times> 's"
    and spec :: "'x \<Rightarrow> 'a \<Rightarrow> 'r \<times> 'a"
    and abs :: "'s \<Rightarrow> 'a"
    and inv :: "'s \<Rightarrow> bool"
    and admissible :: "'x \<Rightarrow> bool"
  assumes keeps_inv: "inv s \<Longrightarrow> admissible x \<Longrightarrow> inv (snd (step x s))"
    and refines: "inv s \<Longrightarrow> admissible x \<Longrightarrow> spec x (abs s) = map_prod id abs (step x s)"
begin

lemma run_refines:
  "inv s \<Longrightarrow> list_all admissible xs \<Longrightarrow> outcomes spec xs (abs s) = map_prod id abs (outcomes step xs s)"
proof (induction xs arbitrary: s)
  case Nil
  show ?case by simp
next
  case (Cons x xs)
  obtain r s' where x: "step x s = (r, s')" by fastforce
  with Cons.prems have "inv s'" "spec x (abs s) = (r, abs s')"
    using keeps_inv [of s x] refines [of s x] by simp_all
  with Cons.IH [of s'] Cons.prems x show ?case by (simp split: prod.split)
qed

end

text \<open>
  A life cycle: the successors of each state, the terminal states, and a state every running
  life cycle can be sent to (cancellation).
\<close>

locale lifecycle =
  fixes succs :: "'st \<Rightarrow> 'st list"
    and terminal :: "'st \<Rightarrow> bool"
    and cancelled :: 'st
  assumes terminal_stuck: "terminal s \<Longrightarrow> succs s = []"
    and cancelled_terminal: "terminal cancelled"
    and cancellable: "\<not> terminal s \<Longrightarrow> cancelled \<in> set (succs s)"
begin

inductive path :: "'st \<Rightarrow> 'st list \<Rightarrow> 'st \<Rightarrow> bool" where
  path_refl: "path s [] s"
| path_step: "t \<in> set (succs s) \<Longrightarrow> path t ts u \<Longrightarrow> path s (t # ts) u"

lemma path_terminal: "path s ts u \<Longrightarrow> terminal s \<Longrightarrow> ts = [] \<and> u = s"
  by (cases rule: path.cases) (auto simp: terminal_stuck)

lemma path_append: "path s ts u \<Longrightarrow> path u us v \<Longrightarrow> path s (ts @ us) v"
  by (induction rule: path.induct) (auto intro: path_step)

lemma can_terminate: "\<exists>ts u. path s ts u \<and> terminal u \<and> length ts \<le> 1"
proof (cases "terminal s")
  case True
  then show ?thesis by (intro exI [of _ "[]"] exI [of _ s]) (simp add: path_refl)
next
  case False
  then have "path s [cancelled] cancelled" by (intro path_step path_refl cancellable)
  then show ?thesis using cancelled_terminal by fastforce
qed

lemma stuck_iff_terminal: "succs s = [] \<longleftrightarrow> terminal s"
  using cancellable terminal_stuck by fastforce

end

end
