(* ===== verification/Py_Core.thy ===== *)
theory Py_Core
  imports Prelude
begin

section \<open>The Python values the platform computes with\<close>

text \<open>
  What the platform uses of the Python language and its built-in types.
  \<^item> A \<^verbatim>\<open>str\<close> is a \<^typ>\<open>string\<close>, one \<^typ>\<open>char\<close> per code point: the model speaks of
    strings over the code points 0 to 255 (Latin-1), on which \<open>lower\<close> and the white space of
    \<open>split\<close> are exact. \<open>upper\<close> leaves the two code points alone whose upper case lies
    outside of that range (181 and 255).
  \<^item> An \<^verbatim>\<open>int\<close> is an \<^typ>\<open>int\<close>, a \<^verbatim>\<open>float\<close> an exact rational \<^typ>\<open>rat\<close>: rounding is
    not modelled.
  \<^item> A \<^verbatim>\<open>dict\<close> is the list of its items in insertion order (\<open>dict_get\<close>, \<open>dict_set\<close>).
  \<^item> \<open>json\<close> is what \<^verbatim>\<open>dict[str, Any]\<close> fields and JSON columns hold.
  \<^item> \<open>py_exn\<close> are the exceptions the platform raises and catches; the predicates
    \<open>is_KeyError\<close>, \<open>is_ValueError\<close>, \<open>is_RuntimeError\<close>, \<open>is_HTTPError\<close> say which
    \<^verbatim>\<open>except\<close> clause catches which exception, subclasses included.
\<close>

subsection \<open>Strings\<close>

definition is_space :: "char \<Rightarrow> bool" where
  "is_space c = (let n = (of_char c :: nat) in
     (9 \<le> n \<and> n \<le> 13) \<or> (28 \<le> n \<and> n \<le> 32) \<or> n = 133 \<or> n = 160)"

definition lower_char :: "char \<Rightarrow> char" where
  "lower_char c = (let n = (of_char c :: nat) in
     if (65 \<le> n \<and> n \<le> 90) \<or> (192 \<le> n \<and> n \<le> 222 \<and> n \<noteq> 215) then char_of (n + 32) else c)"

definition lower :: "string \<Rightarrow> string" where
  "lower s = map lower_char s"

definition upper_char :: "char \<Rightarrow> string" where
  "upper_char c = (let n = (of_char c :: nat) in
     if (97 \<le> n \<and> n \<le> 122) \<or> (224 \<le> n \<and> n \<le> 254 \<and> n \<noteq> 247) then [char_of (n - 32)]
     else if n = 223 then ''SS'' else [c])"

definition upper :: "string \<Rightarrow> string" where
  "upper s = concat (map upper_char s)"

text \<open>\<^verbatim>\<open>s.split()\<close>: the maximal runs of characters that are not white space.\<close>

fun split_ws_aux :: "string \<Rightarrow> string \<Rightarrow> string list" where
  "split_ws_aux [] w = (if w = [] then [] else [rev w])"
| "split_ws_aux (c # cs) w =
     (if is_space c then (if w = [] then split_ws_aux cs [] else rev w # split_ws_aux cs [])
      else split_ws_aux cs (c # w))"

definition split_ws :: "string \<Rightarrow> string list" where
  "split_ws s = split_ws_aux s []"

text \<open>\<^verbatim>\<open>s.startswith(p)\<close>, \<^verbatim>\<open>s.endswith(p)\<close>, \<^verbatim>\<open>p in s\<close>.\<close>

definition startswith :: "string \<Rightarrow> string \<Rightarrow> bool" where
  "startswith s p = prefix p s"

definition endswith :: "string \<Rightarrow> string \<Rightarrow> bool" where
  "endswith s p = suffix p s"

fun contains :: "string \<Rightarrow> string \<Rightarrow> bool" where
  "contains p [] = (p = [])"
| "contains p (c # cs) = (prefix p (c # cs) \<or> contains p cs)"

definition rstrip_char :: "char \<Rightarrow> string \<Rightarrow> string" where
  "rstrip_char c s = rev (dropWhile (\<lambda>d. d = c) (rev s))"

definition strip :: "string \<Rightarrow> string" where
  "strip s = rev (dropWhile is_space (rev (dropWhile is_space s)))"

fun join :: "string \<Rightarrow> string list \<Rightarrow> string" where
  "join sep [] = []"
| "join sep [x] = x"
| "join sep (x # y # ys) = x @ sep @ join sep (y # ys)"

lemma contains_iff_sublist: "contains p s \<longleftrightarrow> (\<exists>a b. s = a @ p @ b)"
proof (induction s)
  case Nil
  show ?case by auto
next
  case (Cons c cs)
  show ?case
  proof
    assume "contains p (c # cs)"
    then consider "prefix p (c # cs)" | "contains p cs" by auto
    then show "\<exists>a b. c # cs = a @ p @ b"
    proof cases
      case 1
      then show ?thesis by (metis append_Nil prefix_def)
    next
      case 2
      then obtain a b where "cs = a @ p @ b" using Cons.IH by auto
      then show ?thesis by (metis append_Cons)
    qed
  next
    assume "\<exists>a b. c # cs = a @ p @ b"
    then obtain a b where ab: "c # cs = a @ p @ b" by auto
    show "contains p (c # cs)"
    proof (cases a)
      case Nil
      with ab have "prefix p (c # cs)" by simp
      then show ?thesis by simp
    next
      case (Cons d ds)
      with ab have "cs = ds @ p @ b" by simp
      then show ?thesis using Cons.IH by auto
    qed
  qed
qed

lemma contains_append: "contains p s \<Longrightarrow> contains p (a @ s @ b)"
  by (metis append.assoc contains_iff_sublist)

subsection \<open>Decimal numerals\<close>

text \<open>\<^verbatim>\<open>str(n)\<close> of an integer, as the f-strings of the platform print counters.\<close>

definition digit_char :: "nat \<Rightarrow> char" where
  "digit_char d = char_of (48 + d)"

fun str_of_nat :: "nat \<Rightarrow> string" where
  "str_of_nat n = (if n < 10 then [digit_char n] else str_of_nat (n div 10) @ [digit_char (n mod 10)])"

declare str_of_nat.simps [simp del]

definition str_of_int :: "int \<Rightarrow> string" where
  "str_of_int i = (if i < 0 then CHR ''-'' # str_of_nat (nat (- i)) else str_of_nat (nat i))"

definition digit_val :: "char \<Rightarrow> nat" where
  "digit_val c = of_char c - 48"

definition nat_of_str :: "string \<Rightarrow> nat" where
  "nat_of_str s = fold (\<lambda>c n. 10 * n + digit_val c) s 0"

lemma digit_val_char [simp]: "d < 10 \<Longrightarrow> digit_val (digit_char d) = d"
  by (simp add: digit_val_def digit_char_def)

lemma nat_of_str_append: "nat_of_str (s @ [c]) = 10 * nat_of_str s + digit_val c"
  by (simp add: nat_of_str_def)

lemma nat_of_str_of_nat [simp]: "nat_of_str (str_of_nat n) = n"
proof (induction n rule: str_of_nat.induct)
  case (1 n)
  show ?case
  proof (cases "n < 10")
    case True
    then show ?thesis by (subst str_of_nat.simps) (simp add: nat_of_str_def)
  next
    case False
    with 1 show ?thesis by (subst str_of_nat.simps) (simp add: nat_of_str_append)
  qed
qed

lemma str_of_nat_inject [simp]: "str_of_nat m = str_of_nat n \<longleftrightarrow> m = n"
  by (metis nat_of_str_of_nat)

lemma colon_not_digit: "d < 10 \<Longrightarrow> digit_char d \<noteq> CHR '':''"
proof
  assume "d < 10" and "digit_char d = CHR '':''"
  then have "of_char (digit_char d) = (58 :: nat)" by simp
  with \<open>d < 10\<close> show False by (simp add: digit_char_def)
qed

lemma colon_notin_str_of_nat [simp]: "CHR '':'' \<notin> set (str_of_nat n)"
proof (induction n rule: str_of_nat.induct)
  case (1 n)
  show ?case
  proof (cases "n < 10")
    case True
    then show ?thesis using colon_not_digit [of n] by (subst str_of_nat.simps) simp
  next
    case False
    moreover have "digit_char (n mod 10) \<noteq> CHR '':''" by (rule colon_not_digit) simp
    ultimately show ?thesis using 1 by (subst str_of_nat.simps) auto
  qed
qed

text \<open>
  Keys of the form \<^verbatim>\<open>f"{a}:{b}"\<close>: injective once the first part has no colon, and not
  otherwise. Several components build their keys this way.
\<close>

definition colon_key :: "string \<Rightarrow> string \<Rightarrow> string" where
  "colon_key a b = a @ '':'' @ b"

lemma takeWhile_colon:
  "CHR '':'' \<notin> set a \<Longrightarrow> takeWhile (\<lambda>c. c \<noteq> CHR '':'') (colon_key a b) = a"
  by (induction a) (auto simp: colon_key_def)

lemma colon_key_inject:
  assumes "CHR '':'' \<notin> set a" and "CHR '':'' \<notin> set a'"
  shows "colon_key a b = colon_key a' b' \<longleftrightarrow> a = a' \<and> b = b'"
proof
  assume eq: "colon_key a b = colon_key a' b'"
  then have "a = a'" by (metis assms takeWhile_colon)
  with eq show "a = a' \<and> b = b'" by (simp add: colon_key_def)
qed simp

lemma colon_key_inject_right [simp]: "colon_key a b = colon_key a b' \<longleftrightarrow> b = b'"
  by (simp add: colon_key_def)

subsection \<open>Dictionaries\<close>

type_synonym ('k, 'v) dict = "('k \<times> 'v) list"

abbreviation dict_get :: "('k, 'v) dict \<Rightarrow> 'k \<Rightarrow> 'v option" where
  "dict_get d k \<equiv> map_of d k"

abbreviation dict_keys :: "('k, 'v) dict \<Rightarrow> 'k list" where
  "dict_keys d \<equiv> map fst d"

abbreviation dict_values :: "('k, 'v) dict \<Rightarrow> 'v list" where
  "dict_values d \<equiv> map snd d"

text \<open>\<^verbatim>\<open>d[k] = v\<close> keeps the place of a present key and appends an absent one.\<close>

fun dict_set :: "'k \<Rightarrow> 'v \<Rightarrow> ('k, 'v) dict \<Rightarrow> ('k, 'v) dict" where
  "dict_set k v [] = [(k, v)]"
| "dict_set k v ((k', v') # d) = (if k = k' then (k, v) # d else (k', v') # dict_set k v d)"

definition dict_get_default :: "('k, 'v) dict \<Rightarrow> 'k \<Rightarrow> 'v \<Rightarrow> 'v" where
  "dict_get_default d k v = (case dict_get d k of None \<Rightarrow> v | Some x \<Rightarrow> x)"

lemma dict_get_set [simp]: "dict_get (dict_set k v d) j = (if j = k then Some v else dict_get d j)"
  by (induction k v d rule: dict_set.induct) auto

lemma dict_keys_set:
  "dict_keys (dict_set k v d) = (if k \<in> set (dict_keys d) then dict_keys d else dict_keys d @ [k])"
  by (induction k v d rule: dict_set.induct) auto

lemma distinct_dict_set: "distinct (dict_keys d) \<Longrightarrow> distinct (dict_keys (dict_set k v d))"
  by (simp add: dict_keys_set)

lemma set_dict_set:
  "distinct (dict_keys d) \<Longrightarrow>
   set (dict_set k v d) = insert (k, v) {(j, w). (j, w) \<in> set d \<and> j \<noteq> k}"
  by (induction k v d rule: dict_set.induct) (auto simp: image_iff)

subsection \<open>JSON values\<close>

datatype json =
    JNull
  | JBool bool
  | JInt int
  | JFloat rat
  | JStr string
  | JList "json list"
  | JObj "(string \<times> json) list"

text \<open>\<^verbatim>\<open>bool(v)\<close>: what \<^verbatim>\<open>or\<close>, \<^verbatim>\<open>and\<close> and \<^verbatim>\<open>if\<close> test.\<close>

fun truthy :: "json \<Rightarrow> bool" where
  "truthy JNull = False"
| "truthy (JBool b) = b"
| "truthy (JInt i) = (i \<noteq> 0)"
| "truthy (JFloat r) = (r \<noteq> 0)"
| "truthy (JStr s) = (s \<noteq> [])"
| "truthy (JList l) = (l \<noteq> [])"
| "truthy (JObj m) = (m \<noteq> [])"

subsection \<open>Exceptions\<close>

text \<open>
  \<^verbatim>\<open>PlatformError\<close> and its subclasses (security.py) are one constructor that carries the
  class attributes the API renders: code, status and safe message.
\<close>

datatype py_exn =
    KeyError string
  | IndexError
  | TypeError string
  | AttributeError string
  | OSError string
  | ZeroDivisionError
  | ValueError string
  | PermissionError string
  | RuntimeError string
  | DomainStateError string
  | DomainConcurrencyError string
  | OptimisticConcurrencyError string
  | OutboundSecurityError string
  | IntegrityError string
  | StaleDataError string
  | OperationalError string
  | MultipleResultsFound
  | RedisError string
  | HTTPStatusError int
  | TimeoutException string
  | TransportError string
  | PlatformError string int string

fun is_KeyError :: "py_exn \<Rightarrow> bool" where
  "is_KeyError (KeyError m) = True"
| "is_KeyError e = False"

fun is_ValueError :: "py_exn \<Rightarrow> bool" where
  "is_ValueError (ValueError m) = True"
| "is_ValueError (DomainStateError m) = True"
| "is_ValueError (DomainConcurrencyError m) = True"
| "is_ValueError (OutboundSecurityError m) = True"
| "is_ValueError e = False"

fun is_RuntimeError :: "py_exn \<Rightarrow> bool" where
  "is_RuntimeError (RuntimeError m) = True"
| "is_RuntimeError (OptimisticConcurrencyError m) = True"
| "is_RuntimeError e = False"

fun is_HTTPError :: "py_exn \<Rightarrow> bool" where
  "is_HTTPError (HTTPStatusError c) = True"
| "is_HTTPError (TimeoutException m) = True"
| "is_HTTPError (TransportError m) = True"
| "is_HTTPError e = False"

text \<open>The exceptions of SQLAlchemy derive from \<^verbatim>\<open>SQLAlchemyError\<close>.\<close>

fun is_SQLAlchemyError :: "py_exn \<Rightarrow> bool" where
  "is_SQLAlchemyError (IntegrityError t) = True"
| "is_SQLAlchemyError (StaleDataError t) = True"
| "is_SQLAlchemyError (OperationalError m) = True"
| "is_SQLAlchemyError MultipleResultsFound = True"
| "is_SQLAlchemyError e = False"

fun is_RedisError :: "py_exn \<Rightarrow> bool" where
  "is_RedisError (RedisError m) = True"
| "is_RedisError e = False"

type_synonym 'a result = "py_exn + 'a"
type_synonym ('s, 'a) sop = "(py_exn, 's, 'a) op"

subsection \<open>Numbers from JSON values\<close>

text \<open>
  \<^verbatim>\<open>float(v)\<close>: \<open>None\<close> is an infinity or a NaN, which \<^verbatim>\<open>float\<close> accepts as a string. The
  syntax of a decimal string is the one of the library reference: optional sign, digits with
  single underscores between them, optional fraction and exponent, white space around.
\<close>

definition is_digit :: "char \<Rightarrow> bool" where
  "is_digit c = (let n = (of_char c :: nat) in 48 \<le> n \<and> n \<le> 57)"

fun digitpart :: "string \<Rightarrow> bool" where
  "digitpart [] = False"
| "digitpart [c] = is_digit c"
| "digitpart (c # d # cs) =
     (is_digit c \<and> (if d = CHR ''_'' then digitpart cs else digitpart (d # cs)))"

definition cut_at :: "(char \<Rightarrow> bool) \<Rightarrow> string \<Rightarrow> string \<times> string option" where
  "cut_at p s = (case dropWhile (\<lambda>c. \<not> p c) s of
     [] \<Rightarrow> (s, None) | c # rest \<Rightarrow> (takeWhile (\<lambda>c. \<not> p c) s, Some rest))"

fun cut_sign :: "string \<Rightarrow> bool \<times> string" where
  "cut_sign [] = (False, [])"
| "cut_sign (c # cs) = (if c = CHR ''-'' then (True, cs) else if c = CHR ''+'' then (False, cs)
     else (False, c # cs))"

definition float_of_str :: "string \<Rightarrow> rat option result" where
  "float_of_str s0 = (let (neg, s) = cut_sign (strip s0) in
     if lower s \<in> set [''inf'', ''infinity'', ''nan''] then Inr None else
     let (mant, ex) = cut_at (\<lambda>c. c = CHR ''e'' \<or> c = CHR ''E'') s;
         (ip, fp) = cut_at (\<lambda>c. c = CHR ''.'') mant;
         f = (case fp of None \<Rightarrow> [] | Some f \<Rightarrow> f);
         (eneg, e) = cut_sign (case ex of None \<Rightarrow> ''0'' | Some e \<Rightarrow> e);
         digits = filter is_digit (ip @ f);
         m = of_nat (nat_of_str digits) / 10 ^ length (filter is_digit f);
         n = nat_of_str (filter is_digit e);
         v = (if eneg then m / 10 ^ n else m * 10 ^ n)
     in if (ip = [] \<or> digitpart ip) \<and> (f = [] \<or> digitpart f) \<and> ip @ f \<noteq> [] \<and> digitpart e
        then Inr (Some (if neg then - v else v))
        else Inl (ValueError ''could not convert string to float''))"

fun py_float :: "json \<Rightarrow> rat option result" where
  "py_float (JFloat r) = Inr (Some r)"
| "py_float (JInt i) = Inr (Some (of_int i))"
| "py_float (JBool b) = Inr (Some (if b then 1 else 0))"
| "py_float (JStr s) = float_of_str s"
| "py_float v = Inl (TypeError ''float() argument must be a string or a real number'')"

text \<open>\<^verbatim>\<open>int(s)\<close> of a string of digits.\<close>

definition int_of_digits :: "string \<Rightarrow> int" where
  "int_of_digits s = fold (\<lambda>c n. 10 * n + (of_char c - 48)) s 0"

text \<open>\<^verbatim>\<open>int(v)\<close>: floats are truncated, strings parsed.\<close>

definition int_of_str :: "string \<Rightarrow> int result" where
  "int_of_str s0 = (let (neg, s) = cut_sign (strip s0); v = int_of_digits (filter is_digit s) in
     if digitpart s then Inr (if neg then - v else v) else Inl (ValueError ''invalid literal for int()''))"

fun py_int :: "json \<Rightarrow> int result" where
  "py_int (JInt i) = Inr i"
| "py_int (JBool b) = Inr (of_bool b)"
| "py_int (JFloat r) = Inr (if 0 \<le> r then floor r else ceiling r)"
| "py_int (JStr s) = int_of_str s"
| "py_int v = Inl (TypeError ''int() argument'')"

text \<open>The slice \<^verbatim>\<open>xs[:n]\<close>: a negative bound counts from the end.\<close>

definition slice_to :: "int \<Rightarrow> 'a list \<Rightarrow> 'a list" where
  "slice_to n xs = (if 0 \<le> n then take (nat n) xs else take (nat (int (length xs) + n)) xs)"

lemma set_slice_to: "set (slice_to n xs) \<subseteq> set xs"
  by (auto simp: slice_to_def dest: in_set_takeD)

lemma length_slice_to: "0 \<le> n \<Longrightarrow> int (length (slice_to n xs)) \<le> n"
  by (simp add: slice_to_def)

lemma slice_to_prefix: "prefix (slice_to n xs) xs"
  by (simp add: slice_to_def take_is_prefix)

subsection \<open>Sorting\<close>

text \<open>The order of Python strings, for \<^verbatim>\<open>sorted\<close>.\<close>

fun str_le :: "string \<Rightarrow> string \<Rightarrow> bool" where
  "str_le [] t = True"
| "str_le (c # s) [] = False"
| "str_le (c # s) (d # t) =
     (let m = (of_char c :: nat); n = of_char d in m < n \<or> (m = n \<and> str_le s t))"

fun insert_str :: "string \<Rightarrow> string list \<Rightarrow> string list" where
  "insert_str x [] = [x]"
| "insert_str x (y # ys) = (if x = y then y # ys else if str_le x y then x # y # ys else y # insert_str x ys)"

text \<open>\<^verbatim>\<open>sorted\<close> of a frozenset.\<close>

definition sorted_set :: "string list \<Rightarrow> string list" where
  "sorted_set xs = foldr insert_str xs []"

text \<open>\<^verbatim>\<open>sorted(d.items())\<close>: the keys differ, so the values are never compared.\<close>

fun insert_item :: "string \<times> 'v \<Rightarrow> (string, 'v) dict \<Rightarrow> (string, 'v) dict" where
  "insert_item x [] = [x]"
| "insert_item x (y # ys) = (if str_le (fst x) (fst y) then x # y # ys else y # insert_item x ys)"

definition sorted_items :: "(string, 'v) dict \<Rightarrow> (string, 'v) dict" where
  "sorted_items d = foldr insert_item d []"

subsection \<open>Conversions of JSON values\<close>

text \<open>\<^verbatim>\<open>str(v)\<close>, where \<open>rep\<close> prints floats, lists and dictionaries.\<close>

fun py_str :: "(json \<Rightarrow> string) \<Rightarrow> json \<Rightarrow> string" where
  "py_str rep (JStr s) = s"
| "py_str rep JNull = ''None''"
| "py_str rep (JBool b) = (if b then ''True'' else ''False'')"
| "py_str rep (JInt i) = str_of_int i"
| "py_str rep v = rep v"

text \<open>Iteration over a value, and \<^verbatim>\<open>frozenset\<close> of it: the elements must be hashable.\<close>

fun py_iter :: "json \<Rightarrow> json list result" where
  "py_iter (JList l) = Inr l"
| "py_iter (JStr s) = Inr (map (\<lambda>c. JStr [c]) s)"
| "py_iter (JObj m) = Inr (map (\<lambda>(k, v). JStr k) m)"
| "py_iter v = Inl (TypeError ''not iterable'')"

fun hashable :: "json \<Rightarrow> bool" where
  "hashable (JList l) = False"
| "hashable (JObj m) = False"
| "hashable v = True"

definition py_frozenset :: "json \<Rightarrow> json set result" where
  "py_frozenset v = (case py_iter v of Inl e \<Rightarrow> Inl e
     | Inr l \<Rightarrow> if list_all hashable l then Inr (set l) else Inl (TypeError ''unhashable type''))"

definition item_get :: "(string, json) dict \<Rightarrow> string \<Rightarrow> json" where
  "item_get item k = dict_get_default item k JNull"

definition py_or :: "json \<Rightarrow> json \<Rightarrow> json" where
  "py_or a b = (if truthy a then a else b)"

subsection \<open>Access to JSON values\<close>

definition json_get :: "json \<Rightarrow> string \<Rightarrow> json \<Rightarrow> json result" where
  "json_get v k dflt = (case v of JObj m \<Rightarrow> Inr (dict_get_default m k dflt)
     | _ \<Rightarrow> Inl (AttributeError ''get''))"

definition and_then :: "'a result \<Rightarrow> ('a \<Rightarrow> 'b result) \<Rightarrow> 'b result" where
  "and_then r f = (case r of Inl e \<Rightarrow> Inl e | Inr a \<Rightarrow> f a)"

text \<open>\<^verbatim>\<open>v[0]\<close>.\<close>

fun first_item :: "json \<Rightarrow> json result" where
  "first_item (JList []) = Inl IndexError"
| "first_item (JList (x # xs)) = Inr x"
| "first_item (JStr []) = Inl IndexError"
| "first_item (JStr (c # cs)) = Inr (JStr [c])"
| "first_item (JObj m) = Inl (KeyError ''0'')"
| "first_item v = Inl (TypeError ''object is not subscriptable'')"

fun map_result :: "('a \<Rightarrow> 'b result) \<Rightarrow> 'a list \<Rightarrow> 'b list result" where
  "map_result f [] = Inr []"
| "map_result f (x # xs) = and_then (f x) (\<lambda>y. and_then (map_result f xs) (\<lambda>ys. Inr (y # ys)))"

fun as_str :: "json \<Rightarrow> string result" where
  "as_str (JStr s) = Inr s"
| "as_str v = Inl (TypeError ''expected str instance'')"

definition lift :: "'a result \<Rightarrow> ('s, 'a) sop" where
  "lift r s = (r, s)"

end
