(* ===== verification/Domain.thy ===== *)
theory Domain
  imports Py_Core
begin

section \<open>The domain model: entities, life cycles and events (domain.py)\<close>

text \<open>
  The dataclasses of \<^verbatim>\<open>agi_platform/domain.py\<close> as records (a subclass extends its parent's
  record), the enums as datatypes, the transition tables of workflows and tasks, and
  \<^verbatim>\<open>transition_to\<close> of \<^verbatim>\<open>Workflow\<close> and \<^verbatim>\<open>Task\<close> as operations on the entity that return the
  audit event or raise. The two readings of the clock and the identifier that \<^verbatim>\<open>uuid4\<close> draws are
  arguments (record \<open>stamp\<close>).

  The locale \<open>transition_entity\<close> states the contract both \<^verbatim>\<open>transition_to\<close> methods keep; its
  consequences over whole histories (the events replay to the entity, versions count the events,
  a state is left only through its gates) are proved once and interpreted for both.
\<close>

subsection \<open>Enums\<close>

datatype LifecycleState = LS_CREATED | LS_ACTIVE | LS_ARCHIVED | LS_DELETED

datatype WorkflowState =
    WS_CREATED | WS_PLANNED | WS_RUNNING | WS_WAITING | WS_PAUSED | WS_FAILED | WS_RECOVERING
  | WS_COMPLETED | WS_CANCELLED

datatype TaskState =
    TS_PENDING | TS_READY | TS_RUNNING | TS_WAITING_TOOL | TS_WAITING_APPROVAL | TS_RETRYING
  | TS_FAILED | TS_COMPLETED | TS_CANCELLED

fun workflow_state_value :: "WorkflowState \<Rightarrow> string" where
  "workflow_state_value WS_CREATED = ''CREATED''"
| "workflow_state_value WS_PLANNED = ''PLANNED''"
| "workflow_state_value WS_RUNNING = ''RUNNING''"
| "workflow_state_value WS_WAITING = ''WAITING''"
| "workflow_state_value WS_PAUSED = ''PAUSED''"
| "workflow_state_value WS_FAILED = ''FAILED''"
| "workflow_state_value WS_RECOVERING = ''RECOVERING''"
| "workflow_state_value WS_COMPLETED = ''COMPLETED''"
| "workflow_state_value WS_CANCELLED = ''CANCELLED''"

fun task_state_value :: "TaskState \<Rightarrow> string" where
  "task_state_value TS_PENDING = ''PENDING''"
| "task_state_value TS_READY = ''READY''"
| "task_state_value TS_RUNNING = ''RUNNING''"
| "task_state_value TS_WAITING_TOOL = ''WAITING_TOOL''"
| "task_state_value TS_WAITING_APPROVAL = ''WAITING_APPROVAL''"
| "task_state_value TS_RETRYING = ''RETRYING''"
| "task_state_value TS_FAILED = ''FAILED''"
| "task_state_value TS_COMPLETED = ''COMPLETED''"
| "task_state_value TS_CANCELLED = ''CANCELLED''"

fun WORKFLOW_TRANSITIONS :: "WorkflowState \<Rightarrow> WorkflowState list" where
  "WORKFLOW_TRANSITIONS WS_CREATED = [WS_PLANNED, WS_CANCELLED]"
| "WORKFLOW_TRANSITIONS WS_PLANNED = [WS_RUNNING, WS_PAUSED, WS_CANCELLED]"
| "WORKFLOW_TRANSITIONS WS_RUNNING =
     [WS_WAITING, WS_PAUSED, WS_FAILED, WS_COMPLETED, WS_CANCELLED]"
| "WORKFLOW_TRANSITIONS WS_WAITING = [WS_RUNNING, WS_PAUSED, WS_FAILED, WS_CANCELLED]"
| "WORKFLOW_TRANSITIONS WS_PAUSED = [WS_RUNNING, WS_CANCELLED]"
| "WORKFLOW_TRANSITIONS WS_FAILED = [WS_RECOVERING, WS_CANCELLED]"
| "WORKFLOW_TRANSITIONS WS_RECOVERING = [WS_RUNNING, WS_FAILED, WS_CANCELLED]"
| "WORKFLOW_TRANSITIONS WS_COMPLETED = []"
| "WORKFLOW_TRANSITIONS WS_CANCELLED = []"

fun TASK_TRANSITIONS :: "TaskState \<Rightarrow> TaskState list" where
  "TASK_TRANSITIONS TS_PENDING = [TS_READY, TS_CANCELLED]"
| "TASK_TRANSITIONS TS_READY = [TS_RUNNING, TS_WAITING_APPROVAL, TS_CANCELLED]"
| "TASK_TRANSITIONS TS_RUNNING =
     [TS_WAITING_TOOL, TS_WAITING_APPROVAL, TS_RETRYING, TS_FAILED, TS_COMPLETED, TS_CANCELLED]"
| "TASK_TRANSITIONS TS_WAITING_TOOL = [TS_RUNNING, TS_RETRYING, TS_FAILED, TS_CANCELLED]"
| "TASK_TRANSITIONS TS_WAITING_APPROVAL = [TS_RUNNING, TS_FAILED, TS_CANCELLED]"
| "TASK_TRANSITIONS TS_RETRYING = [TS_RUNNING, TS_FAILED, TS_CANCELLED]"
| "TASK_TRANSITIONS TS_FAILED = [TS_RETRYING, TS_CANCELLED]"
| "TASK_TRANSITIONS TS_COMPLETED = []"
| "TASK_TRANSITIONS TS_CANCELLED = []"

datatype EventType =
    WORKFLOW_CREATED | WORKFLOW_STATE_TRANSITIONED | WORKFLOW_STARTED | WORKFLOW_PAUSED
  | WORKFLOW_RESUMED | WORKFLOW_COMPLETED | WORKFLOW_FAILED | TASK_CREATED
  | TASK_STATE_TRANSITIONED | TASK_STARTED | TASK_RETRIED | TASK_COMPLETED | TASK_FAILED
  | AGENT_STARTED | AGENT_COMPLETED | AGENT_FAILED | TOOL_CALL_REQUESTED | TOOL_CALL_STARTED
  | TOOL_CALL_COMPLETED | TOOL_CALL_FAILED | MEMORY_CREATED | MEMORY_UPDATED | MEMORY_REJECTED
  | MEMORY_ROLLED_BACK | EVIDENCE_CREATED | CLAIM_CREATED | DECISION_CREATED
  | APPROVAL_REQUESTED | APPROVAL_GRANTED | APPROVAL_REJECTED | SANDBOX_STARTED
  | SANDBOX_COMPLETED | SANDBOX_FAILED | IMPROVEMENT_PROPOSED | IMPROVEMENT_APPROVED
  | IMPROVEMENT_REJECTED | IMPROVEMENT_DEPLOYED

subsection \<open>Entities\<close>

record VersionedEntity =
  ent_id :: string
  created_at :: int
  updated_at :: int
  version :: int

record TenantScopedEntity = VersionedEntity +
  tenant_id :: string
  owner_id :: "string option"
  lifecycle_state :: LifecycleState

record Workflow = TenantScopedEntity +
  wf_state :: WorkflowState
  wf_idempotency_key :: "string option"

record Task = TenantScopedEntity +
  task_workflow_id :: string
  task_state :: TaskState
  task_idempotency_key :: "string option"

record Event =
  event_type :: EventType
  ev_tenant_id :: string
  event_id :: string
  event_version :: int
  occurred_at :: int
  correlation_id :: "string option"
  request_id :: "string option"
  ev_workflow_id :: "string option"
  ev_task_id :: "string option"
  ev_agent_id :: "string option"
  actor_id :: "string option"
  sequence :: "int option"
  payload :: "(string, json) dict"

text \<open>The clock readings and the identifier a transition draws from its environment.\<close>

record stamp =
  touch_now :: int
  event_now :: int
  uuid_hex :: string

definition new_id :: "string \<Rightarrow> string \<Rightarrow> string" where
  "new_id pre hex = pre @ ''_'' @ hex"

definition touch :: "int \<Rightarrow> 'a VersionedEntity_scheme \<Rightarrow> 'a VersionedEntity_scheme" where
  "touch now e = e\<lparr>updated_at := now, version := version e + 1\<rparr>"


subsection \<open>Transitions\<close>

text \<open>The arguments of \<^verbatim>\<open>transition_to\<close>, the optional ones included.\<close>

record 'st transition_args =
  target :: 'st
  arg_actor_id :: "string option"
  expected_version :: "int option"
  arg_correlation_id :: "string option"
  arg_request_id :: "string option"

definition transition_payload :: "string \<Rightarrow> string \<Rightarrow> int \<Rightarrow> (string, json) dict" where
  "transition_payload from_state to_state v =
     [(''from_state'', JStr from_state), (''to_state'', JStr to_state), (''entity_version'', JInt v)]"

definition Workflow_transition_to ::
    "WorkflowState transition_args \<Rightarrow> stamp \<Rightarrow> (Workflow, Event) sop" where
  "Workflow_transition_to a st self =
     (let previous_state = wf_state self in
      if expected_version a \<noteq> None \<and> expected_version a \<noteq> Some (version self) then
        (Inl (DomainConcurrencyError (''workflow '' @ ent_id self @ '' expected version '' @
            str_of_int (the (expected_version a)) @ '', current version '' @
            str_of_int (version self))), self)
      else if target a \<notin> set (WORKFLOW_TRANSITIONS (wf_state self)) then
        (Inl (DomainStateError (''workflow cannot transition from '' @
            workflow_state_value (wf_state self) @ '' to '' @ workflow_state_value (target a))), self)
      else
        (let self' = touch (touch_now st) (self\<lparr>wf_state := target a\<rparr>) in
         (Inr \<lparr>event_type = WORKFLOW_STATE_TRANSITIONED, ev_tenant_id = tenant_id self',
               event_id = new_id ''evt'' (uuid_hex st), event_version = 1,
               occurred_at = event_now st, correlation_id = arg_correlation_id a,
               request_id = arg_request_id a, ev_workflow_id = Some (ent_id self'),
               ev_task_id = None, ev_agent_id = None, actor_id = arg_actor_id a, sequence = None,
               payload = transition_payload (workflow_state_value previous_state)
                           (workflow_state_value (target a)) (version self')\<rparr>, self')))"

definition Task_transition_to ::
    "TaskState transition_args \<Rightarrow> stamp \<Rightarrow> (Task, Event) sop" where
  "Task_transition_to a st self =
     (let previous_state = task_state self in
      if expected_version a \<noteq> None \<and> expected_version a \<noteq> Some (version self) then
        (Inl (DomainConcurrencyError (''task '' @ ent_id self @ '' expected version '' @
            str_of_int (the (expected_version a)) @ '', current version '' @
            str_of_int (version self))), self)
      else if target a \<notin> set (TASK_TRANSITIONS (task_state self)) then
        (Inl (DomainStateError (''task cannot transition from '' @
            task_state_value (task_state self) @ '' to '' @ task_state_value (target a))), self)
      else
        (let self' = touch (touch_now st) (self\<lparr>task_state := target a\<rparr>) in
         (Inr \<lparr>event_type = TASK_STATE_TRANSITIONED, ev_tenant_id = tenant_id self',
               event_id = new_id ''evt'' (uuid_hex st), event_version = 1,
               occurred_at = event_now st, correlation_id = arg_correlation_id a,
               request_id = arg_request_id a, ev_workflow_id = Some (task_workflow_id self'),
               ev_task_id = Some (ent_id self'), ev_agent_id = None, actor_id = arg_actor_id a,
               sequence = None,
               payload = transition_payload (task_state_value previous_state)
                           (task_state_value (target a)) (version self')\<rparr>, self')))"

text \<open>
  Replaying events: start from a state value and a version, and follow each event whose
  \<^verbatim>\<open>from_state\<close> and \<^verbatim>\<open>entity_version\<close> fit; \<open>None\<close> when one does not fit.
\<close>

fun replay :: "json \<Rightarrow> int \<Rightarrow> Event list \<Rightarrow> (json \<times> int) option" where
  "replay x v [] = Some (x, v)"
| "replay x v (e # es) =
     (if dict_get (payload e) ''from_state'' = Some x \<and>
         dict_get (payload e) ''entity_version'' = Some (JInt (v + 1))
      then (case dict_get (payload e) ''to_state'' of
              None \<Rightarrow> None | Some y \<Rightarrow> replay y (v + 1) es)
      else None)"

text \<open>
  A history: the requests are tried in order, a refused one leaves the entity alone, and the
  events of the accepted ones are collected.
\<close>

fun history :: "('r \<Rightarrow> ('e, Event) sop) \<Rightarrow> 'r list \<Rightarrow> 'e \<Rightarrow> Event list \<times> 'e" where
  "history f [] e = ([], e)"
| "history f (r # rs) e =
     (case f r e of
        (Inl x, e') \<Rightarrow> history f rs e'
      | (Inr ev, e') \<Rightarrow> (let (evs, e'') = history f rs e' in (ev # evs, e'')))"

definition workflow_history ::
    "(WorkflowState transition_args \<times> stamp) list \<Rightarrow> Workflow \<Rightarrow> Event list \<times> Workflow" where
  "workflow_history = history (\<lambda>(a, st). Workflow_transition_to a st)"

definition task_history ::
    "(TaskState transition_args \<times> stamp) list \<Rightarrow> Task \<Rightarrow> Event list \<times> Task" where
  "task_history = history (\<lambda>(a, st). Task_transition_to a st)"

definition visited :: "Event list \<Rightarrow> json list" where
  "visited evs = map (\<lambda>e. the (dict_get (payload e) ''to_state'')) evs"

subsection \<open>The contract of a transition\<close>

locale transition_entity =
  fixes succs :: "'st \<Rightarrow> 'st list"
    and val :: "'st \<Rightarrow> string"
    and state_of :: "'e \<Rightarrow> 'st"
    and version_of :: "'e \<Rightarrow> int"
    and want :: "'r \<Rightarrow> 'st"
    and expects :: "'r \<Rightarrow> int option"
    and attempt :: "'r \<Rightarrow> ('e, Event) sop"
  assumes val_inj: "val x = val y \<Longrightarrow> x = y"
    and accepts: "expects r \<in> {None, Some (version_of e)} \<Longrightarrow>
       want r \<in> set (succs (state_of e)) \<Longrightarrow> \<exists>ev e'. attempt r e = (Inr ev, e')"
    and accepted: "attempt r e = (Inr ev, e') \<Longrightarrow>
       expects r \<in> {None, Some (version_of e)} \<and> want r \<in> set (succs (state_of e)) \<and>
       state_of e' = want r \<and> version_of e' = version_of e + 1 \<and>
       payload ev = transition_payload (val (state_of e)) (val (want r)) (version_of e + 1)"
    and refused: "attempt r e = (Inl exn, e') \<Longrightarrow> e' = e"
begin

lemma history_replays:
  "history attempt rs e = (evs, e') \<Longrightarrow>
   replay (JStr (val (state_of e))) (version_of e) evs =
     Some (JStr (val (state_of e')), version_of e')"
proof (induction rs arbitrary: e evs)
  case Nil
  then show ?case by simp
next
  case (Cons r rs)
  show ?case
  proof (cases "attempt r e")
    case (Pair res e1)
    show ?thesis
    proof (cases res)
      case (Inl x)
      with Pair have "attempt r e = (Inl x, e1)" by simp
      then have "e1 = e" by (rule refused)
      with Cons Pair Inl show ?thesis by simp
    next
      case (Inr ev)
      with Pair have ok: "attempt r e = (Inr ev, e1)" by simp
      from Cons.prems ok obtain evs' where
        evs: "evs = ev # evs'" and rest: "history attempt rs e1 = (evs', e')"
        by (auto split: prod.splits)
      from Cons.IH [OF rest] accepted [OF ok] evs show ?thesis
        by (simp add: transition_payload_def)
    qed
  qed
qed

lemma history_version: "history attempt rs e = (evs, e') \<Longrightarrow>
    version_of e' = version_of e + int (length evs)"
proof (induction rs arbitrary: e evs)
  case Nil
  then show ?case by simp
next
  case (Cons r rs)
  then show ?case
    by (auto split: prod.splits sum.splits dest: accepted refused)
qed

lemma stale_refused:
  assumes "attempt r e = (Inr ev, e')" and "expects r' = Some (version_of e)"
  shows "\<exists>x. attempt r' e' = (Inl x, e')"
proof (cases "attempt r' e'")
  case (Pair res e'')
  from accepted [OF assms(1)] assms(2) have stale: "expects r' \<notin> {None, Some (version_of e')}"
    by simp
  show ?thesis
  proof (cases res)
    case (Inl x)
    with Pair refused [of r' e' x e''] show ?thesis by simp
  next
    case (Inr ev'')
    with Pair accepted [of r' e' ev'' e''] stale show ?thesis by simp
  qed
qed

text \<open>
  Gates: when every edge out of a set of states ends in the set or in \<open>g\<close>, a history that
  leaves the set has visited \<open>g\<close>.
\<close>

lemma history_gate:
  assumes "history attempt rs e = (evs, e')" and "state_of e \<in> A" and "state_of e' \<notin> A"
    and gate: "\<And>s. s \<in> A \<Longrightarrow> set (succs s) \<subseteq> insert g A"
  shows "JStr (val g) \<in> set (visited evs)"
  using assms(1-3)
proof (induction rs arbitrary: e evs)
  case Nil
  then show ?case by simp
next
  case (Cons r rs)
  show ?case
  proof (cases "attempt r e")
    case (Pair res e1)
    show ?thesis
    proof (cases res)
      case (Inl x)
      with Pair have "e1 = e" by (auto dest: refused)
      with Cons Pair Inl show ?thesis by simp
    next
      case (Inr ev)
      with Pair have ok: "attempt r e = (Inr ev, e1)" by simp
      from Cons.prems ok obtain evs' where
        evs: "evs = ev # evs'" and rest: "history attempt rs e1 = (evs', e')"
        by (auto split: prod.splits)
      from accepted [OF ok] gate [OF Cons.prems(2)] have "state_of e1 \<in> insert g A"
        and "the (dict_get (payload ev) ''to_state'') = JStr (val (state_of e1))"
        by (auto simp: transition_payload_def)
      then show ?thesis using Cons.IH [OF rest _ Cons.prems(3)] evs
        by (auto simp: visited_def)
    qed
  qed
qed

lemma history_terminal:
  "history attempt rs e = (evs, e') \<Longrightarrow> succs (state_of e) = [] \<Longrightarrow> evs = [] \<and> e' = e"
proof (induction rs arbitrary: e evs)
  case Nil
  then show ?case by simp
next
  case (Cons r rs)
  show ?case
  proof (cases "attempt r e")
    case (Pair res e1)
    obtain x where "attempt r e = (Inl x, e1)"
    proof (cases res)
      case (Inl x)
      with Pair that show thesis by simp
    next
      case (Inr ev)
      with Pair accepted [of r e ev e1] Cons.prems(2) show thesis by simp
    qed
    with refused [of r e x e1] Cons show ?thesis by simp
  qed
qed

end

lemma workflow_state_value_inj: "workflow_state_value x = workflow_state_value y \<Longrightarrow> x = y"
  by (cases x; cases y) simp_all

lemma task_state_value_inj: "task_state_value x = task_state_value y \<Longrightarrow> x = y"
  by (cases x; cases y) simp_all

lemma touch_fields [simp]:
  "version (touch now e) = version e + 1" "updated_at (touch now e) = now"
  "ent_id (touch now e) = ent_id e" "created_at (touch now e) = created_at e"
  "VersionedEntity.more (touch now e) = VersionedEntity.more e"
  by (simp_all add: touch_def)

lemma touch_workflow [simp]:
  fixes w :: Workflow
  shows "tenant_id (touch now w) = tenant_id w" "wf_state (touch now w) = wf_state w"
  by (simp_all add: touch_def)

lemma touch_task [simp]:
  fixes t :: Task
  shows "tenant_id (touch now t) = tenant_id t" "task_state (touch now t) = task_state t"
    "task_workflow_id (touch now t) = task_workflow_id t"
  by (simp_all add: touch_def)

interpretation wft: transition_entity WORKFLOW_TRANSITIONS workflow_state_value wf_state version
    "\<lambda>(a, st). target a" "\<lambda>(a, st). expected_version a" "\<lambda>(a, st). Workflow_transition_to a st"
  by unfold_locales
    (auto simp: Workflow_transition_to_def Let_def workflow_state_value_inj split: if_splits prod.splits)

interpretation tkt: transition_entity TASK_TRANSITIONS task_state_value task_state version
    "\<lambda>(a, st). target a" "\<lambda>(a, st). expected_version a" "\<lambda>(a, st). Task_transition_to a st"
  by unfold_locales
    (auto simp: Task_transition_to_def Let_def task_state_value_inj split: if_splits prod.splits)


subsection \<open>The life cycles\<close>

definition workflow_terminal :: "WorkflowState \<Rightarrow> bool" where
  "workflow_terminal s = (s = WS_COMPLETED \<or> s = WS_CANCELLED)"

definition task_terminal :: "TaskState \<Rightarrow> bool" where
  "task_terminal s = (s = TS_COMPLETED \<or> s = TS_CANCELLED)"

lemma workflow_cancellable: "\<not> workflow_terminal s \<Longrightarrow> WS_CANCELLED \<in> set (WORKFLOW_TRANSITIONS s)"
  by (cases s) (simp_all add: workflow_terminal_def)

lemma task_cancellable: "\<not> task_terminal s \<Longrightarrow> TS_CANCELLED \<in> set (TASK_TRANSITIONS s)"
  by (cases s) (simp_all add: task_terminal_def)

interpretation wfl: lifecycle WORKFLOW_TRANSITIONS workflow_terminal WS_CANCELLED
  by unfold_locales
    (auto simp: workflow_terminal_def workflow_cancellable [unfolded workflow_terminal_def])

interpretation tkl: lifecycle TASK_TRANSITIONS task_terminal TS_CANCELLED
  by unfold_locales
    (auto simp: task_terminal_def task_cancellable [unfolded task_terminal_def])

lemma completed_gate:
  "s \<in> - {WS_RUNNING, WS_COMPLETED} \<Longrightarrow>
   set (WORKFLOW_TRANSITIONS s) \<subseteq> insert WS_RUNNING (- {WS_RUNNING, WS_COMPLETED})"
  by (cases s) auto

lemma failed_gate:
  "s \<in> {WS_FAILED, WS_CANCELLED} \<Longrightarrow>
   set (WORKFLOW_TRANSITIONS s) \<subseteq> insert WS_RECOVERING {WS_FAILED, WS_CANCELLED}"
  by (cases s) auto

lemmas workflow_history_facts =
  wft.history_replays [folded workflow_history_def] wft.history_version [folded workflow_history_def]
  wft.history_terminal [folded workflow_history_def]

lemmas task_history_facts =
  tkt.history_replays [folded task_history_def] tkt.history_version [folded task_history_def]
  tkt.history_terminal [folded task_history_def]

text \<open>The error a refused transition raises, in the order the code tests.\<close>

fun is_DomainConcurrencyError :: "py_exn \<Rightarrow> bool" where
  "is_DomainConcurrencyError (DomainConcurrencyError m) = True"
| "is_DomainConcurrencyError e = False"

fun is_DomainStateError :: "py_exn \<Rightarrow> bool" where
  "is_DomainStateError (DomainStateError m) = True"
| "is_DomainStateError e = False"

subsection \<open>Properties\<close>

text \<open>
  C37: event sourcing of the domain objects. Whatever requests are tried on a workflow or a task,
  the events of the accepted ones replay, with matching \<^verbatim>\<open>from_state\<close> and consecutive
  \<^verbatim>\<open>entity_version\<close>, from the entity's initial state and version to its final ones, and the
  version has grown by exactly the number of events.
\<close>
theorem transition_events_replay:
  "(case workflow_history rs w of (evs, w') \<Rightarrow>
      replay (JStr (workflow_state_value (wf_state w))) (version w) evs =
        Some (JStr (workflow_state_value (wf_state w')), version w') \<and>
      version w' = version w + int (length evs)) \<and>
   (case task_history qs t of (evs, t') \<Rightarrow>
      replay (JStr (task_state_value (task_state t))) (version t) evs =
        Some (JStr (task_state_value (task_state t')), version t') \<and>
      version t' = version t + int (length evs))"
  by (auto split: prod.splits dest: workflow_history_facts(1,2) task_history_facts(1,2))

text \<open>
  Optimistic concurrency. Once a transition of a workflow has been accepted at version
  \<open>v\<close>, every other request that expects version \<open>v\<close> is refused with
  \<^verbatim>\<open>DomainConcurrencyError\<close> and leaves the workflow as the first writer left it; the same
  holds of tasks.
\<close>
lemma stale_transition_refused:
  "(Workflow_transition_to a st w = (Inr ev, w') \<longrightarrow> expected_version b = Some (version w) \<longrightarrow>
      (\<exists>m. Workflow_transition_to b st' w' = (Inl (DomainConcurrencyError m), w'))) \<and>
   (Task_transition_to c st t = (Inr ev', t') \<longrightarrow> expected_version d = Some (version t) \<longrightarrow>
      (\<exists>m. Task_transition_to d st' t' = (Inl (DomainConcurrencyError m), t')))"
proof -
  have "version w' = version w + 1" if "Workflow_transition_to a st w = (Inr ev, w')"
    using wft.accepted [of "(a, st)" w ev w'] that by simp
  moreover have "version t' = version t + 1" if "Task_transition_to c st t = (Inr ev', t')"
    using tkt.accepted [of "(c, st)" t ev' t'] that by simp
  ultimately show ?thesis
    by (auto simp: Workflow_transition_to_def Task_transition_to_def Let_def)
qed

definition example_workflow :: Workflow where
  "example_workflow = \<lparr>ent_id = ''wf_1'', created_at = 0, updated_at = 0, version = 1, tenant_id = ''default'',
    owner_id = None, lifecycle_state = LS_CREATED, wf_state = WS_CREATED, wf_idempotency_key = None\<rparr>"

definition example_task :: Task where
  "example_task = \<lparr>ent_id = ''task_1'', created_at = 0, updated_at = 0, version = 1, tenant_id = ''default'',
    owner_id = None, lifecycle_state = LS_CREATED, task_workflow_id = ''wf_1'',
    task_state = TS_PENDING, task_idempotency_key = None\<rparr>"

definition example_stamp :: stamp where
  "example_stamp = \<lparr>touch_now = 10, event_now = 11, uuid_hex = ''ab''\<rparr>"

definition plain_args :: "'st \<Rightarrow> int option \<Rightarrow> 'st transition_args" where
  "plain_args s v = \<lparr>target = s, arg_actor_id = Some ''user_1'', expected_version = v,
    arg_correlation_id = None, arg_request_id = None\<rparr>"

lemmas example_defs = example_workflow_def example_task_def example_stamp_def plain_args_def

text \<open>
  Completion and recovery go through their gates. A workflow whose history ends in
  \<^verbatim>\<open>COMPLETED\<close> was \<^verbatim>\<open>RUNNING\<close> on the way unless it started there, and one that was
  \<^verbatim>\<open>FAILED\<close> and ends anywhere but in \<^verbatim>\<open>FAILED\<close> or \<^verbatim>\<open>CANCELLED\<close> went through
  \<^verbatim>\<open>RECOVERING\<close>.
\<close>
lemma workflow_gates:
  assumes "workflow_history rs w = (evs, w')"
  shows "(wf_state w \<notin> {WS_RUNNING, WS_COMPLETED} \<longrightarrow> wf_state w' = WS_COMPLETED \<longrightarrow>
      JStr ''RUNNING'' \<in> set (visited evs)) \<and>
    (wf_state w = WS_FAILED \<longrightarrow> wf_state w' \<notin> {WS_FAILED, WS_CANCELLED} \<longrightarrow>
      JStr ''RECOVERING'' \<in> set (visited evs))"
  using wft.history_gate [OF assms [unfolded workflow_history_def] _ _ completed_gate]
    wft.history_gate [OF assms [unfolded workflow_history_def] _ _ failed_gate]
  by auto

text \<open>
  Terminal states absorb and every other state can be cancelled. No history changes a
  workflow or task that is completed or cancelled, and in every other state a cancellation
  with the right version is accepted.
\<close>
lemma terminal_or_cancellable:
  "(if workflow_terminal (wf_state w) then workflow_history rs w = ([], w)
    else \<exists>ev w'. Workflow_transition_to (plain_args WS_CANCELLED (Some (version w))) st w = (Inr ev, w') \<and>
           wf_state w' = WS_CANCELLED) \<and>
   (if task_terminal (task_state t) then task_history qs t = ([], t)
    else \<exists>ev t'. Task_transition_to (plain_args TS_CANCELLED (Some (version t))) st t = (Inr ev, t') \<and>
           task_state t' = TS_CANCELLED)"
proof -
  have wf: "workflow_history rs w = ([], w)" if "workflow_terminal (wf_state w)"
    using workflow_history_facts(3) [of rs w] wfl.terminal_stuck [OF that]
    by (cases "workflow_history rs w") simp
  have tk: "task_history qs t = ([], t)" if "task_terminal (task_state t)"
    using task_history_facts(3) [of qs t] tkl.terminal_stuck [OF that]
    by (cases "task_history qs t") simp
  show ?thesis
    using wf tk workflow_cancellable task_cancellable
    by (auto simp: Workflow_transition_to_def Task_transition_to_def Let_def plain_args_def)
qed

text \<open>
  Refusals. A transition of a workflow is refused exactly when the expected version is stale
  (then with \<^verbatim>\<open>DomainConcurrencyError\<close>, whatever the target) or the table does not allow the
  target (then with \<^verbatim>\<open>DomainStateError\<close>), and a refused transition changes nothing.
\<close>
lemma workflow_refusals:
  "(case Workflow_transition_to a st w of
      (Inl e, w') \<Rightarrow> w' = w \<and>
         (is_DomainConcurrencyError e \<longleftrightarrow> (\<exists>v. expected_version a = Some v \<and> v \<noteq> version w)) \<and>
         (is_DomainStateError e \<longleftrightarrow> expected_version a \<in> {None, Some (version w)} \<and>
            target a \<notin> set (WORKFLOW_TRANSITIONS (wf_state w)))
    | (Inr ev, w') \<Rightarrow>
         expected_version a \<in> {None, Some (version w)} \<and>
         target a \<in> set (WORKFLOW_TRANSITIONS (wf_state w)) \<and>
         w' = w\<lparr>wf_state := target a, updated_at := touch_now st, version := version w + 1\<rparr> \<and>
         ev_tenant_id ev = tenant_id w \<and> ev_workflow_id ev = Some (ent_id w))"
  by (auto simp: Workflow_transition_to_def Let_def touch_def)

end
