(* ===== verification/Entities.thy ===== *)
theory Entities
  imports Domain
begin

section \<open>The other entities of the domain model (domain.py)\<close>

text \<open>
  The dataclasses of \<^verbatim>\<open>agi_platform/domain.py\<close> that have no methods of their own, as extensions of
  the record of their base class, and their constructors called with the identifier alone: what the
  dataclass defaults give. The two clock readings of the base class are arguments. A field whose
  default is a mutable object gets a fresh one in Python; in the records there is nothing to share.
\<close>

definition new_entity :: "string \<Rightarrow> int \<Rightarrow> int \<Rightarrow> 'a \<Rightarrow> 'a TenantScopedEntity_scheme" where
  "new_entity i created updated rest =
     TenantScopedEntity.extend (TenantScopedEntity.make i created updated 1 ''default'' None LS_CREATED) rest"

record User = TenantScopedEntity +
  user_email :: string

definition new_User :: "string \<Rightarrow> int \<Rightarrow> int \<Rightarrow> User" where
  "new_User i created updated = new_entity i created updated (User.fields '''')"

record Tenant = VersionedEntity +
  tenant_name :: string
  tenant_lifecycle_state :: LifecycleState

definition new_Tenant :: "string \<Rightarrow> int \<Rightarrow> int \<Rightarrow> Tenant" where
  "new_Tenant i created updated = VersionedEntity.extend (VersionedEntity.make i created updated 1) (Tenant.fields ''default'' LS_CREATED)"

record AgentRole = TenantScopedEntity +
  role_name :: string
  role_permissions :: "string list"

definition new_AgentRole :: "string \<Rightarrow> int \<Rightarrow> int \<Rightarrow> AgentRole" where
  "new_AgentRole i created updated = new_entity i created updated (AgentRole.fields ''agent'' [])"

record AgentCapability = TenantScopedEntity +
  capability_name :: string
  capability_risk_level :: string

definition new_AgentCapability :: "string \<Rightarrow> int \<Rightarrow> int \<Rightarrow> AgentCapability" where
  "new_AgentCapability i created updated = new_entity i created updated (AgentCapability.fields '''' ''LOW'')"

record Agent = TenantScopedEntity +
  role_id :: string
  agent_capabilities :: "string list"
  allowed_tools :: "string list"
  allowed_resources :: "string list"
  agent_risk_level :: string
  agent_budget :: "(string, rat) dict"
  agent_timeout_seconds :: int
  max_iterations :: int
  max_tool_calls :: int

definition new_Agent :: "string \<Rightarrow> int \<Rightarrow> int \<Rightarrow> Agent" where
  "new_Agent i created updated = new_entity i created updated (Agent.fields '''' [] [] [] ''LOW'' [] 60 10 20)"

record ToolPermission = TenantScopedEntity +
  perm_tool_id :: string
  perm_capability :: string
  perm_action :: string
  perm_risk_level :: string

definition new_ToolPermission :: "string \<Rightarrow> int \<Rightarrow> int \<Rightarrow> ToolPermission" where
  "new_ToolPermission i created updated = new_entity i created updated (ToolPermission.fields '''' '''' ''execute'' ''LOW'')"

record Tool = TenantScopedEntity +
  tool_name :: string
  tool_description :: string
  tool_input_schema :: "(string, json) dict"
  tool_output_schema :: "(string, json) dict"
  required_capabilities :: "string list"
  tool_timeout_seconds :: int
  network_access :: string
  filesystem_access :: string

definition new_Tool :: "string \<Rightarrow> int \<Rightarrow> int \<Rightarrow> Tool" where
  "new_Tool i created updated = new_entity i created updated (Tool.fields '''' '''' [] [] [] 30 ''none'' ''none'')"

record WorkflowRun = TenantScopedEntity +
  run_workflow_id :: string
  current_state :: WorkflowState
  checkpoint_id :: "string option"
  event_sequence :: int
  run_idempotency_key :: "string option"

definition new_WorkflowRun :: "string \<Rightarrow> int \<Rightarrow> int \<Rightarrow> WorkflowRun" where
  "new_WorkflowRun i created updated = new_entity i created updated (WorkflowRun.fields '''' WS_CREATED None 0 None)"

record TaskRun = TenantScopedEntity +
  run_task_id :: string
  task_current_state :: TaskState
  run_attempt :: int

definition new_TaskRun :: "string \<Rightarrow> int \<Rightarrow> int \<Rightarrow> TaskRun" where
  "new_TaskRun i created updated = new_entity i created updated (TaskRun.fields '''' TS_PENDING 0)"

record Checkpoint = TenantScopedEntity +
  workflow_run_id :: string
  cp_event_sequence :: int
  cp_state :: "(string, json) dict"

definition new_Checkpoint :: "string \<Rightarrow> int \<Rightarrow> int \<Rightarrow> Checkpoint" where
  "new_Checkpoint i created updated = new_entity i created updated (Checkpoint.fields '''' 0 [])"

record Evidence = TenantScopedEntity +
  evidence_source :: string
  evidence_source_type :: string
  evidence_content_hash :: string
  trust_score :: rat

definition new_Evidence :: "string \<Rightarrow> int \<Rightarrow> int \<Rightarrow> Evidence" where
  "new_Evidence i created updated = new_entity i created updated (Evidence.fields '''' ''unknown'' '''' 0)"

record Claim = TenantScopedEntity +
  claim_evidence_ids :: "string list"
  claim_confidence :: rat
  claim_text :: string

definition new_Claim :: "string \<Rightarrow> int \<Rightarrow> int \<Rightarrow> Claim" where
  "new_Claim i created updated = new_entity i created updated (Claim.fields [] 0 '''')"

record Decision = TenantScopedEntity +
  decision_status :: string
  decision_risk_level :: string
  decision_evidence_ids :: "string list"

definition new_Decision :: "string \<Rightarrow> int \<Rightarrow> int \<Rightarrow> Decision" where
  "new_Decision i created updated = new_entity i created updated (Decision.fields ''proposed'' ''LOW'' [])"

record Approval = TenantScopedEntity +
  approval_decision_id :: string
  approver_id :: string
  approval_scope :: string
  approval_expires_at :: "int option"

definition new_Approval :: "string \<Rightarrow> int \<Rightarrow> int \<Rightarrow> Approval" where
  "new_Approval i created updated = new_entity i created updated (Approval.fields '''' '''' '''' None)"

record Memory = TenantScopedEntity +
  memory_kind :: string
  memory_content_hash :: string
  memory_source :: string
  memory_source_type :: string
  memory_confidence :: rat
  memory_evidence_ids :: "string list"
  supersedes :: "string option"

definition new_Memory :: "string \<Rightarrow> int \<Rightarrow> int \<Rightarrow> Memory" where
  "new_Memory i created updated = new_entity i created updated (Memory.fields ''semantic'' '''' '''' ''unknown'' 0 [] None)"

record MemoryVersion = TenantScopedEntity +
  versioned_memory_id :: string
  version_number :: int
  version_content_hash :: string

definition new_MemoryVersion :: "string \<Rightarrow> int \<Rightarrow> int \<Rightarrow> MemoryVersion" where
  "new_MemoryVersion i created updated = new_entity i created updated (MemoryVersion.fields '''' 1 '''')"

record Entity = TenantScopedEntity +
  entity_labels :: "string list"
  entity_properties :: "(string, json) dict"

definition new_Entity :: "string \<Rightarrow> int \<Rightarrow> int \<Rightarrow> Entity" where
  "new_Entity i created updated = new_entity i created updated (Entity.fields [] [])"

record Relationship = TenantScopedEntity +
  source_entity_id :: string
  target_entity_id :: string
  relationship_type :: string
  relationship_confidence :: rat
  relationship_evidence_ids :: "string list"

definition new_Relationship :: "string \<Rightarrow> int \<Rightarrow> int \<Rightarrow> Relationship" where
  "new_Relationship i created updated = new_entity i created updated (Relationship.fields '''' '''' ''RELATED_TO'' 0 [])"

record Artifact = TenantScopedEntity +
  artifact_type :: string
  artifact_content_hash :: string
  size_bytes :: int
  source_workflow_id :: "string option"

definition new_Artifact :: "string \<Rightarrow> int \<Rightarrow> int \<Rightarrow> Artifact" where
  "new_Artifact i created updated = new_entity i created updated (Artifact.fields ''unknown'' '''' 0 None)"

record Execution = TenantScopedEntity +
  execution_tool_id :: string
  execution_workflow_id :: "string option"
  execution_task_id :: "string option"
  execution_status :: string

definition new_Execution :: "string \<Rightarrow> int \<Rightarrow> int \<Rightarrow> Execution" where
  "new_Execution i created updated = new_entity i created updated (Execution.fields '''' None None ''created'')"

record Policy = TenantScopedEntity +
  policy_name :: string
  policy_rules :: "(string, json) dict"

definition new_Policy :: "string \<Rightarrow> int \<Rightarrow> int \<Rightarrow> Policy" where
  "new_Policy i created updated = new_entity i created updated (Policy.fields '''' [])"

type_synonym AuditEvent = Event

record ImprovementProposal = TenantScopedEntity +
  proposal_title :: string
  proposal_risk_level :: string
  proposal_status :: string
  reversible :: bool

definition new_ImprovementProposal :: "string \<Rightarrow> int \<Rightarrow> int \<Rightarrow> ImprovementProposal" where
  "new_ImprovementProposal i created updated = new_entity i created updated (ImprovementProposal.fields '''' ''MEDIUM'' ''proposed'' True)"

text \<open>Every entity starts at version 1, in the default tenant.\<close>

lemma new_entity_sels [simp]:
  "ent_id (new_entity i c u x) = i" "version (new_entity i c u x) = 1" "tenant_id (new_entity i c u x) = ''default''"
  "lifecycle_state (new_entity i c u x) = LS_CREATED" "created_at (new_entity i c u x) = c" "updated_at (new_entity i c u x) = u"
  "TenantScopedEntity.more (new_entity i c u x) = x"
  by (simp_all add: new_entity_def TenantScopedEntity.extend_def TenantScopedEntity.make_def)

end
