(* ===== verification/Access_Control.thy ===== *)
theory Access_Control
  imports Py_Core
begin

section \<open>Identities, permissions and the policy engine (security.py)\<close>

text \<open>
  Permissions and their legacy spellings, the identity of a caller, the tenant context that
  tenant-aware services require, \<^verbatim>\<open>PolicyEngine.authorize\<close> and the in-process
  \<^verbatim>\<open>AuditTrail\<close>, from \<^verbatim>\<open>agi_platform/security.py\<close>. A frozenset is a set; the
  \<^verbatim>\<open>resource\<close> and \<^verbatim>\<open>context\<close> arguments are dictionaries of JSON values.
\<close>

subsection \<open>Errors with a response\<close>

definition AuthenticationError :: py_exn where
  "AuthenticationError = PlatformError ''unauthenticated'' 401 ''Valid authentication is required.''"

definition AuthorizationError :: py_exn where
  "AuthorizationError = PlatformError ''forbidden'' 403 ''Permission denied.''"

definition NotFoundError :: py_exn where
  "NotFoundError = PlatformError ''not_found'' 404 ''Resource not found.''"

definition ConflictError :: "string option \<Rightarrow> py_exn" where
  "ConflictError safe = PlatformError ''conflict'' 409
     (case safe of None \<Rightarrow> ''Resource conflict.'' | Some m \<Rightarrow> m)"

definition DependencyError :: "string option \<Rightarrow> py_exn" where
  "DependencyError safe = PlatformError ''dependency_unavailable'' 503
     (case safe of None \<Rightarrow> ''Required dependency is unavailable.'' | Some m \<Rightarrow> m)"

definition ProviderError :: py_exn where
  "ProviderError = PlatformError ''provider_unavailable'' 503 ''Provider unavailable.''"

definition RateLimitError :: py_exn where
  "RateLimitError = PlatformError ''rate_limited'' 429 ''Rate limit exceeded.''"

definition SandboxError :: "string option \<Rightarrow> py_exn" where
  "SandboxError safe = PlatformError ''sandbox_error'' 403
     (case safe of None \<Rightarrow> ''Sandbox operation denied.'' | Some m \<Rightarrow> m)"

subsection \<open>Permissions\<close>

definition PERMISSIONS :: "string list" where
  "PERMISSIONS = [''memory.read'', ''memory.write'', ''memory.delete'', ''workflow.read'',
     ''workflow.start'', ''workflow.cancel'', ''github.read'', ''github.index'', ''graph.read'',
     ''graph.write'', ''sandbox.execute'', ''governance.propose'', ''governance.review'',
     ''governance.approve'', ''evolution.propose'', ''evolution.approve'', ''evolution.deploy'',
     ''production.mutate'']"

definition LEGACY_PERMISSION_MAP :: "(string, string) dict" where
  "LEGACY_PERMISSION_MAP =
    [(''memory:read'', ''memory.read''), (''memory:write'', ''memory.write''),
     (''workflow:create'', ''workflow.start''), (''workflow:execute'', ''workflow.start''),
     (''github:read'', ''github.read''), (''github:index'', ''github.index''),
     (''graph:read'', ''graph.read''), (''graph:write'', ''graph.write''),
     (''sandbox:execute'', ''sandbox.execute''), (''governance:propose'', ''governance.propose''),
     (''governance:approve'', ''governance.approve''), (''evolution:propose'', ''evolution.propose'')]"

definition HIGH_RISK_ACTIONS :: "string list" where
  "HIGH_RISK_ACTIONS = [''sandbox.execute'', ''evolution.deploy'', ''production.mutate'',
     ''governance.approve'']"

definition GOVERNANCE_ACTIONS :: "string list" where
  "GOVERNANCE_ACTIONS = [''governance.propose'', ''governance.review'', ''governance.approve'']"

definition normalize_permission :: "string \<Rightarrow> string" where
  "normalize_permission p = dict_get_default LEGACY_PERMISSION_MAP p p"

subsection \<open>Identities\<close>

record Identity =
  id_subject :: string
  id_tenant_id :: string
  roles :: "json set"
  permissions :: "string set"
  key_id :: string
  identity_type :: string

definition can :: "Identity \<Rightarrow> string \<Rightarrow> bool" where
  "can i permission = (let normalized = normalize_permission permission in
     ''*'' \<in> permissions i \<or> normalized \<in> permissions i)"

record TenantContext =
  ctx_tenant_id :: string
  ctx_identity :: Identity
  ctx_request_id :: string

subsection \<open>The policy engine\<close>

record AuthorizationDecision =
  allowed :: bool
  reason :: string
  audit_required :: bool

definition authorize ::
    "Identity option \<Rightarrow> TenantContext option \<Rightarrow> string \<Rightarrow> (string, json) dict \<Rightarrow>
     (string, json) dict \<Rightarrow> AuthorizationDecision" where
  "authorize subject tenant action resource context =
    (let action = normalize_permission action in
     case (subject, tenant) of
       (Some s, Some t) \<Rightarrow>
         if id_tenant_id s \<noteq> ctx_tenant_id t then
           \<lparr>allowed = False, reason = ''missing_or_cross_tenant_context'', audit_required = False\<rparr>
         else if action \<notin> set PERMISSIONS then
           \<lparr>allowed = False, reason = ''unknown_action'', audit_required = False\<rparr>
         else if dict_get_default resource ''tenant_id'' (JStr (ctx_tenant_id t)) \<noteq> JStr (ctx_tenant_id t) then
           \<lparr>allowed = False, reason = ''resource_tenant_mismatch'',
            audit_required = action \<in> set GOVERNANCE_ACTIONS\<rparr>
         else if \<not> can s action then
           \<lparr>allowed = False, reason = ''missing_permission'',
            audit_required = action \<in> set GOVERNANCE_ACTIONS\<rparr>
         else if action \<in> set HIGH_RISK_ACTIONS \<and>
                 \<not> truthy (dict_get_default context ''approved'' JNull) then
           \<lparr>allowed = False, reason = ''approval_required'',
            audit_required = action \<in> set GOVERNANCE_ACTIONS\<rparr>
         else \<lparr>allowed = True, reason = ''allowed'', audit_required = action \<in> set GOVERNANCE_ACTIONS\<rparr>
     | _ \<Rightarrow> \<lparr>allowed = False, reason = ''missing_or_cross_tenant_context'', audit_required = False\<rparr>)"

subsection \<open>The audit trail\<close>

record audit_entry =
  au_tenant_id :: string
  au_subject :: string
  au_action :: string
  au_resource :: string
  au_result :: string
  au_reason :: string
  au_request_id :: string
  au_created_at :: int

definition AuditTrail_record ::
    "string \<Rightarrow> string \<Rightarrow> string \<Rightarrow> string \<Rightarrow> string \<Rightarrow> string \<Rightarrow> string \<Rightarrow> int \<Rightarrow>
     audit_entry list \<Rightarrow> audit_entry list" where
  "AuditTrail_record tenant subj action resource result why rid now events =
     events @ [\<lparr>au_tenant_id = tenant, au_subject = subj, au_action = action,
       au_resource = resource, au_result = result, au_reason = why, au_request_id = rid,
       au_created_at = now\<rparr>]"

subsection \<open>Facts about the tables\<close>

lemma legacy_map_check: "list_all (\<lambda>(p, q). q \<in> set PERMISSIONS) LEGACY_PERMISSION_MAP"
  by code_simp

lemma legacy_targets_known: "dict_get LEGACY_PERMISSION_MAP p = Some q \<Longrightarrow> q \<in> set PERMISSIONS"
  using legacy_map_check by (auto simp: list_all_iff dest: map_of_SomeD)

lemma permissions_check: "list_all (\<lambda>p. dict_get LEGACY_PERMISSION_MAP p = None) PERMISSIONS"
  by code_simp

lemma legacy_sources_unknown: "p \<in> set PERMISSIONS \<Longrightarrow> dict_get LEGACY_PERMISSION_MAP p = None"
  using permissions_check by (simp add: list_all_iff)

lemma normalize_known [simp]: "p \<in> set PERMISSIONS \<Longrightarrow> normalize_permission p = p"
  by (simp add: normalize_permission_def dict_get_default_def legacy_sources_unknown)

lemma normalize_idem [simp]: "normalize_permission (normalize_permission p) = normalize_permission p"
proof (cases "dict_get LEGACY_PERMISSION_MAP p")
  case None
  then show ?thesis by (simp add: normalize_permission_def dict_get_default_def)
next
  case (Some q)
  then have "q \<in> set PERMISSIONS" by (rule legacy_targets_known)
  moreover have "normalize_permission p = q"
    by (simp add: Some normalize_permission_def dict_get_default_def)
  ultimately show ?thesis by simp
qed

lemma high_risk_known: "set HIGH_RISK_ACTIONS \<subseteq> set PERMISSIONS"
  by (simp add: HIGH_RISK_ACTIONS_def PERMISSIONS_def)

lemma governance_known: "set GOVERNANCE_ACTIONS \<subseteq> set PERMISSIONS"
  by (simp add: GOVERNANCE_ACTIONS_def PERMISSIONS_def)

lemma can_known: "a \<in> set PERMISSIONS \<Longrightarrow> can s a \<longleftrightarrow> ''*'' \<in> permissions s \<or> a \<in> permissions s"
  by (simp add: can_def)

text \<open>What an allowed request satisfies: the whole grant condition in one place.\<close>

definition granted :: "Identity option \<Rightarrow> TenantContext option \<Rightarrow> string \<Rightarrow> (string, json) dict \<Rightarrow>
    (string, json) dict \<Rightarrow> bool" where
  "granted subject tenant action resource context \<longleftrightarrow>
     (\<exists>s t. subject = Some s \<and> tenant = Some t \<and> id_tenant_id s = ctx_tenant_id t \<and>
        normalize_permission action \<in> set PERMISSIONS \<and>
        dict_get resource ''tenant_id'' \<in> {None, Some (JStr (ctx_tenant_id t))} \<and>
        (''*'' \<in> permissions s \<or> normalize_permission action \<in> permissions s) \<and>
        (normalize_permission action \<in> set HIGH_RISK_ACTIONS \<longrightarrow>
           (\<exists>v. dict_get context ''approved'' = Some v \<and> truthy v)))"

lemma authorize_allowed_iff:
  "allowed (authorize subject tenant action resource context) \<longleftrightarrow>
   granted subject tenant action resource context"
proof (cases subject; cases tenant)
  fix s t
  assume st: "subject = Some s" "tenant = Some t"
  show ?thesis
    by (simp add: st authorize_def granted_def Let_def can_known dict_get_default_def
        split: option.splits)
qed (simp_all add: authorize_def granted_def)

text \<open>
  C30: the policy engine grants exactly what the permission model says and denies everything
  else. A request is allowed if and only if subject and tenant context are both present and of
  the same tenant, the action (after the legacy renaming) is a known permission, the resource
  names no other tenant, the subject holds the permission or the wildcard, and a high-risk
  action carries an approval.
\<close>
theorem authorize_exact:
  "allowed (authorize subject tenant action resource context) \<longleftrightarrow>
     (\<exists>s t. subject = Some s \<and> tenant = Some t \<and> id_tenant_id s = ctx_tenant_id t \<and>
        normalize_permission action \<in> set PERMISSIONS \<and>
        dict_get resource ''tenant_id'' \<in> {None, Some (JStr (ctx_tenant_id t))} \<and>
        (''*'' \<in> permissions s \<or> normalize_permission action \<in> permissions s) \<and>
        (if normalize_permission action \<in> set HIGH_RISK_ACTIONS
         then \<exists>v. dict_get context ''approved'' = Some v \<and> truthy v else True))"
  by (auto simp: authorize_allowed_iff granted_def)

text \<open>
  The decision does not depend on the spelling of the action, and its audit flag is set
  exactly for the governance actions that got past the tenant check: a governance decision,
  allowed or denied for the caller's own tenant, is always marked for the audit trail.
\<close>
lemma authorize_spelling_and_audit:
  "authorize subject tenant (normalize_permission action) resource context =
     authorize subject tenant action resource context \<and>
   (audit_required (authorize subject tenant action resource context) \<longleftrightarrow>
     normalize_permission action \<in> set GOVERNANCE_ACTIONS \<and>
     reason (authorize subject tenant action resource context) \<noteq> ''missing_or_cross_tenant_context'')"
  using governance_known by (auto simp: authorize_def Let_def split: option.splits)

end
