(* ===== verification/Distributed_Lock.thy ===== *)
theory Distributed_Lock
  imports Access_Control
begin

section \<open>The distributed lock (security.py)\<close>

text \<open>
  \<^verbatim>\<open>RedisDistributedLock\<close> of \<^verbatim>\<open>agi_platform/security.py\<close>: a key with an expiry, set only if absent, and
  deleted by a script that compares the owner first. The Redis client is an argument
  (\<open>redis_client\<close>): \<^verbatim>\<open>SET key value NX PX ttl\<close>, the evaluation of a script, and the \<^verbatim>\<open>get\<close> and
  \<^verbatim>\<open>del\<close> calls the script makes; the script itself is modelled. What Redis documents of them is the
  locale \<open>expiring_store\<close>, where a call that fails may have taken effect or not. The loop of
  \<^verbatim>\<open>acquire\<close> may not end, if the clock stands still, so it is a partial function; between its
  attempts other clients change the store.

  Shown: at any time at most one client holds a live lock of a name, over all interleavings of
  attempts, releases, late releases, failures and expiries; \<^verbatim>\<open>acquire\<close> returns when the clock
  advances; \<^verbatim>\<open>run_once\<close> gives the lock back however the function ends.
\<close>

subsection \<open>The client and the lock\<close>

record 'r redis_client =
  rc_set_nx :: "rat \<Rightarrow> string \<Rightarrow> string \<Rightarrow> int \<Rightarrow> 'r \<Rightarrow> bool result \<times> 'r"
  rc_eval :: "('r \<Rightarrow> int \<times> 'r) \<Rightarrow> 'r \<Rightarrow> int result \<times> 'r"
  rc_get :: "rat \<Rightarrow> string \<Rightarrow> 'r \<Rightarrow> string option"
  rc_del :: "string \<Rightarrow> 'r \<Rightarrow> 'r"

record LockHandle =
  lh_name :: string
  lh_owner :: string
  lh_ttl_ms :: int

definition lock_key :: "string \<Rightarrow> string" where
  "lock_key name = ''lock:'' @ name"

definition RELEASE_SCRIPT :: "'r redis_client \<Rightarrow> rat \<Rightarrow> string \<Rightarrow> string \<Rightarrow> 'r \<Rightarrow> int \<times> 'r" where
  "RELEASE_SCRIPT client now key arg s =
     (if rc_get client now key s = Some arg then (1, rc_del client key s) else (0, s))"

definition lock_unavailable :: "py_exn \<Rightarrow> py_exn" where
  "lock_unavailable e = (case e of RedisError m \<Rightarrow> DependencyError (Some ''Lock dependency unavailable.'') | _ \<Rightarrow> e)"

definition lock_release :: "'r redis_client \<Rightarrow> rat \<Rightarrow> LockHandle \<Rightarrow> ('r, bool) sop" where
  "lock_release client now h s =
     (case rc_eval client (RELEASE_SCRIPT client now (lock_key (lh_name h)) (lh_owner h)) s of
        (Inr n, s') \<Rightarrow> (Inr (n \<noteq> 0), s')
      | (Inl e, s') \<Rightarrow> (Inl (lock_unavailable e), s'))"

text \<open>
  The readings of the monotonic clock, the time on the server at each attempt, and what
  other clients did to the store before it.
\<close>

record 'r lock_env =
  le_monotonic :: "nat \<Rightarrow> rat"
  le_server_ms :: "nat \<Rightarrow> rat"
  le_others :: "nat \<Rightarrow> 'r \<Rightarrow> 'r"
  le_uuid :: string

definition lock_attempt :: "'r redis_client \<Rightarrow> rat \<Rightarrow> LockHandle \<Rightarrow> ('r, bool) sop" where
  "lock_attempt client now h s = (case rc_set_nx client now (lock_key (lh_name h)) (lh_owner h) (lh_ttl_ms h) s of
     (Inr b, s') \<Rightarrow> (Inr b, s') | (Inl e, s') \<Rightarrow> (Inl (lock_unavailable e), s'))"

partial_function (option) acquire_loop ::
    "'r redis_client \<Rightarrow> 'r lock_env \<Rightarrow> LockHandle \<Rightarrow> rat \<Rightarrow> int \<Rightarrow> nat \<Rightarrow> 'r \<Rightarrow> (LockHandle result \<times> 'r) option" where
  "acquire_loop client env h deadline retry_ms n s =
     (case lock_attempt client (le_server_ms env n) h (le_others env n s) of
        (r, s') \<Rightarrow> (case r of
          Inl e \<Rightarrow> Some (Inl e, s')
        | Inr b \<Rightarrow>
            if b then Some (Inr h, s')
            else if deadline \<le> le_monotonic env (Suc n) then Some (Inl (ConflictError (Some ''Operation is already in progress.'')), s')
            else if retry_ms < 0 then Some (Inl (ValueError ''sleep length must be non-negative''), s')
            else acquire_loop client env h deadline retry_ms (Suc n) s'))"

definition acquire ::
    "'r redis_client \<Rightarrow> 'r lock_env \<Rightarrow> string \<Rightarrow> int \<Rightarrow> int \<Rightarrow> int \<Rightarrow> string option \<Rightarrow> 'r \<Rightarrow> (LockHandle result \<times> 'r) option" where
  "acquire client env name ttl_ms timeout_ms retry_ms owner s =
     (let owner = (case owner of Some x \<Rightarrow> if x = [] then le_uuid env else x | None \<Rightarrow> le_uuid env)
      in acquire_loop client env \<lparr>lh_name = name, lh_owner = owner, lh_ttl_ms = ttl_ms\<rparr>
           (le_monotonic env 0 + of_int timeout_ms / 1000) retry_ms 0 s)"

text \<open>
  \<^verbatim>\<open>run_once\<close>: the function works on a state of its own; while it runs other clients change the
  store. An error of the release replaces the function's outcome.
\<close>

definition run_once ::
    "'r redis_client \<Rightarrow> 'r lock_env \<Rightarrow> string \<Rightarrow> int \<Rightarrow> int \<Rightarrow> int \<Rightarrow> string option \<Rightarrow> ('r \<Rightarrow> 'r) \<Rightarrow> rat \<Rightarrow>
     ('s, 'a) sop \<Rightarrow> 'r \<times> 's \<Rightarrow> ('a result \<times> 'r \<times> 's) option" where
  "run_once client env name ttl_ms timeout_ms retry_ms owner meanwhile end_ms fn = (\<lambda>(r, s).
     case acquire client env name ttl_ms timeout_ms retry_ms owner r of
       None \<Rightarrow> None
     | Some (Inl e, r') \<Rightarrow> Some (Inl e, r', s)
     | Some (Inr h, r') \<Rightarrow>
         (case fn s of (q, s') \<Rightarrow>
            (case lock_release client end_ms h (meanwhile r') of
               (Inl e, r'') \<Rightarrow> Some (Inl e, r'', s')
             | (Inr _, r'') \<Rightarrow> Some (q, r'', s'))))"

subsection \<open>Many clients\<close>

text \<open>
  The clients of one server: the time of the last command, the store, the handles ever granted with
  the time they were, and the owners that have given theirs back. A step is one command at the server:
  an attempt of a client (with an owner never used before, as \<^verbatim>\<open>uuid4\<close> draws it) or a release.
\<close>

record 'r lock_world =
  lw_now :: rat
  lw_store :: 'r
  lw_granted :: "(LockHandle \<times> rat) list"
  lw_returned :: "string list"

inductive lock_step :: "'r redis_client \<Rightarrow> 'r lock_world \<Rightarrow> 'r lock_world \<Rightarrow> bool" for client where
  grant: "lw_now w \<le> t \<Longrightarrow> lh_owner h \<notin> (lh_owner \<circ> fst) ` set (lw_granted w) \<Longrightarrow>
    lock_attempt client t h (lw_store w) = (Inr True, s') \<Longrightarrow>
    lock_step client w (w\<lparr>lw_now := t, lw_store := s', lw_granted := (h, t) # lw_granted w\<rparr>)"
| refuse: "lw_now w \<le> t \<Longrightarrow> lock_attempt client t h (lw_store w) = (r, s') \<Longrightarrow> r \<noteq> Inr True \<Longrightarrow>
    lock_step client w (w\<lparr>lw_now := t, lw_store := s'\<rparr>)"
| return: "lw_now w \<le> t \<Longrightarrow> (h, g) \<in> set (lw_granted w) \<Longrightarrow> lock_release client t h (lw_store w) = (r, s') \<Longrightarrow>
    lock_step client w (w\<lparr>lw_now := t, lw_store := s', lw_returned := lh_owner h # lw_returned w\<rparr>)"

inductive_cases lock_stepE: "lock_step client w w'"

text \<open>A handle is live until it is returned or its time is up.\<close>

definition live :: "'r lock_world \<Rightarrow> rat \<Rightarrow> LockHandle \<times> rat \<Rightarrow> bool" where
  "live w u = (\<lambda>(h, g). lh_owner h \<notin> set (lw_returned w) \<and> u < g + of_int (lh_ttl_ms h))"

definition new_world :: "'r \<Rightarrow> 'r lock_world" where
  "new_world s = \<lparr>lw_now = 0, lw_store = s, lw_granted = [], lw_returned = []\<rparr>"

definition lock_inv :: "'r redis_client \<Rightarrow> 'r lock_world \<Rightarrow> bool" where
  "lock_inv client w \<longleftrightarrow> distinct (map (lh_owner \<circ> fst) (lw_granted w)) \<and>
     (\<forall>(h, g) \<in> set (lw_granted w). \<forall>u \<ge> lw_now w. live w u (h, g) \<longrightarrow>
        rc_get client u (lock_key (lh_name h)) (lw_store w) = Some (lh_owner h))"

lemma lock_key_inject [simp]: "lock_key a = lock_key b \<longleftrightarrow> a = b"
  by (simp add: lock_key_def)

subsection \<open>What Redis promises\<close>

text \<open>The key was absent and is set until it expires; or all keys are as they were.\<close>

definition was_set :: "'r redis_client \<Rightarrow> rat \<Rightarrow> string \<Rightarrow> string \<Rightarrow> int \<Rightarrow> 'r \<Rightarrow> 'r \<Rightarrow> bool" where
  "was_set client t k v ttl s s' \<longleftrightarrow> rc_get client t k s = None \<and> (\<forall>u j. t \<le> u \<longrightarrow> rc_get client u j s' =
     (if j = k then if u < t + of_int ttl then Some v else None else rc_get client u j s))"

definition unset :: "'r redis_client \<Rightarrow> rat \<Rightarrow> 'r \<Rightarrow> 'r \<Rightarrow> bool" where
  "unset client t s s' \<longleftrightarrow> (\<forall>u j. t \<le> u \<longrightarrow> rc_get client u j s' = rc_get client u j s)"

locale expiring_store =
  fixes client :: "'r redis_client"
  assumes set_done: "rc_set_nx client t k v ttl s = (Inr True, s') \<Longrightarrow> was_set client t k v ttl s s'"
    and set_refused: "rc_set_nx client t k v ttl s = (Inr False, s') \<Longrightarrow> rc_get client t k s \<noteq> None \<and> unset client t s s'"
    and set_failed: "rc_set_nx client t k v ttl s = (Inl e, s') \<Longrightarrow> unset client t s s' \<or> was_set client t k v ttl s s'"
    and eval_done: "rc_eval client sc s = (Inr n, s') \<Longrightarrow> sc s = (n, s')"
    and eval_failed: "rc_eval client sc s = (Inl e, s') \<Longrightarrow> s' = s \<or> s' = snd (sc s)"
    and get_del: "rc_get client u j (rc_del client k s) = (if j = k then None else rc_get client u j s)"
begin

lemma attempt_effect:
  assumes "lock_attempt client t h s = (r, s')"
  shows "unset client t s s' \<or> was_set client t (lock_key (lh_name h)) (lh_owner h) (lh_ttl_ms h) s s'"
    and "r = Inr True \<Longrightarrow> was_set client t (lock_key (lh_name h)) (lh_owner h) (lh_ttl_ms h) s s'"
  using assms set_done set_refused set_failed
  by (auto simp: lock_attempt_def split: prod.splits sum.splits) (metis (full_types))+

lemma release_effect:
  assumes "lock_release client t h s = (r, s')"
  shows "s' = s \<or> s' = rc_del client (lock_key (lh_name h)) s \<and> rc_get client t (lock_key (lh_name h)) s = Some (lh_owner h)"
  using assms eval_done [of "RELEASE_SCRIPT client t (lock_key (lh_name h)) (lh_owner h)" s]
    eval_failed [of "RELEASE_SCRIPT client t (lock_key (lh_name h)) (lh_owner h)" s]
  by (fastforce simp: lock_release_def RELEASE_SCRIPT_def split: prod.splits sum.splits if_splits)

lemma inv_attempt:
  assumes inv: "lock_inv client w" and t: "lw_now w \<le> t"
    and s: "unset client t (lw_store w) s' \<or> was_set client t (lock_key (lh_name h)) (lh_owner h) (lh_ttl_ms h) (lw_store w) s'"
    and g: "(h', g) \<in> set (lw_granted w)" "t \<le> u" "live w u (h', g)"
  shows "rc_get client u (lock_key (lh_name h')) s' = Some (lh_owner h')"
proof -
  have "live w t (h', g)" using g(2,3) by (auto simp: live_def)
  with inv t g(1) have held: "rc_get client t (lock_key (lh_name h')) (lw_store w) = Some (lh_owner h')"
    unfolding lock_inv_def by blast
  have "rc_get client u (lock_key (lh_name h')) (lw_store w) = Some (lh_owner h')"
    using inv t g unfolding lock_inv_def by fastforce
  with s held g(2) show ?thesis by (auto simp: unset_def was_set_def)
qed

lemma step_inv:
  assumes "lock_inv client w" and "lock_step client w w'"
  shows "lock_inv client w'"
  using assms(2)
proof (cases rule: lock_step.cases)
  case (grant t h s')
  note eff = attempt_effect(2) [OF grant(4) refl]
  have "rc_get client u (lock_key (lh_name h')) s' = Some (lh_owner h')"
    if "(h', g) \<in> set (lw_granted w')" "t \<le> u" "live w' u (h', g)" for h' g u
  proof (cases "(h', g) = (h, t)")
    case True
    with eff that show ?thesis by (auto simp: was_set_def live_def)
  next
    case False
    with that grant show ?thesis by (intro inv_attempt [OF assms(1) grant(2) disjI2 [OF eff]]) (auto simp: live_def)
  qed
  with assms(1) grant show ?thesis by (auto simp: lock_inv_def)
next
  case (refuse t h r s')
  have "rc_get client u (lock_key (lh_name h')) s' = Some (lh_owner h')"
    if "(h', g) \<in> set (lw_granted w')" "t \<le> u" "live w' u (h', g)" for h' g u
    using that refuse by (intro inv_attempt [OF assms(1) refuse(2) attempt_effect(1) [OF refuse(3)]]) (auto simp: live_def)
  with assms(1) refuse show ?thesis by (auto simp: lock_inv_def)
next
  case (return t h g r s')
  have "rc_get client u (lock_key (lh_name h')) s' = Some (lh_owner h')"
    if g': "(h', g') \<in> set (lw_granted w)" and u: "t \<le> u" and l: "live w' u (h', g')" for h' g' u
  proof -
    have l: "live w u (h', g')" "lh_owner h' \<noteq> lh_owner h" "live w t (h', g')" using l u return by (auto simp: live_def)
    have at: "rc_get client x (lock_key (lh_name h')) (lw_store w) = Some (lh_owner h')" if "t \<le> x" "live w x (h', g')" for x
      using assms(1) g' that return(2) unfolding lock_inv_def by fastforce
    from release_effect [OF return(4)] at [OF u l(1)] at [OF order.refl l(3)] l(2) show ?thesis by (auto simp: get_del)
  qed
  with assms(1) return show ?thesis by (auto simp: lock_inv_def)
qed

lemma reachable_inv:
  assumes "(lock_step client)\<^sup>*\<^sup>* (new_world s) w"
  shows "lock_inv client w"
  using assms
proof induction
  case base
  show ?case by (simp add: lock_inv_def new_world_def)
next
  case (step w w')
  then show ?case by (blast intro: step_inv)
qed

lemma exclusive:
  assumes "(lock_step client)\<^sup>*\<^sup>* (new_world s) w" and "a \<in> set (lw_granted w)" "b \<in> set (lw_granted w)"
    and "live w (lw_now w) a" "live w (lw_now w) b" and "lh_name (fst a) = lh_name (fst b)"
  shows "a = b"
proof -
  have inv: "lock_inv client w" by (rule reachable_inv [OF assms(1)])
  have "rc_get client (lw_now w) (lock_key (lh_name (fst x))) (lw_store w) = Some (lh_owner (fst x))"
    if "x \<in> set (lw_granted w)" "live w (lw_now w) x" for x
    using inv that by (cases x) (auto simp: lock_inv_def)
  from this [OF assms(2,4)] this [OF assms(3,5)] assms(6) have "(lh_owner \<circ> fst) a = (lh_owner \<circ> fst) b" by simp
  with inv assms(2,3) show ?thesis unfolding lock_inv_def distinct_map by (blast dest: inj_onD)
qed

lemma run_once_gives_back:
  assumes "acquire client env name ttl timeout retry owner r = Some (Inr h, r')"
  shows "\<exists>q r''. run_once client env name ttl timeout retry owner meanwhile end_ms fn (r, s) = Some (q, r'', snd (fn s)) \<and>
    (q = fst (fn s) \<and> rc_get client end_ms (lock_key (lh_name h)) r'' \<noteq> Some (lh_owner h) \<or>
     (\<exists>e. lock_release client end_ms h (meanwhile r') = (Inl e, r'') \<and> q = Inl e))"
proof -
  obtain q s' where fn: "fn s = (q, s')" by fastforce
  obtain b r'' where rel: "lock_release client end_ms h (meanwhile r') = (b, r'')" by fastforce
  show ?thesis
  proof (cases b)
    case (Inr c)
    with rel have "rc_get client end_ms (lock_key (lh_name h)) r'' \<noteq> Some (lh_owner h)"
      by (auto simp: lock_release_def RELEASE_SCRIPT_def get_del split: prod.splits sum.splits if_splits dest!: eval_done)
    with assms fn rel Inr show ?thesis by (simp add: run_once_def)
  qed (use assms fn rel in \<open>simp add: run_once_def\<close>)
qed

end

subsection \<open>A store with expiring keys\<close>

type_synonym ttl_store = "(string \<times> string \<times> rat) list"

definition ttl_get :: "rat \<Rightarrow> string \<Rightarrow> ttl_store \<Rightarrow> string option" where
  "ttl_get t k s = (case map_of s k of Some (v, e) \<Rightarrow> if t < e then Some v else None | None \<Rightarrow> None)"

definition ttl_client :: "ttl_store redis_client" where
  "ttl_client = \<lparr>rc_set_nx = (\<lambda>t k v ttl s. if ttl \<le> 0 then (Inl (RedisError ''invalid expire time''), s)
       else if ttl_get t k s = None then (Inr True, (k, v, t + of_int ttl) # s) else (Inr False, s)),
     rc_eval = (\<lambda>sc s. case sc s of (n, s') \<Rightarrow> (Inr n, s')),
     rc_get = ttl_get, rc_del = (\<lambda>k s. filter (\<lambda>(j, x). j \<noteq> k) s)\<rparr>"

lemma map_of_filter_key: "map_of (filter (\<lambda>(j, x). j \<noteq> k) s) i = (if i = k then None else map_of s i)"
  by (induction s) auto

interpretation ttl: expiring_store ttl_client
  by unfold_locales
    (auto simp: ttl_client_def was_set_def unset_def ttl_get_def map_of_filter_key split: if_splits option.splits prod.splits)

subsection \<open>Properties\<close>

lemma at_most_one:
  assumes "distinct xs" and "\<And>a b. a \<in> set xs \<Longrightarrow> b \<in> set xs \<Longrightarrow> P a \<Longrightarrow> P b \<Longrightarrow> a = b"
  shows "length (filter P xs) \<le> 1"
proof (rule ccontr)
  assume "\<not> ?thesis"
  then obtain a b ys where f: "filter P xs = a # b # ys" by (cases "filter P xs"; cases "tl (filter P xs)") auto
  have "distinct (a # b # ys)" using assms(1) unfolding f [symmetric] by simp
  moreover have "a \<in> set (filter P xs)" "b \<in> set (filter P xs)" unfolding f by simp_all
  ultimately show False using assms(2) by auto
qed

lemma acquire_loop_returns:
  assumes "0 < retry_ms" and step: "\<And>n. le_monotonic env (Suc n) + of_int retry_ms / 1000 \<le> le_monotonic env (Suc (Suc n))"
    and "deadline \<le> le_monotonic env (Suc n) + of_nat k * (of_int retry_ms / 1000)"
  shows "\<exists>r s'. acquire_loop client env h deadline retry_ms n s = Some (r, s') \<and> (\<forall>h'. r = Inr h' \<longrightarrow> h' = h)"
  using assms(3)
proof (induction k arbitrary: n s)
  case 0
  then show ?case by (auto simp: acquire_loop.simps [of client env h deadline] split: prod.split sum.split)
next
  case (Suc k)
  have "deadline \<le> le_monotonic env (Suc (Suc n)) + of_nat k * (of_int retry_ms / 1000)"
    using Suc.prems step [of n] by (simp add: algebra_simps add_divide_distrib)
  from Suc.IH [OF this] show ?case
    by (subst acquire_loop.simps) (auto split: prod.split sum.split)
qed

text \<open>
  C17: The lock is exclusive. Over all interleavings of attempts and releases by any number of clients,
  with calls that fail halfway, keys that expire and holders that release too late, at no time is there
  more than one live handle of a name: a granted handle that its owner has not given back and whose
  time to live is not over.
\<close>

theorem lock_exclusive:
  assumes "expiring_store client" and "(lock_step client)\<^sup>*\<^sup>* (new_world s) w"
  shows "length (filter (\<lambda>a. lh_name (fst a) = name \<and> live w (lw_now w) a) (lw_granted w)) \<le> 1"
proof -
  have "distinct (lw_granted w)"
    using expiring_store.reachable_inv [OF assms] by (simp add: lock_inv_def distinct_map)
  moreover have "a = b" if "a \<in> set (lw_granted w)" "b \<in> set (lw_granted w)" "live w (lw_now w) a" "live w (lw_now w) b"
    "lh_name (fst a) = lh_name (fst b)" for a b
    by (rule expiring_store.exclusive [OF assms that])
  ultimately show ?thesis by (intro at_most_one) auto
qed

definition example_handle :: "string \<Rightarrow> LockHandle" where
  "example_handle x = \<lparr>lh_name = ''job:1'', lh_owner = x, lh_ttl_ms = 10\<rparr>"

definition example_end :: "ttl_store lock_world" where
  "example_end = \<lparr>lw_now = 13, lw_store = [(''lock:job:1'', ''b'', 22), (''lock:job:1'', ''a'', 11)],
     lw_granted = [(example_handle ''b'', 12), (example_handle ''a'', 1)], lw_returned = [''a'']\<rparr>"

text \<open>A second client is refused, gets the lock when the first one's has expired, and keeps it when the
  first one releases too late.\<close>

lemma example_locks:
  "(lock_step ttl_client)\<^sup>*\<^sup>* (new_world []) example_end"
proof -
  let ?w1 = "\<lparr>lw_now = 1, lw_store = [(''lock:job:1'', ''a'', 11)], lw_granted = [(example_handle ''a'', 1)], lw_returned = []\<rparr>"
  let ?w2 = "?w1\<lparr>lw_now := 2\<rparr>"
  let ?w3 = "\<lparr>lw_now = 12, lw_store = [(''lock:job:1'', ''b'', 22), (''lock:job:1'', ''a'', 11)],
     lw_granted = [(example_handle ''b'', 12), (example_handle ''a'', 1)], lw_returned = []\<rparr>"
  note defs = example_handle_def lock_attempt_def lock_release_def RELEASE_SCRIPT_def ttl_client_def ttl_get_def lock_key_def new_world_def
  have "lock_step ttl_client (new_world []) ?w1"
    using lock_step.grant [of "new_world []" 1 "example_handle ''a''" ttl_client "[(''lock:job:1'', ''a'', 11)]"] by (simp add: defs)
  moreover have "lock_step ttl_client ?w1 ?w2"
    using lock_step.refuse [of ?w1 2 ttl_client "example_handle ''b''" "Inr False" "[(''lock:job:1'', ''a'', 11)]"] by (simp add: defs)
  moreover have "lock_step ttl_client ?w2 ?w3"
    using lock_step.grant [of ?w2 12 "example_handle ''b''" ttl_client "[(''lock:job:1'', ''b'', 22), (''lock:job:1'', ''a'', 11)]"]
    by (simp add: defs)
  moreover have "lock_step ttl_client ?w3 example_end"
    using lock_step.return [of ?w3 13 "example_handle ''a''" 1 ttl_client "Inr False"
        "[(''lock:job:1'', ''b'', 22), (''lock:job:1'', ''a'', 11)]"] by (simp add: defs example_end_def)
  ultimately show ?thesis by (meson rtranclp.rtrancl_into_rtrancl rtranclp.rtrancl_refl)
qed

theorem lock_exclusive_witness:
  "length (filter (\<lambda>a. lh_name (fst a) = ''job:1'' \<and> live example_end (lw_now example_end) a) (lw_granted example_end)) \<le> 1 \<and>
   length (lw_granted example_end) = 2"
proof -
  have "length (filter (\<lambda>a. lh_name (fst a) = ''job:1'' \<and> live example_end (lw_now example_end) a) (lw_granted example_end)) \<le> 1"
    by (rule lock_exclusive [OF ttl.expiring_store_axioms example_locks])
  moreover have "length (lw_granted example_end) = 2" by (simp add: example_end_def)
  ultimately show ?thesis by blast
qed

text \<open>
  C20: \<^verbatim>\<open>acquire\<close> returns: with a positive pause, and a clock that advances by at least the pause between
  two attempts, the loop ends with a handle of the name asked for or an exception, whatever the
  server answers and whatever other clients do in between.
\<close>

theorem acquire_returns:
  assumes "0 < retry_ms" and "\<And>n. le_monotonic env (Suc n) + of_int retry_ms / 1000 \<le> le_monotonic env (Suc (Suc n))"
  shows "\<exists>r s'. acquire client env name ttl_ms timeout_ms retry_ms owner s = Some (r, s') \<and>
    (case r of Inl e \<Rightarrow> True | Inr h \<Rightarrow> lh_name h = name \<and> lh_ttl_ms h = ttl_ms)"
proof -
  let ?deadline = "le_monotonic env 0 + of_int timeout_ms / 1000"
  have "0 < (of_int retry_ms / 1000 :: rat)" using assms(1) by simp
  from ex_less_of_nat_mult [OF this, of "?deadline - le_monotonic env (Suc 0)"] obtain k where
    "?deadline - le_monotonic env (Suc 0) < of_nat k * (of_int retry_ms / 1000)" by blast
  then have k: "?deadline \<le> le_monotonic env (Suc 0) + of_nat k * (of_int retry_ms / 1000)" by simp
  show ?thesis
    unfolding acquire_def Let_def
    using acquire_loop_returns [OF assms k, of client] by (fastforce split: sum.split)
qed

theorem acquire_returns_witness:
  "\<exists>r s'. acquire ttl_client \<lparr>le_monotonic = of_nat, le_server_ms = of_nat, le_others = (\<lambda>n s. s), le_uuid = ''b''\<rparr>
     ''job:1'' 10 5000 100 None [(''lock:job:1'', ''a'', 11)] = Some (r, s')"
proof -
  have "0 < (100 :: int)" by simp
  from acquire_returns [OF this, of "\<lparr>le_monotonic = of_nat, le_server_ms = of_nat, le_others = (\<lambda>n s. s), le_uuid = ''b''\<rparr>"
      ttl_client "''job:1''" 10 5000 None "[(''lock:job:1'', ''a'', 11)]"] show ?thesis by auto
qed

text \<open>
  C34: \<^verbatim>\<open>run_once\<close> gives the lock back however the function ends, in a result or an exception: the
  function runs once, its outcome is that of \<^verbatim>\<open>run_once\<close>, and the key is no longer held by
  this owner; or the release itself failed, and its exception is raised.
\<close>

theorem run_once_releases:
  assumes "expiring_store client" and "acquire client env name ttl timeout retry owner r = Some (Inr h, r')"
  shows "\<exists>q r''. run_once client env name ttl timeout retry owner meanwhile end_ms fn (r, s) = Some (q, r'', snd (fn s)) \<and>
    (q = fst (fn s) \<and> rc_get client end_ms (lock_key (lh_name h)) r'' \<noteq> Some (lh_owner h) \<or>
     (\<exists>e. lock_release client end_ms h (meanwhile r') = (Inl e, r'') \<and> q = Inl e))"
  by (rule expiring_store.run_once_gives_back [OF assms])

theorem run_once_releases_witness:
  "let env = \<lparr>le_monotonic = of_nat, le_server_ms = of_nat, le_others = (\<lambda>n s. s), le_uuid = ''b''\<rparr> in
   \<exists>q r''. run_once ttl_client env ''job:1'' 10 5000 100 None id 5 (\<lambda>s. (Inl (RuntimeError ''boom''), s)) ([], ()) = Some (q, r'', ()) \<and>
     q = Inl (RuntimeError ''boom'') \<and> ttl_get 5 ''lock:job:1'' r'' \<noteq> Some ''b''"
proof -
  let ?env = "\<lparr>le_monotonic = of_nat, le_server_ms = of_nat, le_others = (\<lambda>n s. s), le_uuid = ''b''\<rparr> :: ttl_store lock_env"
  have "acquire ttl_client ?env ''job:1'' 10 5000 100 None [] =
      Some (Inr \<lparr>lh_name = ''job:1'', lh_owner = ''b'', lh_ttl_ms = 10\<rparr>, [(''lock:job:1'', ''b'', 10)])"
    by (simp add: acquire_def acquire_loop.simps lock_attempt_def ttl_client_def ttl_get_def lock_key_def Let_def)
  from run_once_releases [OF ttl.expiring_store_axioms this, of id 5 "\<lambda>s. (Inl (RuntimeError ''boom''), s)" "()"]
  show ?thesis by (auto simp: Let_def lock_release_def RELEASE_SCRIPT_def ttl_client_def lock_key_def split: prod.splits)
qed

end
