(* ===== verification/Workflow_Doc.thy ===== *)
theory Workflow_Doc
  imports Py_Core
begin

section \<open>The workflow document\<close>

text \<open>
  The dictionaries that \<^verbatim>\<open>WorkflowEngine.plan\<close> builds (orchestration.py) and that the
  checkpoint table stores in its JSON column \<^verbatim>\<open>state\<close>. Every key of a dictionary is a field of
  its record; the entries of \<^verbatim>\<open>events\<close> have three shapes, told apart by their \<^verbatim>\<open>type\<close>.
\<close>

datatype wf_event =
    Workflow_planned (ev_checkpoint: string) (ev_timestamp: int)
  | Step_completed (ev_step_id: string) (ev_agent: string) (ev_timestamp: int)
      (ev_observation: string) (ev_key: string)
  | Workflow_completed (ev_checkpoint: string) (ev_timestamp: int)

record wf_step =
  step_id :: string
  step_agent :: string
  step_role :: string
  step_action :: string
  step_status :: string
  step_observations :: "wf_event list"
  step_retries :: int
  step_idempotency_key :: string

record wf_graph =
  graph_checkpoint :: string
  graph_nodes :: "string list"
  graph_edges :: "(string \<times> string) list"
  graph_recovery_enabled :: bool
  graph_state_store :: string

record wf_handoff =
  handoff_from :: string
  handoff_to :: string
  handoff_message :: string

record wf_crew =
  crew_name :: string
  crew_agents :: "string list"
  crew_flow :: string

record wf_contract =
  contract_task :: string
  contract_agents :: "string list"
  contract_approval_required :: bool

record workflow_doc =
  doc_task :: string
  doc_steps :: "wf_step list"
  doc_checkpoint :: string
  doc_status :: string
  doc_created_at :: int
  doc_updated_at :: int
  doc_events :: "wf_event list"
  doc_graph :: wf_graph
  doc_conversation :: "wf_handoff list"
  doc_crew :: wf_crew
  doc_zero_code_contract :: wf_contract
  doc_competitive_capabilities :: "string list"

end
