(* ===== verification/Database.thy ===== *)
theory Database
  imports Workflow_Doc
begin

section \<open>The relational store (database.py)\<close>

text \<open>
  The ORM classes of \<^verbatim>\<open>agi_platform/database.py\<close> as row records and the database as the record
  of its tables, each the list of its rows in insertion order. Insertions and updates check what
  the table declares (primary key, unique and check constraints, foreign keys) and raise
  \<open>IntegrityError\<close> with the table's name otherwise, as the flush of the session does;
  \<open>with_session\<close> is \<^verbatim>\<open>Database.session\<close>: it commits the changes of a body that returns and
  rolls back those of a body that raises. \<open>db_ok\<close> says that every declared constraint holds,
  and every primitive keeps it.

  SQL leaves the order of the rows of a SELECT without ORDER BY to the engine: operations that
  depend on it take the engine's choice as an argument \<open>scan\<close> (see theories
  \<^verbatim>\<open>Memory_Store\<close> and \<^verbatim>\<open>Orchestration\<close>).
\<close>

subsection \<open>Rows\<close>

record TenantRow =
  tn_id :: string
  tn_name :: string
  tn_status :: string
  tn_version :: int
  tn_created_at :: int
  tn_updated_at :: int

record MemoryRow =
  m_id :: string
  m_tenant_id :: string
  m_namespace :: string
  m_content :: string
  m_embedding_id :: "string option"
  m_provenance :: json
  m_source :: string
  m_confidence :: rat
  m_status :: string
  m_retention :: json
  m_metadata :: "(string, json) dict"
  m_version :: int
  m_created_at :: int
  m_updated_at :: int

record MemoryVersionRow =
  mv_id :: int
  mv_tenant_id :: string
  mv_memory_id :: string
  mv_version :: int
  mv_content :: string
  mv_provenance :: json
  mv_created_at :: int

record MemoryEvidenceRow =
  me_id :: string
  me_tenant_id :: string
  me_memory_id :: string
  me_source :: string
  me_evidence :: json
  me_created_at :: int

record AuditEventRow =
  ae_id :: string
  ae_tenant_id :: string
  ae_actor :: string
  ae_action :: string
  ae_target :: string
  ae_result :: string
  ae_metadata :: "(string, json) dict"
  ae_created_at :: int

record WorkflowRow =
  w_id :: string
  w_tenant_id :: string
  w_task :: string
  w_status :: string
  w_idempotency_key :: "string option"
  w_version :: int
  w_created_at :: int
  w_updated_at :: int

record WorkflowTaskRow =
  wt_id :: string
  wt_tenant_id :: string
  wt_workflow_id :: string
  wt_agent :: string
  wt_action :: string
  wt_status :: string
  wt_lease_owner :: "string option"
  wt_lease_expires_at :: "int option"
  wt_attempts :: int
  wt_max_attempts :: int
  wt_idempotency_key :: string
  wt_created_at :: int
  wt_updated_at :: int

record WorkflowEventRow =
  we_id :: string
  we_tenant_id :: string
  we_workflow_id :: string
  we_event_type :: string
  we_sequence :: int
  we_payload :: "(string, json) dict"
  we_created_at :: int

record WorkflowCheckpointRow =
  wc_id :: string
  wc_tenant_id :: string
  wc_workflow_id :: string
  wc_state :: workflow_doc
  wc_version :: int
  wc_created_at :: int

record db =
  tenants :: "TenantRow list"
  memories :: "MemoryRow list"
  memory_versions :: "MemoryVersionRow list"
  memory_evidence :: "MemoryEvidenceRow list"
  audit_events :: "AuditEventRow list"
  workflows :: "WorkflowRow list"
  workflow_tasks :: "WorkflowTaskRow list"
  workflow_events :: "WorkflowEventRow list"
  workflow_checkpoints :: "WorkflowCheckpointRow list"

definition empty_db :: db where
  "empty_db = \<lparr>tenants = [], memories = [], memory_versions = [], memory_evidence = [],
    audit_events = [], workflows = [], workflow_tasks = [], workflow_events = [],
    workflow_checkpoints = []\<rparr>"

subsection \<open>Constraints\<close>

definition workflow_statuses :: "string list" where
  "workflow_statuses = [''PENDING'', ''RUNNING'', ''WAITING'', ''SUCCEEDED'', ''FAILED'',
     ''CANCELLED'', ''TIMED_OUT'', ''RECOVERING'']"

definition tenant_check :: "TenantRow \<Rightarrow> bool" where
  "tenant_check r = (tn_status r \<in> set [''ACTIVE'', ''SUSPENDED'', ''DELETED''] \<and> 0 < tn_version r)"

definition memory_check :: "MemoryRow \<Rightarrow> bool" where
  "memory_check r = (m_status r \<in> set [''ACTIVE'', ''ARCHIVED'', ''DELETED''] \<and>
     0 \<le> m_confidence r \<and> m_confidence r \<le> 1 \<and> 0 < m_version r)"

definition audit_check :: "AuditEventRow \<Rightarrow> bool" where
  "audit_check r = (ae_result r \<in> set [''allowed'', ''denied'', ''succeeded'', ''failed''])"

definition workflow_check :: "WorkflowRow \<Rightarrow> bool" where
  "workflow_check r = (w_status r \<in> set workflow_statuses \<and> 0 < w_version r)"

definition task_check :: "WorkflowTaskRow \<Rightarrow> bool" where
  "task_check r = (wt_status r \<in> set workflow_statuses)"

definition tenant_ids :: "db \<Rightarrow> string set" where
  "tenant_ids d = tn_id ` set (tenants d)"

definition memory_ids :: "db \<Rightarrow> string set" where
  "memory_ids d = m_id ` set (memories d)"

definition workflow_ids :: "db \<Rightarrow> string set" where
  "workflow_ids d = w_id ` set (workflows d)"

definition mv_key :: "MemoryVersionRow \<Rightarrow> string \<times> string \<times> int" where
  "mv_key r = (mv_tenant_id r, mv_memory_id r, mv_version r)"

definition w_key :: "WorkflowRow \<Rightarrow> string \<times> string option" where
  "w_key r = (w_tenant_id r, w_idempotency_key r)"

definition wt_key :: "WorkflowTaskRow \<Rightarrow> string \<times> string" where
  "wt_key r = (wt_tenant_id r, wt_idempotency_key r)"

definition we_key :: "WorkflowEventRow \<Rightarrow> string \<times> string \<times> int" where
  "we_key r = (we_tenant_id r, we_workflow_id r, we_sequence r)"


subsection \<open>Primitives of the session\<close>

definition checked :: "bool \<Rightarrow> string \<Rightarrow> ('s \<Rightarrow> 's) \<Rightarrow> ('s, unit) sop" where
  "checked ok table f s = (if ok then (Inr (), f s) else (Inl (IntegrityError table), s))"

definition add_tenant :: "TenantRow \<Rightarrow> (db, unit) sop" where
  "add_tenant r d = checked
     (tn_id r \<notin> tenant_ids d \<and> tn_name r \<notin> tn_name ` set (tenants d) \<and> tenant_check r)
     ''tenants'' (\<lambda>d. d\<lparr>tenants := tenants d @ [r]\<rparr>) d"

definition add_memory :: "MemoryRow \<Rightarrow> (db, unit) sop" where
  "add_memory r d = checked
     (m_id r \<notin> memory_ids d \<and> m_tenant_id r \<in> tenant_ids d \<and> memory_check r)
     ''memories'' (\<lambda>d. d\<lparr>memories := memories d @ [r]\<rparr>) d"

definition update_memory :: "string \<Rightarrow> (MemoryRow \<Rightarrow> MemoryRow) \<Rightarrow> (db, unit) sop" where
  "update_memory k f d = checked
     (\<forall>r \<in> set (memories d). m_id r = k \<longrightarrow> memory_check (f r))
     ''memories'' (\<lambda>d. d\<lparr>memories := update_by m_id k f (memories d)\<rparr>) d"

definition next_mv_id :: "db \<Rightarrow> int" where
  "next_mv_id d = foldr (\<lambda>r n. max (mv_id r) n) (memory_versions d) 0 + 1"

text \<open>The autoincrement column is filled by the engine: the row comes without it.\<close>

definition version_row ::
    "db \<Rightarrow> string \<Rightarrow> string \<Rightarrow> int \<Rightarrow> string \<Rightarrow> json \<Rightarrow> int \<Rightarrow> MemoryVersionRow" where
  "version_row d tenant memory v content provenance now =
     \<lparr>mv_id = next_mv_id d, mv_tenant_id = tenant, mv_memory_id = memory, mv_version = v,
      mv_content = content, mv_provenance = provenance, mv_created_at = now\<rparr>"

definition add_memory_version ::
    "string \<Rightarrow> string \<Rightarrow> int \<Rightarrow> string \<Rightarrow> json \<Rightarrow> int \<Rightarrow> (db, unit) sop" where
  "add_memory_version tenant memory v content provenance now d =
     checked (tenant \<in> tenant_ids d \<and> memory \<in> memory_ids d \<and>
              (tenant, memory, v) \<notin> mv_key ` set (memory_versions d))
       ''memory_versions''
       (\<lambda>d. d\<lparr>memory_versions := memory_versions d @ [version_row d tenant memory v content provenance now]\<rparr>) d"

definition add_evidence :: "MemoryEvidenceRow \<Rightarrow> (db, unit) sop" where
  "add_evidence r d = checked
     (me_id r \<notin> me_id ` set (memory_evidence d) \<and> me_tenant_id r \<in> tenant_ids d \<and>
      me_memory_id r \<in> memory_ids d)
     ''memory_evidence'' (\<lambda>d. d\<lparr>memory_evidence := memory_evidence d @ [r]\<rparr>) d"

definition add_audit :: "AuditEventRow \<Rightarrow> (db, unit) sop" where
  "add_audit r d = checked
     (ae_id r \<notin> ae_id ` set (audit_events d) \<and> ae_tenant_id r \<in> tenant_ids d \<and> audit_check r)
     ''audit_events'' (\<lambda>d. d\<lparr>audit_events := audit_events d @ [r]\<rparr>) d"

definition w_keys :: "WorkflowRow list \<Rightarrow> (string \<times> string option) list" where
  "w_keys rs = map w_key (filter (\<lambda>r. w_idempotency_key r \<noteq> None) rs)"

definition add_workflow :: "WorkflowRow \<Rightarrow> (db, unit) sop" where
  "add_workflow r d = checked
     (w_id r \<notin> workflow_ids d \<and> w_tenant_id r \<in> tenant_ids d \<and>
      (w_idempotency_key r = None \<or> w_key r \<notin> set (w_keys (workflows d))) \<and> workflow_check r)
     ''workflows'' (\<lambda>d. d\<lparr>workflows := workflows d @ [r]\<rparr>) d"

definition update_workflow :: "string \<Rightarrow> (WorkflowRow \<Rightarrow> WorkflowRow) \<Rightarrow> (db, unit) sop" where
  "update_workflow k f d = checked
     (\<forall>r \<in> set (workflows d). w_id r = k \<longrightarrow> workflow_check (f r))
     ''workflows'' (\<lambda>d. d\<lparr>workflows := update_by w_id k f (workflows d)\<rparr>) d"

definition add_task :: "WorkflowTaskRow \<Rightarrow> (db, unit) sop" where
  "add_task r d = checked
     (wt_id r \<notin> wt_id ` set (workflow_tasks d) \<and> wt_tenant_id r \<in> tenant_ids d \<and>
      wt_workflow_id r \<in> workflow_ids d \<and> wt_key r \<notin> wt_key ` set (workflow_tasks d) \<and>
      task_check r)
     ''workflow_tasks'' (\<lambda>d. d\<lparr>workflow_tasks := workflow_tasks d @ [r]\<rparr>) d"

definition update_task :: "string \<Rightarrow> (WorkflowTaskRow \<Rightarrow> WorkflowTaskRow) \<Rightarrow> (db, unit) sop" where
  "update_task k f d = checked
     (\<forall>r \<in> set (workflow_tasks d). wt_id r = k \<longrightarrow> task_check (f r))
     ''workflow_tasks'' (\<lambda>d. d\<lparr>workflow_tasks := update_by wt_id k f (workflow_tasks d)\<rparr>) d"

definition delete_tasks :: "(WorkflowTaskRow \<Rightarrow> bool) \<Rightarrow> (db, unit) sop" where
  "delete_tasks p = op_modify (\<lambda>d. d\<lparr>workflow_tasks := filter (\<lambda>r. \<not> p r) (workflow_tasks d)\<rparr>)"

definition add_workflow_event :: "WorkflowEventRow \<Rightarrow> (db, unit) sop" where
  "add_workflow_event r d = checked
     (we_id r \<notin> we_id ` set (workflow_events d) \<and> we_tenant_id r \<in> tenant_ids d \<and>
      we_workflow_id r \<in> workflow_ids d \<and> we_key r \<notin> we_key ` set (workflow_events d))
     ''workflow_events'' (\<lambda>d. d\<lparr>workflow_events := workflow_events d @ [r]\<rparr>) d"

text \<open>
  \<^verbatim>\<open>session.merge(WorkflowCheckpointRow(...))\<close>: an UPDATE of the attributes the object sets
  (so not of \<^verbatim>\<open>created_at\<close>) when the primary key exists, an INSERT otherwise.
\<close>

definition merge_checkpoint :: "WorkflowCheckpointRow \<Rightarrow> (db, unit) sop" where
  "merge_checkpoint r d = checked
     (wc_tenant_id r \<in> tenant_ids d \<and> wc_workflow_id r \<in> workflow_ids d)
     ''workflow_checkpoints''
     (\<lambda>d. d\<lparr>workflow_checkpoints :=
        (if wc_id r \<in> wc_id ` set (workflow_checkpoints d)
         then update_by wc_id (wc_id r) (\<lambda>q. r\<lparr>wc_created_at := wc_created_at q\<rparr>) (workflow_checkpoints d)
         else workflow_checkpoints d @ [r])\<rparr>) d"

subsection \<open>Sessions and tenants\<close>

definition with_session :: "('s, 'a) sop \<Rightarrow> ('s, 'a) sop" where
  "with_session body s = (case body s of (Inl e, s') \<Rightarrow> (Inl e, s) | (Inr a, s') \<Rightarrow> (Inr a, s'))"

definition ensure_tenant :: "string \<Rightarrow> string option \<Rightarrow> int \<Rightarrow> (db, unit) sop" where
  "ensure_tenant tenant name now = with_session (\<lambda>d.
     (case find_by tn_id tenant (tenants d) of
        Some r \<Rightarrow> op_return () d
      | None \<Rightarrow> add_tenant \<lparr>tn_id = tenant,
          tn_name = (case name of None \<Rightarrow> tenant | Some n \<Rightarrow> if n = [] then tenant else n),
          tn_status = ''ACTIVE'', tn_version = 1, tn_created_at = now, tn_updated_at = now\<rparr> d))"

subsection \<open>Integrity\<close>

definition tenants_ok :: "db \<Rightarrow> bool" where
  "tenants_ok d \<longleftrightarrow> distinct (map tn_id (tenants d)) \<and> distinct (map tn_name (tenants d)) \<and>
     (\<forall>r \<in> set (tenants d). tenant_check r)"

definition memories_ok :: "db \<Rightarrow> bool" where
  "memories_ok d \<longleftrightarrow> distinct (map m_id (memories d)) \<and>
     (\<forall>r \<in> set (memories d). memory_check r \<and> m_tenant_id r \<in> tenant_ids d)"

definition versions_ok :: "db \<Rightarrow> bool" where
  "versions_ok d \<longleftrightarrow> distinct (map mv_id (memory_versions d)) \<and>
     distinct (map mv_key (memory_versions d)) \<and>
     (\<forall>r \<in> set (memory_versions d). mv_tenant_id r \<in> tenant_ids d \<and> mv_memory_id r \<in> memory_ids d)"

definition evidence_ok :: "db \<Rightarrow> bool" where
  "evidence_ok d \<longleftrightarrow> distinct (map me_id (memory_evidence d)) \<and>
     (\<forall>r \<in> set (memory_evidence d). me_tenant_id r \<in> tenant_ids d \<and> me_memory_id r \<in> memory_ids d)"

definition audit_ok :: "db \<Rightarrow> bool" where
  "audit_ok d \<longleftrightarrow> distinct (map ae_id (audit_events d)) \<and>
     (\<forall>r \<in> set (audit_events d). ae_tenant_id r \<in> tenant_ids d \<and> audit_check r)"

definition workflows_ok :: "db \<Rightarrow> bool" where
  "workflows_ok d \<longleftrightarrow> distinct (map w_id (workflows d)) \<and> distinct (w_keys (workflows d)) \<and>
     (\<forall>r \<in> set (workflows d). w_tenant_id r \<in> tenant_ids d \<and> workflow_check r)"

definition tasks_ok :: "db \<Rightarrow> bool" where
  "tasks_ok d \<longleftrightarrow> distinct (map wt_id (workflow_tasks d)) \<and> distinct (map wt_key (workflow_tasks d)) \<and>
     (\<forall>r \<in> set (workflow_tasks d). wt_tenant_id r \<in> tenant_ids d \<and>
        wt_workflow_id r \<in> workflow_ids d \<and> task_check r)"

definition events_ok :: "db \<Rightarrow> bool" where
  "events_ok d \<longleftrightarrow> distinct (map we_id (workflow_events d)) \<and> distinct (map we_key (workflow_events d)) \<and>
     (\<forall>r \<in> set (workflow_events d). we_tenant_id r \<in> tenant_ids d \<and> we_workflow_id r \<in> workflow_ids d)"

definition checkpoints_ok :: "db \<Rightarrow> bool" where
  "checkpoints_ok d \<longleftrightarrow> distinct (map wc_id (workflow_checkpoints d)) \<and>
     (\<forall>r \<in> set (workflow_checkpoints d). wc_tenant_id r \<in> tenant_ids d \<and>
        wc_workflow_id r \<in> workflow_ids d)"

definition db_ok :: "db \<Rightarrow> bool" where
  "db_ok d \<longleftrightarrow> tenants_ok d \<and> memories_ok d \<and> versions_ok d \<and> evidence_ok d \<and> audit_ok d \<and>
     workflows_ok d \<and> tasks_ok d \<and> events_ok d \<and> checkpoints_ok d"

lemmas table_ok_defs = tenants_ok_def memories_ok_def versions_ok_def evidence_ok_def audit_ok_def
  workflows_ok_def tasks_ok_def events_ok_def checkpoints_ok_def

lemmas id_defs = tenant_ids_def memory_ids_def workflow_ids_def

lemma empty_db_ok: "db_ok empty_db"
  by (simp add: db_ok_def table_ok_defs empty_db_def w_keys_def)

lemma checked_Inr [op_simps]: "checked ok t f s = (Inr u, s') \<longleftrightarrow> ok \<and> s' = f s"
  by (auto simp: checked_def)

lemma add_tenant_ok [keeps_intros]: "keeps db_ok (add_tenant r)"
  by (rule keepsI) (auto simp: add_tenant_def checked_Inr db_ok_def table_ok_defs id_defs)

lemma add_memory_ok [keeps_intros]: "keeps db_ok (add_memory r)"
  by (rule keepsI) (auto simp: add_memory_def checked_Inr db_ok_def table_ok_defs id_defs)

lemma version_row_sel [simp]:
  "mv_id (version_row d t m v c p now) = next_mv_id d"
  "mv_tenant_id (version_row d t m v c p now) = t"
  "mv_memory_id (version_row d t m v c p now) = m"
  "mv_version (version_row d t m v c p now) = v"
  "mv_content (version_row d t m v c p now) = c"
  "mv_provenance (version_row d t m v c p now) = p"
  by (simp_all add: version_row_def)

lemma mv_key_version_row [simp]: "mv_key (version_row d t m v c p now) = (t, m, v)"
  by (simp add: mv_key_def)

lemma next_mv_id_frame [simp]: "next_mv_id (d\<lparr>memories := ms\<rparr>) = next_mv_id d"
  by (simp add: next_mv_id_def)

lemma version_row_frame [simp]:
  "version_row (d\<lparr>memories := ms\<rparr>) t m v c p now = version_row d t m v c p now"
  by (simp add: version_row_def)

lemma next_mv_id_fresh: "next_mv_id d \<notin> mv_id ` set (memory_versions d)"
proof -
  have "\<forall>r \<in> set rs. mv_id r < foldr (\<lambda>r n. max (mv_id r) n) rs 0 + 1" for rs
    by (induction rs) auto
  then show ?thesis by (fastforce simp: next_mv_id_def)
qed

lemma add_memory_version_ok [keeps_intros]: "keeps db_ok (add_memory_version t m v c p now)"
  by (rule keepsI)
    (use next_mv_id_fresh in \<open>auto simp: add_memory_version_def checked_Inr db_ok_def table_ok_defs id_defs\<close>)

lemma add_evidence_ok [keeps_intros]: "keeps db_ok (add_evidence r)"
  by (rule keepsI) (auto simp: add_evidence_def checked_Inr db_ok_def table_ok_defs id_defs)

lemma add_audit_ok [keeps_intros]: "keeps db_ok (add_audit r)"
  by (rule keepsI) (auto simp: add_audit_def checked_Inr db_ok_def table_ok_defs id_defs)

lemma add_workflow_ok [keeps_intros]: "keeps db_ok (add_workflow r)"
  by (rule keepsI)
    (auto simp: add_workflow_def checked_Inr db_ok_def table_ok_defs id_defs w_keys_def)

lemma add_task_ok [keeps_intros]: "keeps db_ok (add_task r)"
  by (rule keepsI) (auto simp: add_task_def checked_Inr db_ok_def table_ok_defs id_defs)

lemma delete_tasks_ok [keeps_intros]: "keeps db_ok (delete_tasks p)"
  by (rule keepsI)
    (auto simp: delete_tasks_def db_ok_def table_ok_defs id_defs distinct_map_filter)

lemma add_workflow_event_ok [keeps_intros]: "keeps db_ok (add_workflow_event r)"
  by (rule keepsI) (auto simp: add_workflow_event_def checked_Inr db_ok_def table_ok_defs id_defs)


text \<open>
  Updates keep the keys of the row they change: then the integrity of every other table and the
  uniqueness of the table's own keys are untouched.
\<close>

lemma update_by_image:
  assumes "\<And>r. g (f r) = g r"
  shows "g ` set (update_by key k f rs) = g ` set rs"
proof -
  have "map g (update_by key k f rs) = map g rs" by (simp add: update_by_def assms)
  then show ?thesis by (metis list.set_map)
qed

lemma ball_update_by:
  "(\<forall>r \<in> set (update_by key k f rs). P r) \<longleftrightarrow> (\<forall>r \<in> set rs. P (if key r = k then f r else r))"
  by (auto simp: set_update_by)

lemma update_memory_ok [keeps_intros]:
  assumes "\<And>r. m_id (f r) = m_id r" and "\<And>r. m_tenant_id (f r) = m_tenant_id r"
  shows "keeps db_ok (update_memory k f)"
  by (rule keepsI)
    (auto simp: update_memory_def checked_Inr db_ok_def table_ok_defs id_defs assms
        map_key_update_by update_by_image ball_update_by)

lemma w_keys_update_by:
  assumes "\<And>r. w_tenant_id (f r) = w_tenant_id r" and "\<And>r. w_idempotency_key (f r) = w_idempotency_key r"
  shows "w_keys (update_by key k f rs) = w_keys rs"
  by (induction rs) (auto simp: w_keys_def update_by_def w_key_def assms)

lemma update_workflow_ok [keeps_intros]:
  assumes "\<And>r. w_id (f r) = w_id r" and "\<And>r. w_tenant_id (f r) = w_tenant_id r"
    and "\<And>r. w_idempotency_key (f r) = w_idempotency_key r"
  shows "keeps db_ok (update_workflow k f)"
  by (rule keepsI)
    (auto simp: update_workflow_def checked_Inr db_ok_def table_ok_defs id_defs assms
        w_keys_update_by map_key_update_by update_by_image ball_update_by)

lemma map_wt_key_update_by:
  assumes "\<And>r. wt_tenant_id (f r) = wt_tenant_id r" and "\<And>r. wt_idempotency_key (f r) = wt_idempotency_key r"
  shows "map wt_key (update_by key k f rs) = map wt_key rs"
  by (induction rs) (auto simp: update_by_def wt_key_def assms)

lemma update_task_ok [keeps_intros]:
  assumes "\<And>r. wt_id (f r) = wt_id r" and "\<And>r. wt_tenant_id (f r) = wt_tenant_id r"
    and "\<And>r. wt_workflow_id (f r) = wt_workflow_id r"
    and "\<And>r. wt_idempotency_key (f r) = wt_idempotency_key r"
  shows "keeps db_ok (update_task k f)"
  by (rule keepsI)
    (auto simp: update_task_def checked_Inr db_ok_def table_ok_defs id_defs assms
        map_wt_key_update_by map_key_update_by ball_update_by)

lemma merge_checkpoint_ok [keeps_intros]: "keeps db_ok (merge_checkpoint r)"
proof (rule keepsI)
  fix d u d'
  assume ok: "db_ok d" and m: "merge_checkpoint r d = (Inr u, d')"
  let ?f = "\<lambda>q. r\<lparr>wc_created_at := wc_created_at q\<rparr>"
  have "map wc_id (update_by wc_id (wc_id r) ?f rs) = map wc_id rs" for rs
    by (induction rs) (auto simp: update_by_def)
  with ok m show "db_ok d'"
    by (auto simp: merge_checkpoint_def checked_Inr db_ok_def table_ok_defs id_defs set_update_by)
qed

subsection \<open>Transactions\<close>

lemma with_session_Inl: "with_session body s = (Inl e, s') \<Longrightarrow> s' = s"
  by (auto simp: with_session_def split: prod.splits sum.splits)

lemma with_session_Inr [op_simps]: "with_session body s = (Inr a, s') \<longleftrightarrow> body s = (Inr a, s')"
  by (auto simp: with_session_def split: prod.splits sum.splits)

lemma with_session_fst [simp]: "fst (with_session body s) = fst (body s)"
  by (auto simp: with_session_def split: prod.splits sum.splits)

lemma with_session_keeps [keeps_intros]: "keeps P body \<Longrightarrow> keeps P (with_session body)"
  by (auto simp: keeps_def with_session_Inr)

lemma with_session_always: "keeps P body \<Longrightarrow> always P (with_session body)"
  by (rule alwaysI)
    (auto simp: with_session_def split: prod.splits sum.splits dest: keepsD)

lemma ensure_tenant_always: "always db_ok (ensure_tenant t n now)"
  unfolding ensure_tenant_def
  by (rule with_session_always, rule keepsI)
    (auto split: option.splits dest: keepsD [OF add_tenant_ok])

lemma ensure_tenant_present: "t \<in> tenant_ids d \<Longrightarrow> ensure_tenant t n now d = (Inr (), d)"
  by (cases "find_by tn_id t (tenants d)")
    (auto simp: ensure_tenant_def with_session_def tenant_ids_def find_by_None_iff)

lemma ensure_tenant_returns:
  "ensure_tenant t n now d = (Inr u, d') \<Longrightarrow> t \<in> tenant_ids d' \<and> tenant_ids d \<subseteq> tenant_ids d'"
  by (auto simp: ensure_tenant_def with_session_Inr add_tenant_def checked_Inr tenant_ids_def
      split: option.splits dest: find_by_SomeD)

lemma ensure_tenant_frame:
  "ensure_tenant t n now d = (r, d') \<Longrightarrow>
     memories d' = memories d \<and> memory_versions d' = memory_versions d \<and>
     memory_evidence d' = memory_evidence d \<and> audit_events d' = audit_events d \<and>
     workflows d' = workflows d \<and> workflow_tasks d' = workflow_tasks d \<and>
     workflow_events d' = workflow_events d \<and> workflow_checkpoints d' = workflow_checkpoints d"
  by (auto simp: ensure_tenant_def with_session_def add_tenant_def checked_def
      split: option.splits if_splits)

end
