(* ===== verification/Workflow_Store.thy ===== *)
theory Workflow_Store
  imports Database "HOL-Library.Multiset"
begin

section \<open>The durable workflow store (orchestration.py)\<close>

text \<open>
  \<^verbatim>\<open>WorkflowStateStore\<close> of \<^verbatim>\<open>agi_platform/orchestration.py\<close> over the tables of theory
  \<^verbatim>\<open>Database\<close>: the upsert of a workflow with its tasks, checkpoint and journal entry, and the
  task leases of the workers. A store belongs to one tenant (the argument \<open>tenant\<close>);
  \<open>wf_env\<close> is what the world supplies to one call: the id drawn for the journal entry and the
  clock. \<open>scan\<close> is the order in which the engine returns the rows of a SELECT.

  Shown: every operation keeps the integrity of the database and the journal invariant
  (\<open>journaled\<close>: per tenant and workflow the journal is numbered 1, 2, 3, ... without gaps, and
  the version of a workflow counts its journal entries); what a held lease excludes and which lease operations leave
  it alone; expired leases are recovered, all of them and only them. Two things the code does
  not promise are recorded as theorems on concrete runs: a task can be leased more often than
  its maximum of attempts, and a checkpoint id that two tenants share makes the second upsert
  fail.
\<close>

record wf_env =
  fresh_event :: string
  wf_now :: int

definition status_map :: "(string, string) dict" where
  "status_map = [(''planned'', ''PENDING''), (''queued'', ''PENDING''), (''running'', ''RUNNING''),
     (''completed'', ''SUCCEEDED''), (''recovered'', ''RECOVERING'')]"

definition wf_status :: "string \<Rightarrow> string" where
  "wf_status v = dict_get_default status_map v (upper v)"

subsection \<open>Upsert\<close>

definition workflow_row :: "wf_env \<Rightarrow> string \<Rightarrow> workflow_doc \<Rightarrow> WorkflowRow" where
  "workflow_row env tenant doc = \<lparr>w_id = doc_checkpoint doc, w_tenant_id = tenant, w_task = doc_task doc,
     w_status = wf_status (doc_status doc), w_idempotency_key = Some (doc_checkpoint doc),
     w_version = 1, w_created_at = wf_now env, w_updated_at = wf_now env\<rparr>"

definition bump_workflow :: "wf_env \<Rightarrow> workflow_doc \<Rightarrow> WorkflowRow \<Rightarrow> WorkflowRow" where
  "bump_workflow env doc row = row\<lparr>w_status := wf_status (doc_status doc), w_updated_at := wf_now env,
     w_version := w_version row + 1\<rparr>"

definition put_workflow :: "wf_env \<Rightarrow> string \<Rightarrow> workflow_doc \<Rightarrow> (db, int) sop" where
  "put_workflow env tenant doc =
     op_bind (op_get (\<lambda>d. find_by w_id (doc_checkpoint doc) (workflows d))) (\<lambda>found.
     case found of
       None \<Rightarrow> op_bind (add_workflow (workflow_row env tenant doc)) (\<lambda>_. op_return 1)
     | Some row \<Rightarrow> op_bind (update_workflow (doc_checkpoint doc) (bump_workflow env doc))
                     (\<lambda>_. op_return (w_version row + 1)))"

definition task_id :: "string \<Rightarrow> wf_step \<Rightarrow> string" where
  "task_id checkpoint step = colon_key checkpoint (step_id step)"

definition task_row :: "wf_env \<Rightarrow> string \<Rightarrow> string \<Rightarrow> wf_step \<Rightarrow> WorkflowTaskRow" where
  "task_row env tenant checkpoint step = \<lparr>wt_id = task_id checkpoint step, wt_tenant_id = tenant,
     wt_workflow_id = checkpoint, wt_agent = step_agent step, wt_action = step_action step,
     wt_status = wf_status (step_status step), wt_lease_owner = None, wt_lease_expires_at = None,
     wt_attempts = 0, wt_max_attempts = 3, wt_idempotency_key = task_id checkpoint step,
     wt_created_at = wf_now env, wt_updated_at = wf_now env\<rparr>"

definition journal_of :: "string \<Rightarrow> string \<Rightarrow> db \<Rightarrow> WorkflowEventRow list" where
  "journal_of tenant checkpoint d =
     filter (\<lambda>e. we_tenant_id e = tenant \<and> we_workflow_id e = checkpoint) (workflow_events d)"

text \<open>The largest sequence number of the journal, 0 for an empty one, plus one.\<close>

definition next_sequence :: "string \<Rightarrow> string \<Rightarrow> db \<Rightarrow> int" where
  "next_sequence tenant checkpoint d =
     (case sort_key (\<lambda>s. - s) (map we_sequence (journal_of tenant checkpoint d)) of
        [] \<Rightarrow> 0 | s # _ \<Rightarrow> s) + 1"

definition checkpoint_row :: "wf_env \<Rightarrow> string \<Rightarrow> workflow_doc \<Rightarrow> int \<Rightarrow> WorkflowCheckpointRow" where
  "checkpoint_row env tenant doc version = \<lparr>wc_id = doc_checkpoint doc, wc_tenant_id = tenant,
     wc_workflow_id = doc_checkpoint doc, wc_state = doc, wc_version = version,
     wc_created_at = wf_now env\<rparr>"

definition event_row :: "wf_env \<Rightarrow> string \<Rightarrow> workflow_doc \<Rightarrow> int \<Rightarrow> WorkflowEventRow" where
  "event_row env tenant doc sequence = \<lparr>we_id = fresh_event env, we_tenant_id = tenant,
     we_workflow_id = doc_checkpoint doc, we_event_type = ''workflow.persisted'',
     we_sequence = sequence, we_payload = [(''status'', JStr (doc_status doc))],
     we_created_at = wf_now env\<rparr>"

definition upsert_workflow :: "wf_env \<Rightarrow> string \<Rightarrow> workflow_doc \<Rightarrow> (db, unit) sop" where
  "upsert_workflow env tenant doc = (let checkpoint = doc_checkpoint doc in with_session (
     op_bind (put_workflow env tenant doc) (\<lambda>version.
     op_bind (delete_tasks (\<lambda>t. wt_workflow_id t = checkpoint \<and> wt_tenant_id t = tenant)) (\<lambda>_.
     op_bind (op_iter (\<lambda>step. add_task (task_row env tenant checkpoint step)) (doc_steps doc)) (\<lambda>_.
     op_bind (op_get (next_sequence tenant checkpoint)) (\<lambda>sequence.
     op_bind (merge_checkpoint (checkpoint_row env tenant doc version)) (\<lambda>_.
     add_workflow_event (event_row env tenant doc sequence))))))))"

subsection \<open>Reading\<close>

definition wf_get :: "string \<Rightarrow> string \<Rightarrow> (db, workflow_doc) sop" where
  "wf_get tenant checkpoint = with_session (
     op_bind (op_get (\<lambda>d. find_by wc_id checkpoint (workflow_checkpoints d))) (\<lambda>found.
     case found of
       None \<Rightarrow> op_raise (KeyError (''checkpoint '' @ checkpoint @ '' not found''))
     | Some row \<Rightarrow> if wc_tenant_id row \<noteq> tenant
                   then op_raise (KeyError (''checkpoint '' @ checkpoint @ '' not found''))
                   else op_return (wc_state row)))"

definition wf_list ::
    "(WorkflowCheckpointRow list \<Rightarrow> WorkflowCheckpointRow list) \<Rightarrow> string \<Rightarrow> (db, workflow_doc list) sop" where
  "wf_list scan tenant = with_session (op_get (\<lambda>d.
     map wc_state (scan (filter (\<lambda>r. wc_tenant_id r = tenant) (workflow_checkpoints d)))))"

subsection \<open>Leases\<close>

definition leasable :: "string \<Rightarrow> string \<Rightarrow> WorkflowTaskRow \<Rightarrow> bool" where
  "leasable tenant workflow r = (wt_tenant_id r = tenant \<and> wt_workflow_id r = workflow \<and>
     wt_status r \<in> set [''PENDING'', ''TIMED_OUT''])"

definition grant :: "string \<Rightarrow> int \<Rightarrow> int \<Rightarrow> WorkflowTaskRow \<Rightarrow> WorkflowTaskRow" where
  "grant worker secs now r = r\<lparr>wt_status := ''RUNNING'', wt_lease_owner := Some worker,
     wt_lease_expires_at := Some (now + secs), wt_attempts := wt_attempts r + 1, wt_updated_at := now\<rparr>"

definition lease_next_task ::
    "(WorkflowTaskRow list \<Rightarrow> WorkflowTaskRow list) \<Rightarrow> string \<Rightarrow> string \<Rightarrow> string \<Rightarrow> int \<Rightarrow> int \<Rightarrow>
     (db, string option) sop" where
  "lease_next_task scan tenant workflow worker secs now = with_session (
     op_bind (op_get (\<lambda>d. sort_key wt_created_at (scan (filter (leasable tenant workflow) (workflow_tasks d))))) (\<lambda>tasks.
     case tasks of
       [] \<Rightarrow> op_return None
     | task # _ \<Rightarrow> op_bind (update_task (wt_id task) (grant worker secs now)) (\<lambda>_.
                    op_return (Some (wt_id task)))))"

definition succeed :: "int \<Rightarrow> WorkflowTaskRow \<Rightarrow> WorkflowTaskRow" where
  "succeed now r = r\<lparr>wt_status := ''SUCCEEDED'', wt_updated_at := now\<rparr>"

definition mark_task_succeeded :: "string \<Rightarrow> string \<Rightarrow> string \<Rightarrow> int \<Rightarrow> (db, bool) sop" where
  "mark_task_succeeded tenant tid worker now = with_session (
     op_bind (op_get (\<lambda>d. find_by wt_id tid (workflow_tasks d))) (\<lambda>found.
     case found of
       None \<Rightarrow> op_return False
     | Some task \<Rightarrow>
         if wt_tenant_id task \<noteq> tenant \<or> wt_lease_owner task \<noteq> Some worker \<or> wt_status task = ''SUCCEEDED''
         then op_return False
         else op_bind (update_task tid (succeed now)) (\<lambda>_. op_return True)))"

definition expired :: "string \<Rightarrow> int \<Rightarrow> WorkflowTaskRow \<Rightarrow> bool" where
  "expired tenant now r = (wt_tenant_id r = tenant \<and> wt_status r = ''RUNNING'' \<and>
     (case wt_lease_expires_at r of None \<Rightarrow> False | Some e \<Rightarrow> e < now))"

definition release :: "WorkflowTaskRow \<Rightarrow> WorkflowTaskRow" where
  "release r = r\<lparr>wt_status := (if wt_max_attempts r \<le> wt_attempts r then ''TIMED_OUT'' else ''PENDING''),
     wt_lease_owner := None, wt_lease_expires_at := None\<rparr>"

definition recover_expired_leases ::
    "(WorkflowTaskRow list \<Rightarrow> WorkflowTaskRow list) \<Rightarrow> string \<Rightarrow> int \<Rightarrow> (db, nat) sop" where
  "recover_expired_leases scan tenant now = with_session (
     op_bind (op_get (\<lambda>d. scan (filter (expired tenant now) (workflow_tasks d)))) (\<lambda>tasks.
     op_bind (op_iter (\<lambda>t. update_task (wt_id t) release) tasks) (\<lambda>_.
     op_return (length tasks))))"

subsection \<open>Integrity\<close>

lemma task_changes [simp]:
  "wt_id (grant a s n r) = wt_id r" "wt_tenant_id (grant a s n r) = wt_tenant_id r"
  "wt_workflow_id (grant a s n r) = wt_workflow_id r"
  "wt_idempotency_key (grant a s n r) = wt_idempotency_key r"
  "wt_id (succeed n r) = wt_id r" "wt_tenant_id (succeed n r) = wt_tenant_id r"
  "wt_workflow_id (succeed n r) = wt_workflow_id r"
  "wt_idempotency_key (succeed n r) = wt_idempotency_key r"
  "wt_id (release r) = wt_id r" "wt_tenant_id (release r) = wt_tenant_id r"
  "wt_workflow_id (release r) = wt_workflow_id r"
  "wt_idempotency_key (release r) = wt_idempotency_key r"
  "task_check (grant a s n r)" "task_check (succeed n r)" "task_check (release r)"
  by (simp_all add: grant_def succeed_def release_def task_check_def workflow_statuses_def)

lemma workflow_changes [simp]:
  "w_id (bump_workflow env doc r) = w_id r" "w_tenant_id (bump_workflow env doc r) = w_tenant_id r"
  "w_idempotency_key (bump_workflow env doc r) = w_idempotency_key r"
  "w_version (bump_workflow env doc r) = w_version r + 1"
  by (simp_all add: bump_workflow_def)

lemma put_workflow_ok [keeps_intros]: "keeps db_ok (put_workflow env t doc)"
  unfolding put_workflow_def by (intro keeps_intros) simp_all

lemma upsert_db_ok: "always db_ok (upsert_workflow env t doc)"
  unfolding upsert_workflow_def Let_def by (intro with_session_always keeps_intros)

lemma lease_db_ok: "always db_ok (lease_next_task scan t w a s n)"
  unfolding lease_next_task_def
  by (intro with_session_always keeps_bind keeps_get)
    (auto intro!: keeps_intros split: list.split)

lemma mark_db_ok: "always db_ok (mark_task_succeeded t tid a n)"
  unfolding mark_task_succeeded_def by (intro with_session_always keeps_intros) simp_all

lemma recover_db_ok: "always db_ok (recover_expired_leases scan t n)"
  unfolding recover_expired_leases_def by (intro with_session_always keeps_intros) simp_all

subsection \<open>What leases do\<close>

text \<open>What a SELECT without a complete ORDER BY promises: the selected rows, in some order.\<close>

definition reorders :: "('r list \<Rightarrow> 'r list) \<Rightarrow> bool" where
  "reorders scan \<longleftrightarrow> (\<forall>rows. mset (scan rows) = mset rows)"

lemma set_reordered: "reorders scan \<Longrightarrow> set (scan rows) = set rows"
  by (metis reorders_def set_mset_mset)

lemma length_reordered: "reorders scan \<Longrightarrow> length (scan rows) = length rows"
  by (metis reorders_def size_mset)

definition with_tasks :: "(WorkflowTaskRow list \<Rightarrow> WorkflowTaskRow list) \<Rightarrow> db \<Rightarrow> db" where
  "with_tasks f d = d\<lparr>workflow_tasks := f (workflow_tasks d)\<rparr>"

lemma workflow_tasks_with_tasks [simp]: "workflow_tasks (with_tasks f d) = f (workflow_tasks d)"
  by (simp add: with_tasks_def)

lemma update_task_eq:
  "(\<And>r. task_check (f r)) \<Longrightarrow> update_task k f d = (Inr (), with_tasks (update_by wt_id k f) d)"
  by (simp add: update_task_def checked_def with_tasks_def)

lemma find_task_unique:
  "db_ok d \<Longrightarrow> r \<in> set (workflow_tasks d) \<Longrightarrow> find_by wt_id (wt_id r) (workflow_tasks d) = Some r"
  by (simp add: db_ok_def tasks_ok_def find_by_distinct)

lemma lease_cases:
  assumes scan: "reorders scan" and "db_ok d"
  obtains (none) "lease_next_task scan t w a s n d = (Inr None, d)"
      and "\<forall>r \<in> set (workflow_tasks d). \<not> leasable t w r"
  | (some) r where "find_by wt_id (wt_id r) (workflow_tasks d) = Some r" and "leasable t w r"
      and "\<forall>q \<in> set (workflow_tasks d). leasable t w q \<longrightarrow> wt_created_at r \<le> wt_created_at q"
      and "lease_next_task scan t w a s n d =
        (Inr (Some (wt_id r)), with_tasks (update_by wt_id (wt_id r) (grant a s n)) d)"
proof -
  let ?ts = "sort_key wt_created_at (scan (filter (leasable t w) (workflow_tasks d)))"
  have set: "set ?ts = {r \<in> set (workflow_tasks d). leasable t w r}"
    by (simp add: set_reordered [OF scan])
  show ?thesis
  proof (cases ?ts)
    case Nil
    with set have "\<forall>r \<in> set (workflow_tasks d). \<not> leasable t w r" by auto
    with Nil show ?thesis by (intro none) (simp_all add: lease_next_task_def with_session_def)
  next
    case (Cons r rs)
    then have r: "r \<in> set (workflow_tasks d)" "leasable t w r" using set by (auto dest: equalityD1)
    have "sorted (map wt_created_at (r # rs))" using Cons by (metis sorted_sort_key)
    then have "\<forall>q \<in> set (r # rs). wt_created_at r \<le> wt_created_at q" by auto
    with Cons set have "\<forall>q \<in> set (workflow_tasks d). leasable t w q \<longrightarrow> wt_created_at r \<le> wt_created_at q"
      by auto
    with Cons r assms(2) show ?thesis
      by (intro some [of r])
        (simp_all add: find_task_unique lease_next_task_def with_session_def op_bind_def update_task_eq)
  qed
qed

lemma mark_eq:
  "mark_task_succeeded t tid a n d =
    (case find_by wt_id tid (workflow_tasks d) of
       None \<Rightarrow> (Inr False, d)
     | Some r \<Rightarrow> if wt_tenant_id r = t \<and> wt_lease_owner r = Some a \<and> wt_status r \<noteq> ''SUCCEEDED''
                 then (Inr True, with_tasks (update_by wt_id tid (succeed n)) d) else (Inr False, d))"
  by (auto simp: mark_task_succeeded_def with_session_def op_bind_def update_task_eq split: option.split)

lemma release_release [simp]: "release (release r) = release r"
  by (simp add: release_def)

lemma iter_release:
  "op_iter (\<lambda>r. update_task (wt_id r) release) ts d =
     (Inr (), with_tasks (map (\<lambda>r. if wt_id r \<in> wt_id ` set ts then release r else r)) d)"
proof (induction ts arbitrary: d)
  case Nil
  show ?case by (simp add: with_tasks_def)
next
  case (Cons q ts)
  have "map (\<lambda>r. if wt_id r \<in> wt_id ` set ts then release r else r) (update_by wt_id (wt_id q) release rs) =
      map (\<lambda>r. if wt_id r \<in> wt_id ` set (q # ts) then release r else r) rs" for rs
    by (auto simp: update_by_def)
  then show ?case
    using Cons.IH [of "with_tasks (update_by wt_id (wt_id q) release) d"]
      update_task_eq [of release "wt_id q" d]
    by (simp add: with_tasks_def)
qed

lemma recover_eq:
  assumes scan: "reorders scan" and ok: "db_ok d"
  shows "recover_expired_leases scan t n d =
    (Inr (length (filter (expired t n) (workflow_tasks d))),
     with_tasks (map (\<lambda>r. if expired t n r then release r else r)) d)"
proof -
  let ?ts = "scan (filter (expired t n) (workflow_tasks d))"
  have set: "set ?ts = {r \<in> set (workflow_tasks d). expired t n r}" by (simp add: set_reordered [OF scan])
  have len: "length ?ts = length (filter (expired t n) (workflow_tasks d))" by (rule length_reordered [OF scan])
  have "wt_id r \<in> wt_id ` set ?ts \<longleftrightarrow> expired t n r" if "r \<in> set (workflow_tasks d)" for r
  proof
    assume "wt_id r \<in> wt_id ` set ?ts"
    then obtain q where "q \<in> set (workflow_tasks d)" "expired t n q" "wt_id q = wt_id r"
      unfolding set by auto
    with that ok find_task_unique show "expired t n r" by (metis option.inject)
  next
    assume "expired t n r"
    with that show "wt_id r \<in> wt_id ` set ?ts" unfolding set by blast
  qed
  then have "map (\<lambda>r. if wt_id r \<in> wt_id ` set ?ts then release r else r) (workflow_tasks d) =
      map (\<lambda>r. if expired t n r then release r else r) (workflow_tasks d)"
    by (intro map_cong) simp_all
  then show ?thesis
    by (simp add: recover_expired_leases_def with_session_def op_bind_def iter_release len with_tasks_def)
qed

text \<open>Runs of the workers: leases, marks and sweeps of expired leases, by any worker of any tenant.\<close>

datatype lease_op =
    Lease string string string int int
  | Mark string string string int
  | Sweep string int

fun lease_step :: "(WorkflowTaskRow list \<Rightarrow> WorkflowTaskRow list) \<Rightarrow> lease_op \<Rightarrow> db \<Rightarrow> db" where
  "lease_step scan (Lease t w a s n) d = snd (lease_next_task scan t w a s n d)"
| "lease_step scan (Mark t tid a n) d = snd (mark_task_succeeded t tid a n d)"
| "lease_step scan (Sweep t n) d = snd (recover_expired_leases scan t n d)"

text \<open>
  What leaves a lease of task \<open>tid\<close> by worker \<open>a\<close> until \<open>e\<close> alone: everything but the
  worker's own mark and a sweep after the expiry.
\<close>

fun keeps_lease :: "string \<Rightarrow> string \<Rightarrow> int \<Rightarrow> lease_op \<Rightarrow> bool" where
  "keeps_lease tid a e (Lease t w b s n) = True"
| "keeps_lease tid a e (Mark t tid' b n) = (tid' \<noteq> tid \<or> b \<noteq> a)"
| "keeps_lease tid a e (Sweep t n) = (n \<le> e)"

definition holds_lease :: "string \<Rightarrow> int \<Rightarrow> WorkflowTaskRow \<Rightarrow> bool" where
  "holds_lease a e r \<longleftrightarrow> wt_status r = ''RUNNING'' \<and> wt_lease_owner r = Some a \<and> wt_lease_expires_at r = Some e"

lemma lease_step_db_ok: "db_ok d \<Longrightarrow> db_ok (lease_step scan op d)"
  using lease_db_ok mark_db_ok recover_db_ok by (cases op) (simp_all add: always_def)

lemma find_by_map:
  "(\<And>r. key (f r) = key r) \<Longrightarrow> find_by key k (map f rs) = map_option f (find_by key k rs)"
  by (induction rs) auto

lemma lease_step_keeps_row:
  assumes scan: "reorders scan" and ok: "db_ok d" and r: "find_by wt_id tid (workflow_tasks d) = Some r"
    and held: "holds_lease a e r" and "keeps_lease tid a e op"
  shows "find_by wt_id tid (workflow_tasks (lease_step scan op d)) = Some r"
proof (cases op)
  case (Lease t' w b s n)
  from scan ok show ?thesis
  proof (cases rule: lease_cases [where t = t' and w = w and a = b and s = s and n = n])
    case none
    with Lease r show ?thesis by simp
  next
    case (some q)
    then have "wt_id q \<noteq> tid" using r held by (auto simp: leasable_def holds_lease_def)
    with Lease some r show ?thesis by (simp add: find_by_update_by)
  qed
next
  case (Mark t' tid' b n)
  with r held assms(5) show ?thesis
    by (auto simp: mark_eq find_by_update_by holds_lease_def split: option.split)
next
  case (Sweep t' n)
  with r held assms(5) show ?thesis
    by (simp add: recover_eq [OF scan ok] find_by_map expired_def holds_lease_def)
qed

lemma lease_granted:
  assumes "reorders scan" and ok: "db_ok d" and l: "lease_next_task scan t w a s n d = (Inr (Some tid), d')"
  obtains r where "find_by wt_id tid (workflow_tasks d') = Some r" "holds_lease a (n + s) r"
    "wt_tenant_id r = t" "wt_workflow_id r = w" "db_ok d'"
  using assms(1) ok
proof (cases rule: lease_cases [where t = t and w = w and a = a and s = s and n = n])
  case none
  with l show ?thesis by simp
next
  case (some r)
  with l have "tid = wt_id r" and "d' = with_tasks (update_by wt_id (wt_id r) (grant a s n)) d" by auto
  moreover have "db_ok d'" using alwaysD [OF lease_db_ok ok l] .
  ultimately show ?thesis using some
    by (intro that [of "grant a s n r"]) (simp_all add: find_by_update_by, simp_all add: grant_def leasable_def holds_lease_def)
qed

text \<open>What a held lease means for the next call.\<close>

lemma held_lease_excludes:
  assumes scan: "reorders scan" and ok: "db_ok d" and r: "find_by wt_id tid (workflow_tasks d) = Some r"
    and held: "holds_lease a e r" and t: "wt_tenant_id r = t"
  shows "fst (lease_next_task scan t' w' b s' n' d) \<noteq> Inr (Some tid)"
    and "b \<noteq> a \<Longrightarrow> mark_task_succeeded t' tid b n' d = (Inr False, d)"
    and "\<exists>d' q. mark_task_succeeded t tid a n' d = (Inr True, d') \<and>
       find_by wt_id tid (workflow_tasks d') = Some q \<and> wt_status q = ''SUCCEEDED''"
proof -
  show "fst (lease_next_task scan t' w' b s' n' d) \<noteq> Inr (Some tid)"
    by (cases rule: lease_cases [OF scan ok, where t = t' and w = w' and a = b and s = s' and n = n'])
      (use r held in \<open>auto simp: leasable_def holds_lease_def\<close>)
qed (use r held t in \<open>auto simp: mark_eq find_by_update_by succeed_def holds_lease_def\<close>)

definition lease_example_task :: "string \<Rightarrow> WorkflowTaskRow" where
  "lease_example_task i = \<lparr>wt_id = i, wt_tenant_id = ''legacy'', wt_workflow_id = ''checkpoint-1'',
     wt_agent = ''architect'', wt_action = ''x'', wt_status = ''PENDING'', wt_lease_owner = None,
     wt_lease_expires_at = None, wt_attempts = 0, wt_max_attempts = 3, wt_idempotency_key = i,
     wt_created_at = 0, wt_updated_at = 0\<rparr>"

definition lease_example_workflow :: WorkflowRow where
  "lease_example_workflow = \<lparr>w_id = ''checkpoint-1'', w_tenant_id = ''legacy'', w_task = ''x'',
     w_status = ''PENDING'', w_idempotency_key = Some ''checkpoint-1'', w_version = 1,
     w_created_at = 0, w_updated_at = 0\<rparr>"

definition example_tasks_db :: db where
  "example_tasks_db = empty_db\<lparr>
     tenants := [\<lparr>tn_id = ''legacy'', tn_name = ''legacy'', tn_status = ''ACTIVE'', tn_version = 1,
                  tn_created_at = 0, tn_updated_at = 0\<rparr>],
     workflows := [lease_example_workflow],
     workflow_tasks := [lease_example_task ''checkpoint-1:step-1'', lease_example_task ''checkpoint-1:step-2'']\<rparr>"

lemma example_tasks_db_ok: "db_ok example_tasks_db"
  unfolding db_ok_def table_ok_defs by (intro conjI) code_simp+

text \<open>
  C36: A sweep frees exactly the expired leases of its tenant: the RUNNING tasks of that tenant whose lease
  ends before now. It returns their number, each goes
  back to PENDING, or to TIMED_OUT once its attempts are used up, without owner and expiry, and no
  other task changes; afterwards no such task is left.
\<close>

theorem sweep_recovers_expired:
  assumes "reorders scan" and "db_ok d"
  shows "let due = (\<lambda>r. wt_tenant_id r = t \<and> wt_status r = ''RUNNING'' \<and> (\<exists>e < n. wt_lease_expires_at r = Some e)) in
    \<exists>d'. recover_expired_leases scan t n d = (Inr (length (filter due (workflow_tasks d))), d') \<and>
    workflow_tasks d' = map (\<lambda>r. if due r
      then r\<lparr>wt_status := (if wt_max_attempts r \<le> wt_attempts r then ''TIMED_OUT'' else ''PENDING''),
             wt_lease_owner := None, wt_lease_expires_at := None\<rparr>
      else r) (workflow_tasks d) \<and>
    (\<forall>r \<in> set (workflow_tasks d'). \<not> due r)"
proof -
  have due: "(\<lambda>r. wt_tenant_id r = t \<and> wt_status r = ''RUNNING'' \<and> (\<exists>e < n. wt_lease_expires_at r = Some e)) = expired t n"
    by (auto simp: expired_def fun_eq_iff split: option.split)
  have "\<not> expired t n (release r)" for r by (simp add: expired_def release_def)
  then show ?thesis unfolding due Let_def using recover_eq [OF assms] by (auto simp: release_def)
qed

theorem sweep_recovers_expired_witness:
  "let d1 = lease_step (\<lambda>rows. rows) (Lease ''legacy'' ''checkpoint-1'' ''a'' 30 100) example_tasks_db in
   \<exists>d'. recover_expired_leases (\<lambda>rows. rows) ''legacy'' 131 d1 = (Inr 1, d') \<and>
     map wt_status (workflow_tasks d') = [''PENDING'', ''PENDING'']"
proof -
  let ?d1 = "lease_step (\<lambda>rows. rows) (Lease ''legacy'' ''checkpoint-1'' ''a'' 30 100) example_tasks_db"
  have "db_ok ?d1" by (rule lease_step_db_ok [OF example_tasks_db_ok])
  moreover have "reorders (\<lambda>rows :: WorkflowTaskRow list. rows)" by (simp add: reorders_def)
  moreover have "map (\<lambda>r. (wt_tenant_id r, wt_status r, wt_lease_expires_at r, wt_max_attempts r, wt_attempts r)) (workflow_tasks ?d1) =
      [(''legacy'', ''RUNNING'', Some 130, 3, 1), (''legacy'', ''PENDING'', None, 3, 0)]" by code_simp
  ultimately show ?thesis
    using sweep_recovers_expired [of "\<lambda>rows. rows" ?d1 "''legacy''" 131] by (auto simp: Let_def)
qed

text \<open>
  The attempts of a task are not bounded by its maximum: a task whose three attempts have
  timed out is marked TIMED_OUT by the sweep, and the next lease hands it out a fourth time.
\<close>

lemma attempts_exceed_maximum:
  "let once = (\<lambda>n. [Lease ''legacy'' ''checkpoint-1'' ''a'' 0 n, Sweep ''legacy'' (n + 1)]);
       d0 = example_tasks_db\<lparr>workflow_tasks := [lease_example_task ''checkpoint-1:step-1'']\<rparr>;
       d3 = fold (lease_step (\<lambda>rows. rows)) (once 10 @ once 20 @ once 30) d0;
       res = lease_next_task (\<lambda>rows. rows) ''legacy'' ''checkpoint-1'' ''a'' 30 40 d3
   in map wt_status (workflow_tasks d3) = [''TIMED_OUT''] \<and> fst res = Inr (Some ''checkpoint-1:step-1'') \<and>
      map wt_attempts (workflow_tasks (snd res)) = [4] \<and> map wt_max_attempts (workflow_tasks (snd res)) = [3]"
  by code_simp

subsection \<open>What an upsert does\<close>

definition upserted :: "wf_env \<Rightarrow> string \<Rightarrow> workflow_doc \<Rightarrow> db \<Rightarrow> db" where
  "upserted env t doc d = (let k = doc_checkpoint doc;
       v = (case find_by w_id k (workflows d) of None \<Rightarrow> 1 | Some row \<Rightarrow> w_version row + 1);
       c = checkpoint_row env t doc v in
     d\<lparr>workflows := (case find_by w_id k (workflows d) of
           None \<Rightarrow> workflows d @ [workflow_row env t doc]
         | Some row \<Rightarrow> update_by w_id k (bump_workflow env doc) (workflows d)),
       workflow_tasks := filter (\<lambda>r. \<not> (wt_workflow_id r = k \<and> wt_tenant_id r = t)) (workflow_tasks d) @
         map (task_row env t k) (doc_steps doc),
       workflow_checkpoints := (if k \<in> wc_id ` set (workflow_checkpoints d)
         then update_by wc_id k (\<lambda>q. c\<lparr>wc_created_at := wc_created_at q\<rparr>) (workflow_checkpoints d)
         else workflow_checkpoints d @ [c]),
       workflow_events := workflow_events d @ [event_row env t doc (next_sequence t k d)]\<rparr>)"

lemma put_workflow_Inr:
  "put_workflow env t doc d = (Inr v, d') \<Longrightarrow>
    v = (case find_by w_id (doc_checkpoint doc) (workflows d) of None \<Rightarrow> 1 | Some row \<Rightarrow> w_version row + 1) \<and>
    d' = d\<lparr>workflows := (case find_by w_id (doc_checkpoint doc) (workflows d) of
        None \<Rightarrow> workflows d @ [workflow_row env t doc]
      | Some row \<Rightarrow> update_by w_id (doc_checkpoint doc) (bump_workflow env doc) (workflows d))\<rparr>"
  by (auto simp: put_workflow_def add_workflow_def update_workflow_def checked_Inr
      split: option.splits elim!: op_bind_InrE)

lemma iter_add_task_Inr:
  "op_iter (\<lambda>x. add_task (f x)) xs d = (Inr u, d') \<Longrightarrow>
   d' = d\<lparr>workflow_tasks := workflow_tasks d @ map f xs\<rparr>"
proof (induction xs arbitrary: d)
  case (Cons x xs)
  from Cons.prems obtain d1 where "add_task (f x) d = (Inr (), d1)"
      "op_iter (\<lambda>x. add_task (f x)) xs d1 = (Inr u, d')"
    by (auto split: prod.splits sum.splits)
  moreover from this(1) have "d1 = d\<lparr>workflow_tasks := workflow_tasks d @ [f x]\<rparr>"
    by (simp add: add_task_def checked_Inr)
  ultimately show ?case using Cons.IH [of d1] by simp
qed simp

lemma next_sequence_frame: "workflow_events d' = workflow_events d \<Longrightarrow> next_sequence t k d' = next_sequence t k d"
  by (simp add: next_sequence_def journal_of_def)

lemma upsert_Inr:
  assumes "upsert_workflow env t doc d = (Inr u, d')"
  shows "d' = upserted env t doc d"
proof -
  let ?k = "doc_checkpoint doc"
  let ?del = "\<lambda>d. d\<lparr>workflow_tasks := filter (\<lambda>r. \<not> (wt_workflow_id r = ?k \<and> wt_tenant_id r = t)) (workflow_tasks d)\<rparr>"
  from assms obtain v d1 d2 d3 where 1: "put_workflow env t doc d = (Inr v, d1)"
    and 2: "op_iter (\<lambda>step. add_task (task_row env t ?k step)) (doc_steps doc) (?del d1) = (Inr (), d2)"
    and 3: "merge_checkpoint (checkpoint_row env t doc v) d2 = (Inr (), d3)"
    and 4: "add_workflow_event (event_row env t doc (next_sequence t ?k d2)) d3 = (Inr u, d')"
    unfolding upsert_workflow_def Let_def with_session_Inr
    by (elim op_bind_InrE) (auto simp: delete_tasks_def)
  note d1 = put_workflow_Inr [OF 1] and d2 = iter_add_task_Inr [OF 2]
  have "next_sequence t ?k d2 = next_sequence t ?k d" by (rule next_sequence_frame) (simp add: d1 d2)
  with 3 4 show ?thesis
    by (simp add: merge_checkpoint_def add_workflow_event_def checked_Inr upserted_def Let_def d1 d2
        checkpoint_row_def)
qed

subsection \<open>The invariant of a store\<close>

text \<open>
  The database of one workflow store: all its workflows belong to the store's tenant and are
  numbered in the order they were planned, each has its checkpoint, the journal of each is
  numbered without gaps, and the version of a workflow and of its checkpoint is the length of its
  journal.
\<close>

definition checkpoint_name :: "nat \<Rightarrow> string" where
  "checkpoint_name n = ''checkpoint-'' @ str_of_nat n"

definition numbered :: "db \<Rightarrow> bool" where
  "numbered d \<longleftrightarrow> map w_id (workflows d) = map checkpoint_name [1..<Suc (length (workflows d))] \<and>
     map wc_id (workflow_checkpoints d) = map w_id (workflows d)"

definition rows_inv :: "string \<Rightarrow> db \<Rightarrow> bool" where
  "rows_inv t d \<longleftrightarrow> (\<forall>w \<in> set (workflows d). w_tenant_id w = t \<and> w_idempotency_key w = Some (w_id w) \<and>
     w_version w = int (length (journal_of t (w_id w) d)))"

definition tasks_inv :: "string \<Rightarrow> db \<Rightarrow> bool" where
  "tasks_inv t d \<longleftrightarrow> (\<forall>r \<in> set (workflow_tasks d). wt_tenant_id r = t \<and> wt_idempotency_key r = wt_id r \<and>
     (\<exists>s. wt_id r = colon_key (wt_workflow_id r) s))"

definition checkpoints_inv :: "string \<Rightarrow> db \<Rightarrow> bool" where
  "checkpoints_inv t d \<longleftrightarrow> (\<forall>c \<in> set (workflow_checkpoints d). wc_tenant_id c = t \<and>
     wc_workflow_id c = wc_id c \<and> doc_checkpoint (wc_state c) = wc_id c \<and>
     wc_version c = int (length (journal_of t (wc_id c) d)))"

definition journaled :: "string \<Rightarrow> db \<Rightarrow> bool" where
  "journaled t d \<longleftrightarrow> (\<forall>k. map we_sequence (journal_of t k d) = [1..int (length (journal_of t k d))])"

definition wf_inv :: "string \<Rightarrow> db \<Rightarrow> bool" where
  "wf_inv t d \<longleftrightarrow> db_ok d \<and> t \<in> tenant_ids d \<and> numbered d \<and> rows_inv t d \<and> tasks_inv t d \<and>
     checkpoints_inv t d \<and> journaled t d"

lemmas wf_inv_defs = wf_inv_def rows_inv_def tasks_inv_def checkpoints_inv_def journaled_def

lemma checkpoint_name_inject [simp]: "checkpoint_name m = checkpoint_name n \<longleftrightarrow> m = n"
  by (simp add: checkpoint_name_def)

lemma colon_notin_checkpoint_name [simp]: "CHR '':'' \<notin> set (checkpoint_name n)"
  by (simp add: checkpoint_name_def)

lemma numbered_ids:
  assumes "numbered d"
  shows "workflow_ids d = checkpoint_name ` {1..length (workflows d)}"
proof -
  have "workflow_ids d = set (map w_id (workflows d))" by (simp add: workflow_ids_def)
  also have "map w_id (workflows d) = map checkpoint_name [1..<Suc (length (workflows d))]"
    using assms unfolding numbered_def by (rule conjunct1)
  also have "set \<dots> = checkpoint_name ` {1..length (workflows d)}"
    by (simp only: set_map set_upt atLeastLessThanSuc_atLeastAtMost)
  finally show ?thesis .
qed

lemma numbered_checkpoint_ids: "numbered d \<Longrightarrow> wc_id ` set (workflow_checkpoints d) = workflow_ids d"
  unfolding numbered_def workflow_ids_def by (metis list.set_map)

lemma numbered_length: "numbered d \<Longrightarrow> length (workflow_checkpoints d) = length (workflows d)"
  unfolding numbered_def by (metis length_map)

lemma fresh_checkpoint: "numbered d \<Longrightarrow> checkpoint_name (Suc (length (workflows d))) \<notin> workflow_ids d"
  by (auto simp: numbered_ids)

lemma colon_notin_workflow_id: "numbered d \<Longrightarrow> k \<in> workflow_ids d \<Longrightarrow> CHR '':'' \<notin> set k"
  by (auto simp: numbered_ids)

lemma next_sequence_journal:
  assumes "journaled t d"
  shows "next_sequence t k d = int (length (journal_of t k d)) + 1"
proof -
  let ?n = "int (length (journal_of t k d))"
  let ?s = "sort_key (\<lambda>s. - s) (map we_sequence (journal_of t k d))"
  have set: "set ?s = {1..?n}" using assms unfolding journaled_def by simp
  show ?thesis
  proof (cases ?s)
    case Nil
    then have "journal_of t k d = []" by (metis length_sort length_map length_0_conv)
    then show ?thesis by (simp add: next_sequence_def)
  next
    case (Cons x xs)
    have "sorted (map (\<lambda>s. - s) (x # xs))" using Cons by (metis sorted_sort_key)
    then have "\<forall>y \<in> set ?s. y \<le> x" using Cons by auto
    moreover have "x \<in> set ?s" using Cons by simp
    ultimately have "x = ?n" unfolding set by (meson antisym_conv atLeastAtMost_iff order.trans order_refl)
    with Cons show ?thesis by (simp add: next_sequence_def)
  qed
qed

lemma upserted_sels [simp]:
  "tenants (upserted env t doc d) = tenants d" "memories (upserted env t doc d) = memories d"
  "memory_versions (upserted env t doc d) = memory_versions d"
  "memory_evidence (upserted env t doc d) = memory_evidence d"
  "audit_events (upserted env t doc d) = audit_events d"
  "workflow_events (upserted env t doc d) =
     workflow_events d @ [event_row env t doc (next_sequence t (doc_checkpoint doc) d)]"
  by (simp_all add: upserted_def Let_def)

lemma upserted_tables:
  "workflows (upserted env t doc d) = (case find_by w_id (doc_checkpoint doc) (workflows d) of
       None \<Rightarrow> workflows d @ [workflow_row env t doc]
     | Some row \<Rightarrow> update_by w_id (doc_checkpoint doc) (bump_workflow env doc) (workflows d))"
  "workflow_checkpoints (upserted env t doc d) =
     (let c = checkpoint_row env t doc (case find_by w_id (doc_checkpoint doc) (workflows d) of
                None \<Rightarrow> 1 | Some row \<Rightarrow> w_version row + 1) in
      if doc_checkpoint doc \<in> wc_id ` set (workflow_checkpoints d)
      then update_by wc_id (doc_checkpoint doc) (\<lambda>q. c\<lparr>wc_created_at := wc_created_at q\<rparr>) (workflow_checkpoints d)
      else workflow_checkpoints d @ [c])"
  by (simp_all add: upserted_def Let_def)

lemma journal_upserted:
  "journal_of t k (upserted env t doc d) = journal_of t k d @
     (if k = doc_checkpoint doc then [event_row env t doc (next_sequence t k d)] else [])"
  by (auto simp: journal_of_def event_row_def)

lemma journaled_upserted: "journaled t d \<Longrightarrow> journaled t (upserted env t doc d)"
  by (auto simp: journaled_def journal_upserted event_row_def next_sequence_journal upto_rec2)

text \<open>The ids that the engine upserts: an existing one, or the next number.\<close>

definition next_or_known :: "string \<Rightarrow> db \<Rightarrow> bool" where
  "next_or_known k d \<longleftrightarrow> k \<in> workflow_ids d \<or> k = checkpoint_name (Suc (length (workflows d)))"

lemma numbered_upserted:
  assumes "numbered d" and "next_or_known (doc_checkpoint doc) d"
  shows "numbered (upserted env t doc d)"
proof (cases "doc_checkpoint doc \<in> workflow_ids d")
  case True
  then obtain row where row: "find_by w_id (doc_checkpoint doc) (workflows d) = Some row"
    by (metis find_by_None_iff not_None_eq workflow_ids_def)
  have "map wc_id (update_by wc_id (doc_checkpoint doc)
      (\<lambda>q. checkpoint_row env t doc v\<lparr>wc_created_at := wc_created_at q\<rparr>) cs) = map wc_id cs" for v cs
    by (auto simp: update_by_def checkpoint_row_def)
  with assms(1) True row numbered_checkpoint_ids [OF assms(1)] show ?thesis
    by (simp add: numbered_def upserted_def Let_def map_key_update_by)
next
  case False
  then have "find_by w_id (doc_checkpoint doc) (workflows d) = None"
    by (simp add: find_by_None_iff workflow_ids_def)
  with assms False numbered_checkpoint_ids [OF assms(1)] show ?thesis
    by (simp add: numbered_def upserted_def Let_def next_or_known_def workflow_row_def checkpoint_row_def)
qed

lemma checkpoint_row_sels [simp]:
  "wc_id (checkpoint_row env t doc v) = doc_checkpoint doc" "wc_tenant_id (checkpoint_row env t doc v) = t"
  "wc_workflow_id (checkpoint_row env t doc v) = doc_checkpoint doc"
  "wc_state (checkpoint_row env t doc v) = doc" "wc_version (checkpoint_row env t doc v) = v"
  by (simp_all add: checkpoint_row_def)

lemma workflow_row_sels [simp]:
  "w_id (workflow_row env t doc) = doc_checkpoint doc" "w_tenant_id (workflow_row env t doc) = t"
  "w_idempotency_key (workflow_row env t doc) = Some (doc_checkpoint doc)"
  "w_version (workflow_row env t doc) = 1"
  by (simp_all add: workflow_row_def)

lemma task_row_sels [simp]:
  "wt_id (task_row env t k s) = task_id k s" "wt_tenant_id (task_row env t k s) = t"
  "wt_workflow_id (task_row env t k s) = k" "wt_idempotency_key (task_row env t k s) = task_id k s"
  by (simp_all add: task_row_def)

lemma journal_unknown: "db_ok d \<Longrightarrow> k \<notin> workflow_ids d \<Longrightarrow> journal_of t k d = []"
  by (auto simp: journal_of_def db_ok_def events_ok_def filter_empty_conv)

text \<open>The version the upsert gives the workflow is the new length of its journal.\<close>

lemma upsert_version:
  assumes "db_ok d" and "rows_inv t d"
  shows "(case find_by w_id k (workflows d) of None \<Rightarrow> 1 | Some row \<Rightarrow> w_version row + 1) =
    int (length (journal_of t k d)) + 1"
proof (cases "find_by w_id k (workflows d)")
  case None
  then have "journal_of t k d = []" by (intro journal_unknown assms) (simp add: find_by_None_iff workflow_ids_def)
  with None show ?thesis by simp
next
  case (Some row)
  from find_by_SomeD [OF this] assms(2) have "w_version row = int (length (journal_of t k d))"
    by (auto simp: rows_inv_def)
  with Some show ?thesis by simp
qed

lemma rows_inv_upserted:
  assumes "db_ok d" and "rows_inv t d"
  shows "rows_inv t (upserted env t doc d)"
proof (cases "find_by w_id (doc_checkpoint doc) (workflows d)")
  case None
  then have new: "\<forall>w \<in> set (workflows d). w_id w \<noteq> doc_checkpoint doc"
    by (auto simp: find_by_None_iff image_iff)
  have "journal_of t (doc_checkpoint doc) d = []"
    using None by (intro journal_unknown assms) (simp add: find_by_None_iff workflow_ids_def)
  with None new assms(2) show ?thesis by (auto simp: rows_inv_def journal_upserted upserted_tables)
next
  case (Some row)
  with assms(2) show ?thesis by (auto simp: rows_inv_def journal_upserted upserted_tables set_update_by)
qed

lemma tasks_inv_upserted: "tasks_inv t d \<Longrightarrow> tasks_inv t (upserted env t doc d)"
  by (auto simp: tasks_inv_def upserted_def Let_def task_id_def)

lemma checkpoints_inv_upserted:
  assumes "db_ok d" and "rows_inv t d" and "checkpoints_inv t d"
  shows "checkpoints_inv t (upserted env t doc d)"
  using assms(3) upsert_version [OF assms(1,2), of "doc_checkpoint doc"]
  by (auto simp: checkpoints_inv_def journal_upserted upserted_tables Let_def set_update_by image_iff)

lemma upsert_inv:
  assumes inv: "wf_inv t d" and "next_or_known (doc_checkpoint doc) d"
    and u: "upsert_workflow env t doc d = (r, d')"
  shows "wf_inv t d'"
proof (cases r)
  case (Inl e)
  with u have "d' = d" unfolding upsert_workflow_def Let_def by (auto dest: with_session_Inl)
  with inv show ?thesis by simp
next
  case (Inr v)
  with u have d': "d' = upserted env t doc d" by (auto dest: upsert_Inr)
  have "db_ok d'" using alwaysD [OF upsert_db_ok _ u] inv by (simp add: wf_inv_def)
  moreover have "t \<in> tenant_ids d'" using inv d' by (simp add: wf_inv_def tenant_ids_def)
  ultimately show ?thesis
    using inv d' assms(2)
    by (simp add: wf_inv_def numbered_upserted rows_inv_upserted tasks_inv_upserted
        checkpoints_inv_upserted journaled_upserted)
qed

text \<open>The store never refuses a well-formed document of its own tenant.\<close>

definition doc_stored_ok :: "workflow_doc \<Rightarrow> bool" where
  "doc_stored_ok doc \<longleftrightarrow> wf_status (doc_status doc) \<in> set workflow_statuses \<and>
     (\<forall>s \<in> set (doc_steps doc). wf_status (step_status s) \<in> set workflow_statuses) \<and>
     distinct (map step_id (doc_steps doc))"

lemma iter_add_task_succeeds:
  assumes "distinct (map (\<lambda>x. wt_id (f x)) xs)"
    and "\<forall>x \<in> set xs. wt_id (f x) \<notin> wt_id ` set (workflow_tasks d) \<and>
           wt_key (f x) \<notin> wt_key ` set (workflow_tasks d) \<and>
           wt_tenant_id (f x) \<in> tenant_ids d \<and> wt_workflow_id (f x) \<in> workflow_ids d \<and> task_check (f x)"
    and "\<And>x y. wt_key (f x) = wt_key (f y) \<Longrightarrow> wt_id (f x) = wt_id (f y)"
  shows "op_iter (\<lambda>x. add_task (f x)) xs d = (Inr (), d\<lparr>workflow_tasks := workflow_tasks d @ map f xs\<rparr>)"
  using assms(1,2)
proof (induction xs arbitrary: d)
  case (Cons x xs)
  let ?d = "d\<lparr>workflow_tasks := workflow_tasks d @ [f x]\<rparr>"
  have "add_task (f x) d = (Inr (), ?d)" using Cons.prems by (simp add: add_task_def checked_def)
  moreover have "wt_id (f y) \<noteq> wt_id (f x) \<and> wt_key (f y) \<noteq> wt_key (f x)" if "y \<in> set xs" for y
    using that Cons.prems(1) assms(3) by (metis (no_types, lifting) distinct.simps(2) image_eqI list.set_map list.simps(9))
  then have "op_iter (\<lambda>x. add_task (f x)) xs ?d =
      (Inr (), ?d\<lparr>workflow_tasks := workflow_tasks ?d @ map f xs\<rparr>)"
    using Cons.prems by (intro Cons.IH) (simp_all add: tenant_ids_def workflow_ids_def)
  ultimately show ?case by simp
qed simp

lemma put_workflow_succeeds:
  assumes inv: "wf_inv t d" and "doc_stored_ok doc"
  obtains v d1 where "put_workflow env t doc d = (Inr v, d1)"
proof (cases "find_by w_id (doc_checkpoint doc) (workflows d)")
  case None
  then have "doc_checkpoint doc \<notin> workflow_ids d" by (simp add: find_by_None_iff workflow_ids_def)
  moreover from this inv have "w_key (workflow_row env t doc) \<notin> set (w_keys (workflows d))"
    by (auto simp: w_key_def w_keys_def wf_inv_def rows_inv_def workflow_ids_def image_iff)
  ultimately have "add_workflow (workflow_row env t doc) d =
      (Inr (), d\<lparr>workflows := workflows d @ [workflow_row env t doc]\<rparr>)"
    using inv assms(2) by (simp add: add_workflow_def checked_def wf_inv_def workflow_check_def
        doc_stored_ok_def workflow_row_def)
  with None show ?thesis by (intro that) (simp add: put_workflow_def op_bind_def)
next
  case (Some row)
  have "\<forall>r \<in> set (workflows d). workflow_check (bump_workflow env doc r)"
    using inv assms(2)
    by (auto simp: wf_inv_def db_ok_def workflows_ok_def workflow_check_def bump_workflow_def doc_stored_ok_def)
  with Some show ?thesis
    by (intro that) (simp add: put_workflow_def op_bind_def update_workflow_def checked_def)
qed

lemma upsert_succeeds:
  assumes inv: "wf_inv t d" and known: "next_or_known (doc_checkpoint doc) d" and doc: "doc_stored_ok doc"
    and fresh: "fresh_event env \<notin> we_id ` set (workflow_events d)"
  shows "upsert_workflow env t doc d = (Inr (), upserted env t doc d)"
proof -
  let ?k = "doc_checkpoint doc" and ?f = "task_row env t (doc_checkpoint doc)"
  let ?del = "\<lambda>d. d\<lparr>workflow_tasks := filter (\<lambda>r. \<not> (wt_workflow_id r = ?k \<and> wt_tenant_id r = t)) (workflow_tasks d)\<rparr>"
  obtain v d1 where put: "put_workflow env t doc d = (Inr v, d1)"
    by (rule put_workflow_succeeds [OF inv doc])
  note d1 = conjunct2 [OF put_workflow_Inr [OF put]]
  have k: "?k \<in> workflow_ids d1"
    by (cases "find_by w_id ?k (workflows d)")
      (auto simp: d1 workflow_ids_def update_by_image intro: rev_image_eqI dest!: find_by_SomeD)
  have t: "t \<in> tenant_ids d1" using inv by (simp add: d1 wf_inv_def tenant_ids_def)
  have colon: "CHR '':'' \<notin> set w" if "w = ?k \<or> w \<in> workflow_ids d" for w
    using that known inv by (auto simp: next_or_known_def wf_inv_def dest: colon_notin_workflow_id)
  have new: "wt_id r \<noteq> task_id ?k s" if r: "r \<in> set (workflow_tasks (?del d1))" for r s
  proof -
    from r have r': "r \<in> set (workflow_tasks d)" "wt_workflow_id r \<noteq> ?k \<or> wt_tenant_id r \<noteq> t"
      by (auto simp: d1)
    with inv obtain q where "wt_id r = colon_key (wt_workflow_id r) q" "wt_workflow_id r \<noteq> ?k"
      and "wt_workflow_id r \<in> workflow_ids d"
      by (auto simp: wf_inv_def tasks_inv_def db_ok_def tasks_ok_def)
    with colon show ?thesis by (auto simp: task_id_def colon_key_inject)
  qed
  have key: "wt_key r \<noteq> (t, task_id ?k s)" if "r \<in> set (workflow_tasks (?del d1))" for r s
    using new [OF that, of s] that inv by (auto simp: wt_key_def wf_inv_def tasks_inv_def d1)
  have new': "task_id ?k s \<notin> wt_id ` set (workflow_tasks (?del d1))" for s
    using new by (metis (no_types, lifting) imageE)
  have key': "(t, task_id ?k s) \<notin> wt_key ` set (workflow_tasks (?del d1))" for s
    using key by (metis (no_types, lifting) imageE)
  have tasks: "op_iter (\<lambda>step. add_task (?f step)) (doc_steps doc) (?del d1) =
      (Inr (), ?del d1\<lparr>workflow_tasks := workflow_tasks (?del d1) @ map ?f (doc_steps doc)\<rparr>)"
  proof (rule iter_add_task_succeeds)
    have "distinct (map (colon_key ?k) (map step_id (doc_steps doc)))"
      using doc unfolding doc_stored_ok_def distinct_map by (auto intro: inj_onI)
    then show "distinct (map (\<lambda>x. wt_id (?f x)) (doc_steps doc))" by (simp add: task_id_def comp_def)
    show "\<And>x y. wt_key (?f x) = wt_key (?f y) \<Longrightarrow> wt_id (?f x) = wt_id (?f y)" by (simp add: wt_key_def)
    show "\<forall>x \<in> set (doc_steps doc). wt_id (?f x) \<notin> wt_id ` set (workflow_tasks (?del d1)) \<and>
        wt_key (?f x) \<notin> wt_key ` set (workflow_tasks (?del d1)) \<and>
        wt_tenant_id (?f x) \<in> tenant_ids (?del d1) \<and> wt_workflow_id (?f x) \<in> workflow_ids (?del d1) \<and>
        task_check (?f x)"
    proof
      fix x
      assume "x \<in> set (doc_steps doc)"
      with doc have "task_check (?f x)" by (simp add: task_check_def doc_stored_ok_def task_row_def)
      moreover have "tenant_ids (?del d1) = tenant_ids d1" "workflow_ids (?del d1) = workflow_ids d1"
        by (simp_all add: tenant_ids_def workflow_ids_def)
      moreover have "wt_key (?f x) = (t, task_id ?k x)" by (simp add: wt_key_def)
      ultimately show "wt_id (?f x) \<notin> wt_id ` set (workflow_tasks (?del d1)) \<and>
        wt_key (?f x) \<notin> wt_key ` set (workflow_tasks (?del d1)) \<and>
        wt_tenant_id (?f x) \<in> tenant_ids (?del d1) \<and> wt_workflow_id (?f x) \<in> workflow_ids (?del d1) \<and>
        task_check (?f x)"
        using new' key' k t by (simp only: task_row_sels simp_thms)
    qed
  qed
  let ?d2 = "?del d1\<lparr>workflow_tasks := workflow_tasks (?del d1) @ map ?f (doc_steps doc)\<rparr>"
  obtain d3 where merge: "merge_checkpoint (checkpoint_row env t doc v) ?d2 = (Inr (), d3)"
    and d3: "workflow_events d3 = workflow_events d" "tenant_ids d3 = tenant_ids d1" "workflow_ids d3 = workflow_ids d1"
    using k t by (simp add: merge_checkpoint_def checked_def tenant_ids_def workflow_ids_def d1)
  have "next_sequence t ?k ?d2 = next_sequence t ?k d" by (rule next_sequence_frame) (simp add: d1)
  moreover have "(t, ?k, next_sequence t ?k d) \<notin> we_key ` set (workflow_events d)"
  proof
    assume "(t, ?k, next_sequence t ?k d) \<in> we_key ` set (workflow_events d)"
    then obtain e where "e \<in> set (journal_of t ?k d)" "we_sequence e = next_sequence t ?k d"
      by (auto simp: we_key_def journal_of_def)
    then have "next_sequence t ?k d \<in> set (map we_sequence (journal_of t ?k d))" by force
    with inv show False by (simp add: wf_inv_def next_sequence_journal journaled_def)
  qed
  ultimately obtain d4 where
      event: "add_workflow_event (event_row env t doc (next_sequence t ?k ?d2)) d3 = (Inr (), d4)"
    using d3 k t fresh by (simp add: add_workflow_event_def checked_def event_row_def we_key_def)
  have "upsert_workflow env t doc d = (Inr (), d4)"
    by (simp add: upsert_workflow_def Let_def with_session_def op_bind_def put delete_tasks_def
        tasks [simplified] merge [simplified] event [simplified])
  with upsert_Inr [OF this] show ?thesis by simp
qed

end
