(* ===== verification/Competitive.thy ===== *)
theory Competitive
  imports Py_Core
begin

section \<open>Competitive capabilities (competitive.py)\<close>

text \<open>
  The table of \<^verbatim>\<open>agi_platform/competitive.py\<close>. Its capability names are part of every workflow
  document that \<^verbatim>\<open>WorkflowEngine.plan\<close> builds.
\<close>

record CompetitiveStrength =
  cs_source :: string
  cs_strength :: string
  cs_adopted_as :: string
  cs_platform_level :: int
  cs_runtime_capability :: string

definition COMPETITIVE_STRENGTHS :: "CompetitiveStrength list" where
  "COMPETITIVE_STRENGTHS =
   [\<lparr>cs_source = ''LangGraph'', cs_strength = ''stateful graph orchestration, checkpoints, recovery'',
     cs_adopted_as = ''checkpointed workflow graph planning'', cs_platform_level = 9,
     cs_runtime_capability = ''workflow_graph''\<rparr>,
    \<lparr>cs_source = ''CrewAI'', cs_strength = ''role-based crews and event-driven flows'',
     cs_adopted_as = ''crew/role task routing'', cs_platform_level = 9,
     cs_runtime_capability = ''crew_flow''\<rparr>,
    \<lparr>cs_source = ''AutoGen'', cs_strength = ''multi-agent conversation programming'',
     cs_adopted_as = ''agent handoff trace'', cs_platform_level = 9,
     cs_runtime_capability = ''agent_conversation''\<rparr>,
    \<lparr>cs_source = ''AutoGPT'', cs_strength = ''tool ecosystem and marketplace-style extensibility'',
     cs_adopted_as = ''tool capability hints'', cs_platform_level = 0,
     cs_runtime_capability = ''tool_marketplace''\<rparr>,
    \<lparr>cs_source = ''MetaGPT'', cs_strength = ''software-company SOP roles'',
     cs_adopted_as = ''architect/implementer/reviewer SOP stages'', cs_platform_level = 9,
     cs_runtime_capability = ''sop_roles''\<rparr>,
    \<lparr>cs_source = ''ChatDev'', cs_strength = ''zero-code workflow description'',
     cs_adopted_as = ''declarative workflow contract'', cs_platform_level = 9,
     cs_runtime_capability = ''zero_code_contract''\<rparr>,
    \<lparr>cs_source = ''FastAPI LangGraph template'', cs_strength = ''production backend controls'',
     cs_adopted_as = ''probes, metrics, auth policy, and deployment hardening'', cs_platform_level = 9,
     cs_runtime_capability = ''production_backend''\<rparr>]"

definition competitive_strengths :: "CompetitiveStrength list" where
  "competitive_strengths = COMPETITIVE_STRENGTHS"

definition capability_names :: "string list" where
  "capability_names = map cs_runtime_capability COMPETITIVE_STRENGTHS"

end
