(* ===== verification/Orchestration.thy ===== *)
theory Orchestration
  imports Workflow_Store Competitive
begin

section \<open>The workflow engine (orchestration.py)\<close>

text \<open>
  \<^verbatim>\<open>WorkflowEngine\<close> of \<^verbatim>\<open>agi_platform/orchestration.py\<close> on top of theory
  \<^verbatim>\<open>Workflow_Store\<close>: planning a workflow, executing its steps, recovering it. The engine keeps
  the list \<open>runs\<close> of what it has planned and the database of its store; it works for the tenant
  of its store. All readings of the clock within one call give the same second.

  Shown: planning always succeeds under a fresh id and the stored document is what was returned;
  executing completes every step, and executing again changes nothing; across any sequence of
  plans, executions, recoveries and worker leases each step is executed at most once, and a lease is exclusive until it is
  marked, expires, or its workflow is executed or recovered.
\<close>

record engine =
  eng_db :: db
  eng_runs :: "workflow_doc list"

definition on_db :: "(db, 'a) sop \<Rightarrow> (engine, 'a) sop" where
  "on_db m s = (case m (eng_db s) of (r, d) \<Rightarrow> (r, s\<lparr>eng_db := d\<rparr>))"

subsection \<open>Planning\<close>

definition role_for :: "string \<Rightarrow> string" where
  "role_for agent = dict_get_default
     [(''architect'', ''designs the workflow and constraints''),
      (''implementer'', ''executes the approved implementation steps''),
      (''reviewer'', ''validates quality, safety, and production readiness'')]
     agent ''specialized execution agent''"

definition plan_step :: "string \<Rightarrow> string \<Rightarrow> nat \<Rightarrow> string \<Rightarrow> wf_step" where
  "plan_step checkpoint task index agent =
     \<lparr>step_id = ''step-'' @ str_of_nat (index + 1), step_agent = agent, step_role = role_for agent,
      step_action = agent @ '' handles '' @ task, step_status = ''queued'', step_observations = [],
      step_retries = 0,
      step_idempotency_key = colon_key checkpoint (''step-'' @ str_of_nat (index + 1))\<rparr>"

definition workflow_graph :: "string \<Rightarrow> wf_step list \<Rightarrow> wf_graph" where
  "workflow_graph checkpoint steps = (let nodes = map step_agent steps in
     \<lparr>graph_checkpoint = checkpoint, graph_nodes = nodes, graph_edges = zip nodes (tl nodes),
      graph_recovery_enabled = True, graph_state_store = ''postgresql-compatible''\<rparr>)"

definition handoff_trace :: "wf_step list \<Rightarrow> wf_handoff list" where
  "handoff_trace steps = map (\<lambda>i. \<lparr>handoff_from = (if i = 0 then ''user'' else step_agent (steps ! (i - 1))),
     handoff_to = step_agent (steps ! i), handoff_message = step_action (steps ! i)\<rparr>) [0..<length steps]"

definition plan_agents :: "string list option \<Rightarrow> string list" where
  "plan_agents agents = (case agents of None \<Rightarrow> [''architect'', ''implementer'', ''reviewer'']
     | Some a \<Rightarrow> if a = [] then [''architect'', ''implementer'', ''reviewer''] else a)"

definition plan_doc :: "int \<Rightarrow> string \<Rightarrow> string \<Rightarrow> string list \<Rightarrow> workflow_doc" where
  "plan_doc now checkpoint task agents =
     (let steps = map (\<lambda>i. plan_step checkpoint task i (agents ! i)) [0..<length agents] in
      \<lparr>doc_task = task, doc_steps = steps, doc_checkpoint = checkpoint, doc_status = ''planned'',
       doc_created_at = now, doc_updated_at = now,
       doc_events = [Workflow_planned checkpoint now], doc_graph = workflow_graph checkpoint steps,
       doc_conversation = handoff_trace steps,
       doc_crew = \<lparr>crew_name = ''production-delivery-crew'', crew_agents = agents,
                    crew_flow = ''plan -> execute -> review -> govern''\<rparr>,
       doc_zero_code_contract = \<lparr>contract_task = task, contract_agents = agents,
                                  contract_approval_required = True\<rparr>,
       doc_competitive_capabilities = capability_names\<rparr>)"

definition plan ::
    "(WorkflowCheckpointRow list \<Rightarrow> WorkflowCheckpointRow list) \<Rightarrow> wf_env \<Rightarrow> string \<Rightarrow> string \<Rightarrow>
     string list option \<Rightarrow> (engine, workflow_doc) sop" where
  "plan scan env tenant task agents =
     op_bind (on_db (wf_list scan tenant)) (\<lambda>docs.
     let checkpoint = ''checkpoint-'' @ str_of_nat (length docs + 1);
         workflow = plan_doc (wf_now env) checkpoint task (plan_agents agents)
     in op_bind (op_modify (\<lambda>s. s\<lparr>eng_runs := eng_runs s @ [workflow]\<rparr>)) (\<lambda>_.
        op_bind (on_db (upsert_workflow env tenant workflow)) (\<lambda>_.
        op_return workflow)))"

subsection \<open>Executing and recovering\<close>

definition execute_step :: "int \<Rightarrow> string \<Rightarrow> wf_step \<Rightarrow> wf_event" where
  "execute_step now task step = Step_completed (step_id step) (step_agent step) now
     (step_agent step @ '' completed governed work on: '' @ task) (step_idempotency_key step)"

text \<open>The loop over the steps: the steps afterwards, and the observations in order.\<close>

fun run_steps :: "int \<Rightarrow> string \<Rightarrow> wf_step list \<Rightarrow> wf_step list \<times> wf_event list" where
  "run_steps now task [] = ([], [])"
| "run_steps now task (step # steps) =
     (let (steps', events) = run_steps now task steps in
      if step_status step = ''completed'' then (step # steps', events)
      else let observation = execute_step now task (step\<lparr>step_status := ''running''\<rparr>) in
        (step\<lparr>step_observations := step_observations step @ [observation],
              step_status := ''completed''\<rparr> # steps', observation # events))"

definition execute_doc :: "int \<Rightarrow> string \<Rightarrow> workflow_doc \<Rightarrow> workflow_doc" where
  "execute_doc now checkpoint doc =
     (let (steps, events) = run_steps now (doc_task doc) (doc_steps doc) in
      doc\<lparr>doc_status := ''completed'', doc_steps := steps, doc_updated_at := now,
          doc_events := doc_events doc @ events @ [Workflow_completed checkpoint now]\<rparr>)"

definition execute :: "wf_env \<Rightarrow> string \<Rightarrow> string \<Rightarrow> (engine, workflow_doc) sop" where
  "execute env tenant checkpoint =
     op_bind (on_db (wf_get tenant checkpoint)) (\<lambda>workflow.
     if doc_status workflow \<notin> set [''planned'', ''recovered'', ''running''] then op_return workflow
     else let workflow = execute_doc (wf_now env) checkpoint workflow in
       op_bind (on_db (upsert_workflow env tenant workflow)) (\<lambda>_.
       op_return workflow))"

definition recover_doc :: "int \<Rightarrow> workflow_doc \<Rightarrow> workflow_doc" where
  "recover_doc now doc = doc\<lparr>doc_status := ''recovered'', doc_updated_at := now\<rparr>"

definition recover :: "wf_env \<Rightarrow> string \<Rightarrow> string \<Rightarrow> (engine, workflow_doc) sop" where
  "recover env tenant checkpoint =
     op_bind (on_db (wf_get tenant checkpoint)) (\<lambda>workflow.
     let recovered = recover_doc (wf_now env) workflow in
     op_bind (on_db (upsert_workflow env tenant recovered)) (\<lambda>_.
     op_return recovered))"

definition competitive_blueprint :: "CompetitiveStrength list" where
  "competitive_blueprint = COMPETITIVE_STRENGTHS"

subsection \<open>The planning facade\<close>

text \<open>\<^verbatim>\<open>Orchestrator.run\<close> of \<^verbatim>\<open>orchestrator/orchestrator_core.py\<close>.\<close>

record OrchestratedTask =
  ot_task :: string
  ot_route :: string
  ot_status :: string
  ot_checkpoints :: "string list"

definition Orchestrator_run :: "string \<Rightarrow> (string, json) dict" where
  "Orchestrator_run task =
     (let planned = \<lparr>ot_task = task, ot_route = ''level-9-orchestrator'', ot_status = ''planned'',
                     ot_checkpoints = [''received'', ''routed'', ''checkpointed'']\<rparr>
      in [(''task'', JStr (ot_task planned)), (''route'', JStr (ot_route planned)), (''status'', JStr (ot_status planned)),
          (''checkpoints'', JList (map JStr (ot_checkpoints planned)))])"

subsection \<open>Well-formed documents\<close>

definition queued :: "wf_step \<Rightarrow> bool" where
  "queued s \<longleftrightarrow> step_status s = ''queued'' \<and> step_observations s = []"

definition executed_once :: "wf_step \<Rightarrow> bool" where
  "executed_once s \<longleftrightarrow> step_status s = ''completed'' \<and>
     (\<exists>n x. step_observations s = [Step_completed (step_id s) (step_agent s) n x (step_idempotency_key s)])"

text \<open>
  A stored document: its steps have distinct ids and the keys derived from them, all of them are
  still queued or all of them have been executed once, and the step events of its journal are
  the observations of its steps.
\<close>

definition doc_ok :: "workflow_doc \<Rightarrow> bool" where
  "doc_ok doc \<longleftrightarrow> doc_status doc \<in> set [''planned'', ''completed'', ''recovered''] \<and>
     distinct (map step_id (doc_steps doc)) \<and>
     (\<forall>s \<in> set (doc_steps doc). step_idempotency_key s = colon_key (doc_checkpoint doc) (step_id s)) \<and>
     ((\<forall>s \<in> set (doc_steps doc). queued s) \<and> doc_status doc \<noteq> ''completed'' \<or> (\<forall>s \<in> set (doc_steps doc). executed_once s)) \<and>
     filter is_Step_completed (doc_events doc) = concat (map step_observations (doc_steps doc))"

lemma run_steps_done: "\<forall>s \<in> set steps. executed_once s \<Longrightarrow> run_steps n task steps = (steps, [])"
  by (induction steps) (auto simp: executed_once_def)

lemma queued_not_completed: "queued s \<Longrightarrow> step_status s \<noteq> ''completed''"
  by (simp add: queued_def)

lemma execute_step_status [simp]: "execute_step n task (s\<lparr>step_status := x\<rparr>) = execute_step n task s"
  by (simp add: execute_step_def)

lemma is_Step_completed_execute_step [simp]: "is_Step_completed (execute_step n task s)"
  by (simp add: execute_step_def)

definition finished :: "int \<Rightarrow> string \<Rightarrow> wf_step \<Rightarrow> wf_step" where
  "finished n task s = s\<lparr>step_observations := [execute_step n task s], step_status := ''completed''\<rparr>"

lemma finished_sels [simp]:
  "step_id (finished n task s) = step_id s"
  "step_idempotency_key (finished n task s) = step_idempotency_key s"
  "step_observations (finished n task s) = [execute_step n task s]"
  by (simp_all add: finished_def)

lemma executed_once_finished [simp]: "executed_once (finished n task s)"
  by (simp add: executed_once_def finished_def execute_step_def)

lemma run_steps_queued:
  assumes "\<forall>s \<in> set steps. queued s"
  shows "run_steps n task steps = (map (finished n task) steps, map (execute_step n task) steps)"
  using assms
proof (induction steps)
  case (Cons s steps)
  then have "step_status s \<noteq> ''completed''" and "step_observations s = []"
    by (auto simp: queued_def)
  with Cons show ?case by (simp add: finished_def Let_def)
qed simp

lemma execute_doc_ok:
  assumes "doc_ok doc"
  shows "doc_ok (execute_doc n k doc)" and "\<forall>s \<in> set (doc_steps (execute_doc n k doc)). executed_once s"
    and "doc_status (execute_doc n k doc) = ''completed''" and "doc_checkpoint (execute_doc n k doc) = doc_checkpoint doc"
    and "map step_id (doc_steps (execute_doc n k doc)) = map step_id (doc_steps doc)"
proof -
  consider "\<forall>s \<in> set (doc_steps doc). queued s" | "\<forall>s \<in> set (doc_steps doc). executed_once s"
    using assms by (auto simp: doc_ok_def)
  then have "doc_ok (execute_doc n k doc) \<and> (\<forall>s \<in> set (doc_steps (execute_doc n k doc)). executed_once s) \<and>
    doc_status (execute_doc n k doc) = ''completed'' \<and> doc_checkpoint (execute_doc n k doc) = doc_checkpoint doc \<and>
    map step_id (doc_steps (execute_doc n k doc)) = map step_id (doc_steps doc)"
  proof cases
    case 1
    have "concat (map step_observations (doc_steps doc)) = []" using 1 by (auto simp: queued_def)
    moreover have "filter is_Step_completed (map (execute_step n task) steps) = map (execute_step n task) steps"
      for task steps by (induction steps) simp_all
    moreover have "concat (map (\<lambda>s. [f s]) steps) = map f steps" for f :: "wf_step \<Rightarrow> wf_event" and steps
      by (induction steps) simp_all
    ultimately show ?thesis
      using assms by (auto simp: execute_doc_def run_steps_queued [OF 1] doc_ok_def comp_def)
  next
    case 2
    then show ?thesis using assms by (auto simp: execute_doc_def run_steps_done [OF 2] doc_ok_def)
  qed
  then show "doc_ok (execute_doc n k doc)" and "\<forall>s \<in> set (doc_steps (execute_doc n k doc)). executed_once s"
    and "doc_status (execute_doc n k doc) = ''completed''" and "doc_checkpoint (execute_doc n k doc) = doc_checkpoint doc"
    and "map step_id (doc_steps (execute_doc n k doc)) = map step_id (doc_steps doc)"
    by simp_all
qed

lemma recover_doc_ok: "doc_ok doc \<Longrightarrow> doc_ok (recover_doc n doc)"
  by (auto simp: doc_ok_def recover_doc_def)

lemma plan_doc_ok: "doc_ok (plan_doc n k task agents)"
proof -
  have "concat (map step_observations (doc_steps (plan_doc n k task agents))) = []"
    by (simp add: plan_doc_def Let_def plan_step_def)
  moreover have "distinct (map step_id (doc_steps (plan_doc n k task agents)))"
    by (auto simp: plan_doc_def Let_def plan_step_def distinct_map inj_on_def)
  ultimately show ?thesis
    by (auto simp: doc_ok_def plan_doc_def Let_def plan_step_def queued_def)
qed

lemma status_values:
  "list_all (\<lambda>v. wf_status v \<in> set workflow_statuses) [''planned'', ''completed'', ''recovered'', ''queued'']"
  by code_simp

lemma doc_ok_stored: "doc_ok doc \<Longrightarrow> doc_stored_ok doc"
  using status_values by (auto simp: doc_ok_def doc_stored_ok_def queued_def executed_once_def)

subsection \<open>Engine states\<close>

definition docs_ok :: "db \<Rightarrow> bool" where
  "docs_ok d \<longleftrightarrow> (\<forall>c \<in> set (workflow_checkpoints d). doc_ok (wc_state c))"

definition eng_inv :: "string \<Rightarrow> engine \<Rightarrow> bool" where
  "eng_inv t s \<longleftrightarrow> wf_inv t (eng_db s) \<and> docs_ok (eng_db s)"

lemma on_db_sels [simp]: "on_db m s = (fst (m (eng_db s)), s\<lparr>eng_db := snd (m (eng_db s))\<rparr>)"
  by (simp add: on_db_def split: prod.split)

lemma wf_list_eq:
  "wf_list scan t d =
     (Inr (map wc_state (scan (filter (\<lambda>r. wc_tenant_id r = t) (workflow_checkpoints d)))), d)"
  by (simp add: wf_list_def with_session_def)

lemma wf_get_eq:
  "wf_get t k d = (case find_by wc_id k (workflow_checkpoints d) of
      Some row \<Rightarrow> if wc_tenant_id row = t then (Inr (wc_state row), d)
                  else (Inl (KeyError (''checkpoint '' @ k @ '' not found'')), d)
    | None \<Rightarrow> (Inl (KeyError (''checkpoint '' @ k @ '' not found'')), d))"
  by (auto simp: wf_get_def with_session_def split: option.split)

text \<open>What a store of tenant \<open>t\<close> answers for its workflows.\<close>

lemma wf_get_known:
  assumes "wf_inv t d" and "k \<in> workflow_ids d"
  obtains row where "find_by wc_id k (workflow_checkpoints d) = Some row"
    and "wf_get t k d = (Inr (wc_state row), d)" and "doc_checkpoint (wc_state row) = k"
    and "row \<in> set (workflow_checkpoints d)"
proof -
  have "k \<in> wc_id ` set (workflow_checkpoints d)"
    using assms numbered_checkpoint_ids by (simp add: wf_inv_def)
  then obtain row where row: "find_by wc_id k (workflow_checkpoints d) = Some row"
    by (metis find_by_None_iff not_None_eq)
  moreover from find_by_SomeD [OF this] assms(1)
  have "row \<in> set (workflow_checkpoints d)" "wc_tenant_id row = t" "doc_checkpoint (wc_state row) = k"
    by (auto simp: wf_inv_def checkpoints_inv_def)
  ultimately show ?thesis by (intro that) (simp_all add: wf_get_eq)
qed

lemma wf_get_Inr:
  assumes "wf_inv t d" and "wf_get t k d = (Inr doc, d')"
  shows "d' = d" and "k \<in> workflow_ids d" and "doc_checkpoint doc = k" and "docs_ok d \<Longrightarrow> doc_ok doc"
proof -
  from assms(2) obtain row where row: "find_by wc_id k (workflow_checkpoints d) = Some row"
    and "doc = wc_state row" and "d' = d"
    by (auto simp: wf_get_eq split: option.splits if_splits)
  moreover from find_by_SomeD [OF row] have in_cs: "row \<in> set (workflow_checkpoints d)" and k: "wc_id row = k"
    by simp_all
  moreover have "k \<in> workflow_ids d"
    using in_cs k numbered_checkpoint_ids [of d] assms(1) by (auto simp: wf_inv_def)
  ultimately show "d' = d" and "k \<in> workflow_ids d" and "doc_checkpoint doc = k" and "docs_ok d \<Longrightarrow> doc_ok doc"
    using assms(1) by (auto simp: wf_inv_def checkpoints_inv_def docs_ok_def)
qed

lemma find_by_overwrite:
  assumes "wc_id c = j"
  shows "find_by wc_id k (update_by wc_id j (\<lambda>q. c\<lparr>wc_created_at := wc_created_at q\<rparr>) cs) =
    (if k = j then map_option (\<lambda>q. c\<lparr>wc_created_at := wc_created_at q\<rparr>) (find_by wc_id k cs) else find_by wc_id k cs)"
  using assms by (induction cs) (auto simp: update_by_def)

lemma find_upserted:
  "\<exists>row. find_by wc_id (doc_checkpoint doc) (workflow_checkpoints (upserted env t doc d)) = Some row \<and>
     wc_state row = doc \<and> wc_tenant_id row = t"
  "k \<noteq> doc_checkpoint doc \<Longrightarrow>
     find_by wc_id k (workflow_checkpoints (upserted env t doc d)) = find_by wc_id k (workflow_checkpoints d)"
proof -
  let ?k = "doc_checkpoint doc" and ?cs = "workflow_checkpoints d"
  have "\<exists>row. find_by wc_id ?k (workflow_checkpoints (upserted env t doc d)) = Some row \<and>
      wc_state row = doc \<and> wc_tenant_id row = t"
  proof (cases "?k \<in> wc_id ` set ?cs")
    case True
    then obtain q where "find_by wc_id ?k ?cs = Some q" by (metis find_by_None_iff not_None_eq)
    with True show ?thesis by (simp add: upserted_tables Let_def find_by_overwrite)
  next
    case False
    then have "find_by wc_id ?k ?cs = None" by (simp add: find_by_None_iff)
    with False show ?thesis by (simp add: upserted_tables Let_def find_by_append)
  qed
  then show "\<exists>row. find_by wc_id ?k (workflow_checkpoints (upserted env t doc d)) = Some row \<and>
     wc_state row = doc \<and> wc_tenant_id row = t" .
  show "find_by wc_id k (workflow_checkpoints (upserted env t doc d)) = find_by wc_id k ?cs" if "k \<noteq> ?k"
    using that by (auto simp: upserted_tables Let_def find_by_overwrite find_by_append split: option.split)
qed

text \<open>What an upsert stores is what \<^verbatim>\<open>get\<close> returns, and every other checkpoint is as it was.\<close>

lemma wf_get_upserted:
  "wf_get t k (upserted env t doc d) =
    (if k = doc_checkpoint doc then (Inr doc, upserted env t doc d)
     else (fst (wf_get t k d), upserted env t doc d))"
proof (cases "k = doc_checkpoint doc")
  case True
  obtain row where "find_by wc_id (doc_checkpoint doc) (workflow_checkpoints (upserted env t doc d)) = Some row"
    and "wc_state row = doc" and "wc_tenant_id row = t"
    using find_upserted(1) by blast
  with True show ?thesis by (simp add: wf_get_eq)
next
  case False
  then show ?thesis by (auto simp: wf_get_eq find_upserted(2) split: option.split)
qed

lemma docs_ok_upserted: "docs_ok d \<Longrightarrow> doc_ok doc \<Longrightarrow> docs_ok (upserted env t doc d)"
  by (auto simp: docs_ok_def upserted_tables Let_def set_update_by)

lemma upsert_eng_inv:
  assumes "eng_inv t s" and "next_or_known (doc_checkpoint doc) (eng_db s)" and "doc_ok doc"
  shows "eng_inv t (s\<lparr>eng_db := snd (upsert_workflow env t doc (eng_db s))\<rparr>)"
proof -
  obtain r d' where u: "upsert_workflow env t doc (eng_db s) = (r, d')" by fastforce
  have "wf_inv t d'" using upsert_inv [OF _ assms(2) u] assms(1) by (simp add: eng_inv_def)
  moreover have "docs_ok d'"
  proof (cases r)
    case (Inl e)
    with u have "d' = eng_db s" unfolding upsert_workflow_def Let_def by (auto dest: with_session_Inl)
    with assms(1) show ?thesis by (simp add: eng_inv_def)
  next
    case (Inr v)
    with u assms show ?thesis by (auto simp: eng_inv_def docs_ok_upserted dest!: upsert_Inr)
  qed
  ultimately show ?thesis using u by (simp add: eng_inv_def)
qed

lemma all_tenant: "wf_inv t d \<Longrightarrow> filter (\<lambda>r. wc_tenant_id r = t) (workflow_checkpoints d) = workflow_checkpoints d"
  by (simp add: wf_inv_def checkpoints_inv_def)

definition planned_doc :: "wf_env \<Rightarrow> string \<Rightarrow> string list option \<Rightarrow> db \<Rightarrow> workflow_doc" where
  "planned_doc env task agents d =
     plan_doc (wf_now env) (checkpoint_name (Suc (length (workflows d)))) task (plan_agents agents)"

lemma planned_doc_ok [simp]: "doc_ok (planned_doc env task agents d)"
  by (simp add: planned_doc_def plan_doc_ok)

lemma planned_doc_checkpoint [simp]:
  "doc_checkpoint (planned_doc env task agents d) = checkpoint_name (Suc (length (workflows d)))"
  by (simp add: planned_doc_def plan_doc_def Let_def)

lemma plan_eq:
  assumes scan: "reorders scan" and inv: "wf_inv t (eng_db s)"
  shows "plan scan env t task agents s =
    (let doc = planned_doc env task agents (eng_db s); u = upsert_workflow env t doc (eng_db s) in
     (case fst u of Inl e \<Rightarrow> Inl e | Inr _ \<Rightarrow> Inr doc, s\<lparr>eng_runs := eng_runs s @ [doc], eng_db := snd u\<rparr>))"
proof -
  have "length (scan (workflow_checkpoints (eng_db s))) = length (workflows (eng_db s))"
    using inv numbered_length by (simp add: length_reordered [OF scan] wf_inv_def)
  then show ?thesis
    by (simp add: plan_def op_bind_def wf_list_eq all_tenant [OF inv] Let_def checkpoint_name_def
        planned_doc_def split: prod.split sum.split)
qed

subsection \<open>Runs of the engine\<close>

datatype eng_op =
    Plan wf_env string "string list option"
  | Execute wf_env string
  | Recover wf_env string
  | Work lease_op

fun eng_step ::
    "(WorkflowCheckpointRow list \<Rightarrow> WorkflowCheckpointRow list) \<Rightarrow>
     (WorkflowTaskRow list \<Rightarrow> WorkflowTaskRow list) \<Rightarrow> string \<Rightarrow> eng_op \<Rightarrow> engine \<Rightarrow> engine" where
  "eng_step scan scan' t (Plan env task agents) s = snd (plan scan env t task agents s)"
| "eng_step scan scan' t (Execute env k) s = snd (execute env t k s)"
| "eng_step scan scan' t (Recover env k) s = snd (recover env t k s)"
| "eng_step scan scan' t (Work op) s = s\<lparr>eng_db := lease_step scan' op (eng_db s)\<rparr>"

lemma plan_inv: "reorders scan \<Longrightarrow> eng_inv t s \<Longrightarrow> eng_inv t (snd (plan scan env t task agents s))"
  using upsert_eng_inv [of t s "planned_doc env task agents (eng_db s)" env]
  by (simp add: plan_eq Let_def eng_inv_def next_or_known_def)

lemma execute_eq:
  "execute env t k s = (case fst (wf_get t k (eng_db s)) of
     Inl e \<Rightarrow> (Inl e, s)
   | Inr doc \<Rightarrow> if doc_status doc \<notin> set [''planned'', ''recovered'', ''running''] then (Inr doc, s)
       else let doc' = execute_doc (wf_now env) k doc; u = upsert_workflow env t doc' (eng_db s) in
         (case fst u of Inl e \<Rightarrow> Inl e | Inr _ \<Rightarrow> Inr doc', s\<lparr>eng_db := snd u\<rparr>))"
  by (auto simp: execute_def op_bind_def wf_get_eq Let_def split: option.split sum.split)

lemma recover_eq':
  "recover env t k s = (case fst (wf_get t k (eng_db s)) of
     Inl e \<Rightarrow> (Inl e, s)
   | Inr doc \<Rightarrow> let doc' = recover_doc (wf_now env) doc; u = upsert_workflow env t doc' (eng_db s) in
         (case fst u of Inl e \<Rightarrow> Inl e | Inr _ \<Rightarrow> Inr doc', s\<lparr>eng_db := snd u\<rparr>))"
  by (auto simp: recover_def op_bind_def wf_get_eq Let_def split: option.split sum.split)

lemma stored_doc:
  assumes "eng_inv t s" and "fst (wf_get t k (eng_db s)) = Inr doc"
  shows "doc_ok doc" and "next_or_known k (eng_db s)" and "doc_checkpoint doc = k"
proof -
  have g: "wf_get t k (eng_db s) = (Inr doc, snd (wf_get t k (eng_db s)))" using assms(2) by (metis prod.collapse)
  have "wf_inv t (eng_db s)" using assms(1) by (simp add: eng_inv_def)
  note got = wf_get_Inr [OF this g]
  show "doc_ok doc" and "next_or_known k (eng_db s)" and "doc_checkpoint doc = k"
    using got assms(1) by (simp_all add: eng_inv_def next_or_known_def)
qed

lemma execute_inv: "eng_inv t s \<Longrightarrow> eng_inv t (snd (execute env t k s))"
  by (auto simp: execute_eq Let_def stored_doc execute_doc_ok split: sum.split
      intro!: upsert_eng_inv)

lemma recover_inv: "eng_inv t s \<Longrightarrow> eng_inv t (snd (recover env t k s))"
  using stored_doc [of t s k]
  by (auto simp: recover_eq' Let_def recover_doc_ok split: sum.split intro!: upsert_eng_inv)
    (simp add: recover_doc_def)

lemma update_task_inv:
  assumes "\<And>r. wt_id (f r) = wt_id r" "\<And>r. wt_tenant_id (f r) = wt_tenant_id r"
    "\<And>r. wt_workflow_id (f r) = wt_workflow_id r" "\<And>r. wt_idempotency_key (f r) = wt_idempotency_key r"
  shows "keeps (\<lambda>d. wf_inv t d \<and> docs_ok d) (update_task k f)"
proof (rule keepsI)
  fix d u d'
  assume inv: "wf_inv t d \<and> docs_ok d" and u: "update_task k f d = (Inr u, d')"
  have "db_ok d'" using keepsD [OF update_task_ok [OF assms] _ u] inv by (simp add: wf_inv_def)
  moreover have "d' = d\<lparr>workflow_tasks := update_by wt_id k f (workflow_tasks d)\<rparr>"
    using u by (simp add: update_task_def checked_Inr)
  ultimately show "wf_inv t d' \<and> docs_ok d'"
    using inv assms
    by (auto simp: wf_inv_defs numbered_def docs_ok_def tenant_ids_def journal_of_def set_update_by)
qed

lemma work_inv:
  assumes "eng_inv t s"
  shows "eng_inv t (s\<lparr>eng_db := lease_step scan op (eng_db s)\<rparr>)"
proof -
  let ?P = "\<lambda>d. wf_inv t d \<and> docs_ok d"
  have "always ?P (lease_next_task scan t' w a n m)" for t' w a n m
    unfolding lease_next_task_def
    by (intro with_session_always keeps_bind keeps_get)
      (auto intro!: keeps_intros update_task_inv split: list.split)
  moreover have "always ?P (mark_task_succeeded t' tid a n)" for t' tid a n
    unfolding mark_task_succeeded_def
    by (intro with_session_always keeps_bind keeps_get keeps_if keeps_case_option keeps_return update_task_inv) simp_all
  moreover have "always ?P (recover_expired_leases scan t' n)" for t' n
    unfolding recover_expired_leases_def
    by (intro with_session_always keeps_bind keeps_get keeps_iter keeps_return update_task_inv) simp_all
  ultimately show ?thesis using assms by (cases op) (auto simp: eng_inv_def always_def)
qed

lemma eng_step_inv: "reorders scan \<Longrightarrow> eng_inv t s \<Longrightarrow> eng_inv t (eng_step scan scan' t op s)"
  by (cases op) (simp_all add: plan_inv execute_inv recover_inv work_inv)

text \<open>A new engine: its store has created its tenant in an empty database.\<close>

definition new_engine :: "string \<Rightarrow> int \<Rightarrow> engine" where
  "new_engine t now = \<lparr>eng_db = snd (ensure_tenant t None now empty_db), eng_runs = []\<rparr>"

lemma new_engine_inv: "eng_inv t (new_engine t now)"
proof -
  have e: "ensure_tenant t None now empty_db = (Inr (), snd (ensure_tenant t None now empty_db))"
    by (simp add: ensure_tenant_def with_session_def add_tenant_def checked_def empty_db_def
        tenant_ids_def tenant_check_def)
  have "db_ok (snd (ensure_tenant t None now empty_db))"
    using alwaysD [OF ensure_tenant_always empty_db_ok e] .
  moreover note ensure_tenant_frame [OF e] ensure_tenant_returns [OF e]
  ultimately show ?thesis
    by (simp add: eng_inv_def new_engine_def wf_inv_defs numbered_def docs_ok_def journal_of_def empty_db_def)
qed

text \<open>With the order of the engine fixed, the runs are an invariant system.\<close>

definition eng_run ::
    "string \<Rightarrow> int \<Rightarrow> (WorkflowCheckpointRow list \<Rightarrow> WorkflowCheckpointRow list) \<Rightarrow>
     (WorkflowTaskRow list \<Rightarrow> WorkflowTaskRow list) \<Rightarrow> eng_op list \<Rightarrow> engine" where
  "eng_run t now scan scan' ops = fold (eng_step scan scan' t) ops (new_engine t now)"

lemma eng_run_inv: "reorders scan \<Longrightarrow> eng_inv t (eng_run t now scan scan' ops)"
proof -
  assume "reorders scan"
  then have "invariant_system (eng_step scan scan' t) (eng_inv t)" by unfold_locales (rule eng_step_inv)
  then show ?thesis unfolding eng_run_def by (rule invariant_system.run_inv) (rule new_engine_inv)
qed

subsection \<open>Properties\<close>

text \<open>
  C14: In every state the engine reaches, by any sequence of plans, executions, recoveries and
  worker operations, the database satisfies its constraints, the workflows are numbered without
  gaps, the journal of each workflow is numbered 1, 2, 3, ..., and the version of a workflow and of
  its checkpoint is the length of its journal.
\<close>

theorem engine_journal:
  assumes "reorders scan"
  shows "let d = eng_db (eng_run t now scan scan' ops) in
    db_ok d \<and> map w_id (workflows d) = map checkpoint_name [1..<Suc (length (workflows d))] \<and>
    (\<forall>w \<in> set (workflows d). map we_sequence (journal_of t (w_id w) d) = [1..w_version w]) \<and>
    (\<forall>c \<in> set (workflow_checkpoints d). wc_version c = int (length (journal_of t (wc_id c) d)))"
proof -
  let ?d = "eng_db (eng_run t now scan scan' ops)"
  have inv: "wf_inv t ?d" using eng_run_inv [OF assms] by (simp add: eng_inv_def)
  then have "\<forall>w \<in> set (workflows ?d). map we_sequence (journal_of t (w_id w) ?d) = [1..w_version w]"
    by (simp add: wf_inv_def rows_inv_def journaled_def)
  moreover have "\<forall>c \<in> set (workflow_checkpoints ?d). wc_version c = int (length (journal_of t (wc_id c) ?d))"
    using inv by (simp add: wf_inv_def checkpoints_inv_def)
  moreover have "map w_id (workflows ?d) = map checkpoint_name [1..<Suc (length (workflows ?d))]"
    using inv unfolding wf_inv_def numbered_def by blast
  ultimately show ?thesis using inv unfolding Let_def wf_inv_def by blast
qed

definition example_ops :: "eng_op list" where
  "example_ops = [Plan \<lparr>fresh_event = ''e1'', wf_now = 10\<rparr> ''ship'' (Some [''architect'']),
     Execute \<lparr>fresh_event = ''e2'', wf_now = 11\<rparr> ''checkpoint-1'',
     Recover \<lparr>fresh_event = ''e3'', wf_now = 12\<rparr> ''checkpoint-1'',
     Execute \<lparr>fresh_event = ''e4'', wf_now = 13\<rparr> ''checkpoint-1'']"

definition example_engine :: engine where
  "example_engine = eng_run ''legacy'' 0 (\<lambda>rows. rows) (\<lambda>rows. rows) example_ops"

lemma reorders_id [simp]: "reorders (\<lambda>rows. rows)"
  by (simp add: reorders_def)

theorem engine_journal_witness:
  "db_ok (eng_db example_engine) \<and> map w_version (workflows (eng_db example_engine)) = [4]"
proof
  show "db_ok (eng_db example_engine)"
    using engine_journal [of "\<lambda>rows. rows" "''legacy''" 0 "\<lambda>rows. rows" example_ops]
    by (simp add: example_engine_def Let_def)
  show "map w_version (workflows (eng_db example_engine)) = [4]" by code_simp
qed

text \<open>
  C15: Each step is executed at most once: in every reachable state, the step events in the journal
  of a stored workflow carry pairwise different idempotency keys, they are exactly the keys of the
  steps marked completed, and a workflow marked completed has all its steps completed.
\<close>

theorem steps_executed_once:
  assumes "reorders scan" and "c \<in> set (workflow_checkpoints (eng_db (eng_run t now scan scan' ops)))"
  shows "let doc = wc_state c; done_steps = filter (\<lambda>s. step_status s = ''completed'') (doc_steps doc) in
    map ev_key (filter is_Step_completed (doc_events doc)) = map step_idempotency_key done_steps \<and>
    distinct (map step_idempotency_key (doc_steps doc)) \<and>
    (doc_status doc = ''completed'' \<longrightarrow> done_steps = doc_steps doc)"
proof -
  let ?doc = "wc_state c"
  have ok: "doc_ok ?doc" using eng_run_inv [OF assms(1)] assms(2) by (auto simp: eng_inv_def docs_ok_def)
  then have "map step_idempotency_key (doc_steps ?doc) = map (colon_key (doc_checkpoint ?doc)) (map step_id (doc_steps ?doc))"
    by (simp add: doc_ok_def)
  moreover have "distinct (map (colon_key (doc_checkpoint ?doc)) (map step_id (doc_steps ?doc)))"
    using ok unfolding doc_ok_def distinct_map by (auto intro: inj_onI)
  ultimately have keys: "distinct (map step_idempotency_key (doc_steps ?doc))" by (simp only:)
  consider (q) "\<forall>s \<in> set (doc_steps ?doc). queued s" "doc_status ?doc \<noteq> ''completed''"
    | (x) "\<forall>s \<in> set (doc_steps ?doc). executed_once s"
    using ok by (auto simp: doc_ok_def)
  then show ?thesis
  proof cases
    case q
    then have "filter (\<lambda>s. step_status s = ''completed'') (doc_steps ?doc) = []"
      by (auto simp: queued_def filter_empty_conv)
    moreover have "filter is_Step_completed (doc_events ?doc) = []"
      using ok q by (auto simp: doc_ok_def queued_def)
    ultimately show ?thesis using keys q by (simp add: Let_def)
  next
    case x
    have "map ev_key (concat (map step_observations steps)) = map step_idempotency_key steps"
      if "\<forall>s \<in> set steps. executed_once s" for steps
      using that by (induction steps) (auto simp: executed_once_def)
    with x ok have "map ev_key (filter is_Step_completed (doc_events ?doc)) = map step_idempotency_key (doc_steps ?doc)"
      by (simp add: doc_ok_def)
    moreover have "filter (\<lambda>s. step_status s = ''completed'') (doc_steps ?doc) = doc_steps ?doc"
      using x by (simp add: executed_once_def)
    ultimately show ?thesis using keys by (simp add: Let_def)
  qed
qed

theorem steps_executed_once_witness:
  "\<exists>c \<in> set (workflow_checkpoints (eng_db example_engine)).
     map ev_key (filter is_Step_completed (doc_events (wc_state c))) = [''checkpoint-1:step-1'']"
proof -
  let ?cs = "workflow_checkpoints (eng_db example_engine)"
  have "map (\<lambda>c. map step_idempotency_key (filter (\<lambda>s. step_status s = ''completed'') (doc_steps (wc_state c)))) ?cs =
      [[''checkpoint-1:step-1'']]" by code_simp
  then obtain c where c: "c \<in> set ?cs"
    and keys: "map step_idempotency_key (filter (\<lambda>s. step_status s = ''completed'') (doc_steps (wc_state c))) =
      [''checkpoint-1:step-1'']"
    by (cases ?cs) auto
  have "map ev_key (filter is_Step_completed (doc_events (wc_state c))) =
      map step_idempotency_key (filter (\<lambda>s. step_status s = ''completed'') (doc_steps (wc_state c)))"
    using steps_executed_once [OF reorders_id c [unfolded example_engine_def]] unfolding Let_def by blast
  then show ?thesis unfolding keys by (intro bexI [OF _ c])
qed

text \<open>
  Planning never fails (given a fresh event id): it returns a document under the next number,
  adds it to the runs, \<^verbatim>\<open>get\<close> then returns that document, and every other checkpoint is as before.
\<close>

lemma plan_stores:
  assumes "reorders scan" and inv: "eng_inv t s"
    and fresh: "fresh_event env \<notin> we_id ` set (workflow_events (eng_db s))"
  shows "\<exists>doc s'. plan scan env t task agents s = (Inr doc, s') \<and>
    doc_checkpoint doc = checkpoint_name (Suc (length (workflows (eng_db s)))) \<and> doc_status doc = ''planned'' \<and>
    doc_task doc = task \<and> map step_agent (doc_steps doc) = plan_agents agents \<and>
    eng_runs s' = eng_runs s @ [doc] \<and> fst (wf_get t (doc_checkpoint doc) (eng_db s')) = Inr doc \<and>
    (\<forall>k. k \<noteq> doc_checkpoint doc \<longrightarrow> fst (wf_get t k (eng_db s')) = fst (wf_get t k (eng_db s)))"
proof -
  let ?doc = "planned_doc env task agents (eng_db s)"
  have wf: "wf_inv t (eng_db s)" using inv by (simp add: eng_inv_def)
  have u: "upsert_workflow env t ?doc (eng_db s) = (Inr (), upserted env t ?doc (eng_db s))"
    using fresh by (intro upsert_succeeds wf doc_ok_stored) (simp_all add: next_or_known_def)
  have "doc_status ?doc = ''planned''" "doc_task ?doc = task" "map step_agent (doc_steps ?doc) = plan_agents agents"
    by (simp_all add: planned_doc_def plan_doc_def Let_def plan_step_def comp_def map_nth)
  then show ?thesis
    by (intro exI [of _ ?doc] exI [of _ "snd (plan scan env t task agents s)"])
      (simp add: plan_eq [OF assms(1) wf] Let_def u wf_get_upserted)
qed

text \<open>
  C27: Executing a known checkpoint always returns (given a fresh event id) a completed document
  with every step completed, and stores it; executing again returns the same document and changes
  nothing at all. An unknown checkpoint raises \<open>KeyError\<close> and changes nothing.
\<close>

theorem execute_completes:
  assumes inv: "eng_inv t s" and fresh: "fresh_event env \<notin> we_id ` set (workflow_events (eng_db s))"
  shows "if k \<in> workflow_ids (eng_db s)
    then \<exists>doc s'. execute env t k s = (Inr doc, s') \<and> doc_status doc = ''completed'' \<and>
      (\<forall>st \<in> set (doc_steps doc). step_status st = ''completed'') \<and> fst (wf_get t k (eng_db s')) = Inr doc \<and>
      (\<forall>env'. execute env' t k s' = (Inr doc, s'))
    else execute env t k s = (Inl (KeyError (''checkpoint '' @ k @ '' not found'')), s)"
proof (cases "k \<in> workflow_ids (eng_db s)")
  case True
  have wf: "wf_inv t (eng_db s)" using inv by (simp add: eng_inv_def)
  obtain row :: WorkflowCheckpointRow where g: "wf_get t k (eng_db s) = (Inr (wc_state row), eng_db s)"
    by (rule wf_get_known [OF wf True]) (rule that)
  then have fg: "fst (wf_get t k (eng_db s)) = Inr (wc_state row)" by simp
  note doc = stored_doc [OF inv fg]
  have again: "execute env' t k s' = (Inr d, s')"
    if "fst (wf_get t k (eng_db s')) = Inr d" "doc_status d = ''completed''" for env' s' d
    using that by (simp add: execute_eq)
  show ?thesis
  proof (cases "doc_status (wc_state row) = ''completed''")
    case c: True
    then have "\<forall>st \<in> set (doc_steps (wc_state row)). step_status st = ''completed''"
      using doc(1) by (auto simp: doc_ok_def executed_once_def)
    with True c fg again show ?thesis by auto
  next
    case False
    let ?doc = "execute_doc (wf_now env) k (wc_state row)"
    have st: "doc_status (wc_state row) \<in> set [''planned'', ''recovered'', ''running'']"
      using False doc(1) by (auto simp: doc_ok_def)
    have u: "upsert_workflow env t ?doc (eng_db s) = (Inr (), upserted env t ?doc (eng_db s))"
      using fresh doc True by (intro upsert_succeeds wf doc_ok_stored)
        (simp_all add: next_or_known_def execute_doc_ok)
    have "execute env t k s = (Inr ?doc, s\<lparr>eng_db := upserted env t ?doc (eng_db s)\<rparr>)"
      unfolding execute_eq fg using st u by (simp add: Let_def)
    moreover have "\<forall>st \<in> set (doc_steps ?doc). step_status st = ''completed''"
      using execute_doc_ok(2) [OF doc(1)] by (auto simp: executed_once_def)
    moreover have "fst (wf_get t k (upserted env t ?doc (eng_db s))) = Inr ?doc"
      using doc by (simp add: wf_get_upserted execute_doc_ok)
    ultimately show ?thesis using True execute_doc_ok(3) [OF doc(1)] again by simp
  qed
next
  case False
  then have "find_by wc_id k (workflow_checkpoints (eng_db s)) = None"
    using inv numbered_checkpoint_ids by (simp add: eng_inv_def wf_inv_def find_by_None_iff)
  with False show ?thesis by (simp add: execute_eq wf_get_eq)
qed

theorem execute_completes_witness:
  "\<exists>doc s'. execute \<lparr>fresh_event = ''e9'', wf_now = 20\<rparr> ''legacy'' ''checkpoint-1''
      (eng_run ''legacy'' 0 (\<lambda>rows. rows) (\<lambda>rows. rows) [hd example_ops]) = (Inr doc, s') \<and>
    doc_status doc = ''completed''"
proof -
  let ?s = "eng_run ''legacy'' 0 (\<lambda>rows. rows) (\<lambda>rows. rows) [hd example_ops]"
  have "eng_inv ''legacy'' ?s" by (rule eng_run_inv) simp
  moreover have "list_all (\<lambda>e. we_id e \<noteq> ''e9'') (workflow_events (eng_db ?s))" by code_simp
  then have "fresh_event \<lparr>fresh_event = ''e9'', wf_now = 20\<rparr> \<notin> we_id ` set (workflow_events (eng_db ?s))"
    by (auto simp: list_all_iff)
  moreover have "map w_id (workflows (eng_db ?s)) = [''checkpoint-1'']" by code_simp
  then have "''checkpoint-1'' \<in> workflow_ids (eng_db ?s)"
    unfolding workflow_ids_def by (metis list.set_intros(1) list.set_map)
  ultimately obtain doc s' where "execute \<lparr>fresh_event = ''e9'', wf_now = 20\<rparr> ''legacy'' ''checkpoint-1'' ?s = (Inr doc, s')"
    and "doc_status doc = ''completed''"
    using execute_completes [of "''legacy''" ?s "\<lparr>fresh_event = ''e9'', wf_now = 20\<rparr>" "''checkpoint-1''"]
    by (auto split: if_splits)
  then show ?thesis by (intro exI conjI)
qed

subsection \<open>Leases in a run of the engine\<close>

text \<open>
  What leaves a lease of task \<open>tid\<close> of workflow \<open>w\<close> by worker \<open>a\<close> until \<open>e\<close> alone: every operation but an
  execution or recovery of that very workflow, the worker's own mark and a sweep after the expiry.
\<close>

fun keeps_claim :: "string \<Rightarrow> string \<Rightarrow> string \<Rightarrow> int \<Rightarrow> eng_op \<Rightarrow> bool" where
  "keeps_claim w tid a e (Plan env task agents) = True"
| "keeps_claim w tid a e (Execute env k) = (k \<noteq> w)"
| "keeps_claim w tid a e (Recover env k) = (k \<noteq> w)"
| "keeps_claim w tid a e (Work op) = keeps_lease tid a e op"

lemma find_by_filter: "find_by key k rs = Some r \<Longrightarrow> P r \<Longrightarrow> distinct (map key rs) \<Longrightarrow> find_by key k (filter P rs) = Some r"
  by (induction rs) (auto split: if_splits dest: find_by_SomeD)

lemma upsert_keeps_task:
  assumes ok: "db_ok d" and r: "find_by wt_id tid (workflow_tasks d) = Some r" and other: "doc_checkpoint doc \<noteq> wt_workflow_id r"
  shows "find_by wt_id tid (workflow_tasks (snd (upsert_workflow env t doc d))) = Some r"
proof (cases "upsert_workflow env t doc d")
  case (Pair u d')
  show ?thesis
  proof (cases u)
    case (Inl e)
    with Pair have "d' = d" unfolding upsert_workflow_def Let_def by (auto dest: with_session_Inl)
    with Pair r show ?thesis by simp
  next
    case (Inr v)
    with Pair have "d' = upserted env t doc d" by (simp add: upsert_Inr)
    moreover have "distinct (map wt_id (workflow_tasks d))" using ok by (simp add: db_ok_def tasks_ok_def)
    ultimately show ?thesis using Pair r other by (simp add: upserted_def Let_def find_by_append find_by_filter)
  qed
qed

lemma eng_step_keeps_task:
  assumes scan: "reorders scan" "reorders scan'" and inv: "eng_inv t s"
    and r: "find_by wt_id tid (workflow_tasks (eng_db s)) = Some r" and held: "holds_lease a e r"
    and w: "wt_workflow_id r = w" and op: "keeps_claim w tid a e op"
  shows "find_by wt_id tid (workflow_tasks (eng_db (eng_step scan scan' t op s))) = Some r"
proof -
  have wf: "wf_inv t (eng_db s)" and ok: "db_ok (eng_db s)" using inv by (simp_all add: eng_inv_def wf_inv_def)
  note up = upsert_keeps_task [OF ok r]
  show ?thesis
  proof (cases op)
    case (Plan env task agents)
    have "w \<in> workflow_ids (eng_db s)" using ok w find_by_SomeD [OF r] by (auto simp: db_ok_def tasks_ok_def)
    then have "checkpoint_name (Suc (length (workflows (eng_db s)))) \<noteq> w"
      using fresh_checkpoint wf by (auto simp: wf_inv_def)
    with Plan w show ?thesis by (simp add: plan_eq [OF scan(1) wf] Let_def up)
  next
    case (Execute env k)
    with r op w show ?thesis
      by (auto simp: execute_eq Let_def stored_doc [OF inv] execute_doc_ok up split: sum.split)
  next
    case (Recover env k)
    with r op w show ?thesis
      by (auto simp: recover_eq' Let_def recover_doc_def stored_doc [OF inv] up split: sum.split)
  next
    case (Work l)
    with op show ?thesis by (simp add: lease_step_keeps_row [OF scan(2) ok r held])
  qed
qed

lemma eng_run_keeps_task:
  assumes scan: "reorders scan" "reorders scan'" and held: "holds_lease a e r"
  shows "eng_inv t s \<Longrightarrow> find_by wt_id tid (workflow_tasks (eng_db s)) = Some r \<Longrightarrow>
    \<forall>op \<in> set ops. keeps_claim (wt_workflow_id r) tid a e op \<Longrightarrow>
    eng_inv t (fold (eng_step scan scan' t) ops s) \<and>
    find_by wt_id tid (workflow_tasks (eng_db (fold (eng_step scan scan' t) ops s))) = Some r"
proof (induction ops arbitrary: s)
  case (Cons op ops)
  then show ?case
    using eng_step_inv [OF scan(1)] eng_step_keeps_task [OF scan _ _ held refl] by simp
qed simp

text \<open>
  C26: A lease is exclusive until it ends, in every run of the engine whose calls come one after the other. After
  worker \<open>a\<close> has leased a task of workflow \<open>w\<close>, whatever plans, executions and recoveries of other workflows, leases, marks by
  others and sweeps up to the expiry follow, no worker is handed the task, no other worker can
  mark it, and the holder's mark succeeds and ends it. What ends a lease early is thus the holder's mark, a
  sweep after the expiry, or an execution or recovery of the workflow itself, which re-creates its tasks.
\<close>

theorem lease_exclusive:
  assumes scan: "reorders scan" "reorders scan'"
    and l: "lease_next_task scan' t w a sec n (eng_db (eng_run t now scan scan' before)) = (Inr (Some tid), d1)"
    and ops: "\<forall>op \<in> set ops. keeps_claim w tid a (n + sec) op"
    and d2: "d2 = eng_db (eng_run t now scan scan' (before @ Work (Lease t w a sec n) # ops))"
  shows "fst (lease_next_task scan' t' w' b s' n' d2) \<noteq> Inr (Some tid) \<and>
    (b \<noteq> a \<longrightarrow> mark_task_succeeded t' tid b n' d2 = (Inr False, d2)) \<and>
    (\<exists>d3 r. mark_task_succeeded t tid a n' d2 = (Inr True, d3) \<and>
       find_by wt_id tid (workflow_tasks d3) = Some r \<and> wt_status r = ''SUCCEEDED'')"
proof -
  let ?s = "eng_run t now scan scan' before"
  have inv: "eng_inv t ?s" by (rule eng_run_inv [OF scan(1)])
  then have ok: "db_ok (eng_db ?s)" by (simp add: eng_inv_def wf_inv_def)
  from lease_granted [OF scan(2) ok l] obtain r where r: "find_by wt_id tid (workflow_tasks d1) = Some r"
      "holds_lease a (n + sec) r" "wt_tenant_id r = t" "wt_workflow_id r = w" by blast
  let ?s1 = "eng_step scan scan' t (Work (Lease t w a sec n)) ?s"
  have "eng_inv t ?s1" by (rule eng_step_inv [OF scan(1) inv])
  moreover have "eng_db ?s1 = d1" using l by simp
  moreover have "eng_run t now scan scan' (before @ Work (Lease t w a sec n) # ops) = fold (eng_step scan scan' t) ops ?s1"
    by (simp add: eng_run_def)
  ultimately have "find_by wt_id tid (workflow_tasks d2) = Some r" and "db_ok d2"
    using eng_run_keeps_task [OF scan r(2), of t ?s1 tid ops] r ops
    by (simp_all add: d2 eng_inv_def wf_inv_def del: eng_step.simps)
  then show ?thesis using held_lease_excludes [OF scan(2) _ _ r(2,3)] by blast
qed

theorem lease_exclusive_witness:
  "let plan1 = Plan \<lparr>fresh_event = ''e1'', wf_now = 10\<rparr> ''ship'' (Some [''architect'', ''reviewer'']);
       ops = [Plan \<lparr>fresh_event = ''e2'', wf_now = 12\<rparr> ''other'' None, Execute \<lparr>fresh_event = ''e3'', wf_now = 13\<rparr> ''checkpoint-2'',
              Work (Lease ''legacy'' ''checkpoint-1'' ''b'' 30 20), Work (Sweep ''legacy'' 41)];
       d2 = eng_db (eng_run ''legacy'' 0 (\<lambda>rows. rows) (\<lambda>rows. rows) ([plan1] @ Work (Lease ''legacy'' ''checkpoint-1'' ''a'' 30 11) # ops))
   in mark_task_succeeded ''legacy'' ''checkpoint-1:step-1'' ''b'' 42 d2 = (Inr False, d2)"
proof -
  let ?plan1 = "Plan \<lparr>fresh_event = ''e1'', wf_now = 10\<rparr> ''ship'' (Some [''architect'', ''reviewer''])"
  let ?ops = "[Plan \<lparr>fresh_event = ''e2'', wf_now = 12\<rparr> ''other'' None, Execute \<lparr>fresh_event = ''e3'', wf_now = 13\<rparr> ''checkpoint-2'',
              Work (Lease ''legacy'' ''checkpoint-1'' ''b'' 30 20), Work (Sweep ''legacy'' 41)]"
  let ?l = "lease_next_task (\<lambda>rows. rows) ''legacy'' ''checkpoint-1'' ''a'' 30 11 (eng_db (eng_run ''legacy'' 0 (\<lambda>rows. rows) (\<lambda>rows. rows) [?plan1]))"
  have "fst ?l = Inr (Some ''checkpoint-1:step-1'')" by code_simp
  then have l: "?l = (Inr (Some ''checkpoint-1:step-1''), snd ?l)" by (metis prod.collapse)
  have "\<forall>op \<in> set ?ops. keeps_claim ''checkpoint-1'' ''checkpoint-1:step-1'' ''a'' (11 + 30) op" by simp
  from lease_exclusive [OF reorders_id reorders_id l this refl, where b = "''b''" and t' = "''legacy''" and n' = 42] show ?thesis
    unfolding Let_def by auto
qed

text \<open>
  The last exception is real: a recovery of the workflow in between drops the lease, and a second
  worker is handed the task while the first still works on it.
\<close>

lemma recovery_drops_lease:
  "let s = eng_run ''legacy'' 0 (\<lambda>rows. rows) (\<lambda>rows. rows)
         [Plan \<lparr>fresh_event = ''e1'', wf_now = 10\<rparr> ''ship'' (Some [''architect'']), Work (Lease ''legacy'' ''checkpoint-1'' ''a'' 30 11),
          Recover \<lparr>fresh_event = ''e2'', wf_now = 12\<rparr> ''checkpoint-1'']
   in fst (lease_next_task (\<lambda>rows. rows) ''legacy'' ''checkpoint-1'' ''b'' 30 13 (eng_db s)) = Inr (Some ''checkpoint-1:step-1'')"
  by code_simp

text \<open>
  Checkpoint ids count the checkpoints of the planning tenant only, while the workflow and
  task tables are keyed by the id alone: when two tenants share a database, the second tenant's
  first plan collides with the first tenant's tasks and fails with an integrity error; its
  document stays in \<open>runs\<close> although nothing was stored.
\<close>

lemma second_tenant_plan_fails:
  "let s1 = snd (plan (\<lambda>rows. rows) \<lparr>fresh_event = ''e1'', wf_now = 1\<rparr> ''a'' ''x'' None (new_engine ''a'' 0));
       s2 = \<lparr>eng_db = snd (ensure_tenant ''b'' None 0 (eng_db s1)), eng_runs = []\<rparr>;
       res = plan (\<lambda>rows. rows) \<lparr>fresh_event = ''e2'', wf_now = 2\<rparr> ''b'' ''y'' None s2
   in fst res = Inl (IntegrityError ''workflow_tasks'') \<and> map doc_task (eng_runs (snd res)) = [''y''] \<and>
      fst (wf_list (\<lambda>rows. rows) ''b'' (eng_db (snd res))) = Inr []"
  by code_simp

end
