(* ===== verification/Concurrent_Workers.thy ===== *)
theory Concurrent_Workers
  imports Orchestration
begin

section \<open>Concurrent workers of the workflow engine\<close>

text \<open>
  The calls of \<^verbatim>\<open>orchestration.py\<close> split where another session can commit in between, as theory
  \<^verbatim>\<open>Concurrent_Sessions\<close> does for the memory store. \<^verbatim>\<open>lease_next_task\<close> reads the task in a SELECT
  and writes it when the session commits; \<^verbatim>\<open>plan\<close>, \<^verbatim>\<open>execute\<close> and \<^verbatim>\<open>recover\<close> read in one session
  and write in another.

  Shown: each pair of phases, run without interference, is the operation of theories
  \<^verbatim>\<open>Workflow_Store\<close> and \<^verbatim>\<open>Orchestration\<close>. Unlike the memory store nothing in the schema makes the
  second of two racing sessions fail: the runs at the end hand one task to two workers, let one plan
  overwrite another and execute one workflow twice. The theorems on leases and runs of the engine
  are theorems about calls that do not overlap.
\<close>

subsection \<open>Phases\<close>

definition lease_read ::
    "(WorkflowTaskRow list \<Rightarrow> WorkflowTaskRow list) \<Rightarrow> string \<Rightarrow> string \<Rightarrow> db \<Rightarrow> WorkflowTaskRow option" where
  "lease_read scan tenant workflow d =
     (case sort_key wt_created_at (scan (filter (leasable tenant workflow) (workflow_tasks d))) of
        [] \<Rightarrow> None | task # _ \<Rightarrow> Some task)"

text \<open>The UPDATE of the columns that differ from the row as it was read.\<close>

definition stale_grant :: "string \<Rightarrow> int \<Rightarrow> int \<Rightarrow> WorkflowTaskRow \<Rightarrow> WorkflowTaskRow \<Rightarrow> WorkflowTaskRow" where
  "stale_grant worker secs now task cur =
     cur\<lparr>wt_status := ''RUNNING'',
         wt_lease_owner := (if wt_lease_owner task = Some worker then wt_lease_owner cur else Some worker),
         wt_lease_expires_at := (if wt_lease_expires_at task = Some (now + secs)
            then wt_lease_expires_at cur else Some (now + secs)),
         wt_attempts := wt_attempts task + 1,
         wt_updated_at := (if wt_updated_at task = now then wt_updated_at cur else now)\<rparr>"

definition lease_write ::
    "string \<Rightarrow> int \<Rightarrow> int \<Rightarrow> WorkflowTaskRow option \<Rightarrow> (db, string option) sop" where
  "lease_write worker secs now found = with_session (
     case found of
       None \<Rightarrow> op_return None
     | Some task \<Rightarrow>
        op_bind (op_get (\<lambda>d. wt_id task \<in> wt_id ` set (workflow_tasks d))) (\<lambda>matched.
        if \<not> matched then op_raise (StaleDataError ''workflow_tasks'')
        else op_bind (update_task (wt_id task) (stale_grant worker secs now task)) (\<lambda>_.
             op_return (Some (wt_id task)))))"

definition plan_read ::
    "(WorkflowCheckpointRow list \<Rightarrow> WorkflowCheckpointRow list) \<Rightarrow> wf_env \<Rightarrow> string \<Rightarrow> string \<Rightarrow>
     string list option \<Rightarrow> (engine, workflow_doc) sop" where
  "plan_read scan env tenant task agents =
     op_bind (on_db (wf_list scan tenant)) (\<lambda>docs.
     op_return (plan_doc (wf_now env) (''checkpoint-'' @ str_of_nat (length docs + 1)) task (plan_agents agents)))"

definition plan_write :: "wf_env \<Rightarrow> string \<Rightarrow> workflow_doc \<Rightarrow> (engine, workflow_doc) sop" where
  "plan_write env tenant workflow =
     op_bind (op_modify (\<lambda>s. s\<lparr>eng_runs := eng_runs s @ [workflow]\<rparr>)) (\<lambda>_.
     op_bind (on_db (upsert_workflow env tenant workflow)) (\<lambda>_. op_return workflow))"

definition execute_write :: "wf_env \<Rightarrow> string \<Rightarrow> string \<Rightarrow> workflow_doc \<Rightarrow> (engine, workflow_doc) sop" where
  "execute_write env tenant checkpoint workflow =
     (if doc_status workflow \<notin> set [''planned'', ''recovered'', ''running''] then op_return workflow
      else let workflow = execute_doc (wf_now env) checkpoint workflow in
        op_bind (on_db (upsert_workflow env tenant workflow)) (\<lambda>_. op_return workflow))"

definition recover_write :: "wf_env \<Rightarrow> string \<Rightarrow> workflow_doc \<Rightarrow> (engine, workflow_doc) sop" where
  "recover_write env tenant workflow =
     (let recovered = recover_doc (wf_now env) workflow in
      op_bind (on_db (upsert_workflow env tenant recovered)) (\<lambda>_. op_return recovered))"

subsection \<open>Without interference\<close>

lemma stale_grant_current:
  "leasable t w task \<Longrightarrow> stale_grant worker secs now task task = grant worker secs now task"
  by (auto simp: stale_grant_def grant_def)

lemma lease_read_SomeD:
  assumes "reorders scan" and "lease_read scan t w d = Some task"
  shows "task \<in> set (workflow_tasks d)" and "leasable t w task"
proof -
  let ?ts = "scan (filter (leasable t w) (workflow_tasks d))"
  from assms(2) obtain ts where "sort_key wt_created_at ?ts = task # ts"
    by (auto simp: lease_read_def split: list.splits)
  then have "task \<in> set (sort_key wt_created_at ?ts)" by simp
  then have "task \<in> set ?ts" by simp
  also have "set ?ts = set (filter (leasable t w) (workflow_tasks d))"
    by (rule set_reordered [OF assms(1)])
  finally show "task \<in> set (workflow_tasks d)" and "leasable t w task" by simp_all
qed

lemma lease_alone:
  assumes scan: "reorders scan" and ok: "db_ok d"
  shows "lease_write a secs now (lease_read scan t w d) d = lease_next_task scan t w a secs now d"
proof (cases "lease_read scan t w d")
  case None
  then have "sort_key wt_created_at (scan (filter (leasable t w) (workflow_tasks d))) = []"
    by (auto simp: lease_read_def split: list.splits)
  with None show ?thesis by (simp add: lease_write_def lease_next_task_def with_session_def)
next
  case (Some task)
  note task = lease_read_SomeD [OF scan Some]
  have "stale_grant a secs now task r = grant a secs now r" if "r \<in> set (workflow_tasks d)" "wt_id r = wt_id task" for r
  proof -
    have "r = task" using ok that task(1) by (auto simp: db_ok_def tasks_ok_def distinct_map inj_onD)
    then show ?thesis by (simp add: stale_grant_current [OF task(2)])
  qed
  then have "update_task (wt_id task) (stale_grant a secs now task) d = update_task (wt_id task) (grant a secs now) d"
    by (auto simp: update_task_def update_by_def checked_def intro!: arg_cong [where f = "\<lambda>ts. d\<lparr>workflow_tasks := ts\<rparr>"])
  moreover obtain ts where "sort_key wt_created_at (scan (filter (leasable t w) (workflow_tasks d))) = task # ts"
    using Some by (auto simp: lease_read_def split: list.splits)
  moreover have "wt_id task \<in> wt_id ` set (workflow_tasks d)" using task(1) by simp
  ultimately show ?thesis
    using Some by (simp add: lease_write_def lease_next_task_def with_session_def op_bind_def)
qed

lemma plan_alone: "plan scan env t task agents = op_bind (plan_read scan env t task agents) (plan_write env t)"
  by (rule ext) (simp add: plan_def plan_read_def plan_write_def op_bind_def Let_def split: prod.split sum.split)

lemma execute_alone: "execute env t k = op_bind (on_db (wf_get t k)) (execute_write env t k)"
  by (simp add: execute_def execute_write_def [abs_def])

lemma recover_alone: "recover env t k = op_bind (on_db (wf_get t k)) (recover_write env t)"
  by (simp add: recover_def recover_write_def [abs_def])


subsection \<open>Runs that overlap\<close>

definition race_example_doc :: "workflow_doc" where
  "race_example_doc = plan_doc 10 ''checkpoint-1'' ''ship'' [''architect'']"

text \<open>Two workers ask for a task at the same time: both are handed the same one.\<close>

lemma double_lease:
  "let read_a = lease_read (\<lambda>rows. rows) ''legacy'' ''checkpoint-1'' example_tasks_db;
       read_b = lease_read (\<lambda>rows. rows) ''legacy'' ''checkpoint-1'' example_tasks_db;
       (a, d1) = lease_write ''a'' 30 100 read_a example_tasks_db;
       (b, d2) = lease_write ''b'' 30 100 read_b d1
   in a = Inr (Some ''checkpoint-1:step-1'') \<and> b = Inr (Some ''checkpoint-1:step-1'') \<and>
      map wt_lease_owner (workflow_tasks d2) = [Some ''b'', None] \<and> map wt_attempts (workflow_tasks d2) = [1, 0]"
  by code_simp

text \<open>
  Two plans read the list of checkpoints before either writes: both return the same checkpoint, one
  workflow exists, under the task of the first, and what is executed is the second.
\<close>

lemma plans_collide:
  "let env1 = \<lparr>fresh_event = ''e1'', wf_now = 10\<rparr>; env2 = \<lparr>fresh_event = ''e2'', wf_now = 10\<rparr>;
       (r1, s1) = plan_read (\<lambda>rows. rows) env1 ''legacy'' ''ship'' None (new_engine ''legacy'' 0);
       (r2, s2) = plan_read (\<lambda>rows. rows) env2 ''legacy'' ''test'' None s1;
       (w1, s3) = plan_write env1 ''legacy'' (projr r1) s2;
       (w2, s4) = plan_write env2 ''legacy'' (projr r2) s3
   in map_sum (\<lambda>_. ()) (\<lambda>w. (doc_checkpoint w, doc_task w)) w1 = Inr (''checkpoint-1'', ''ship'') \<and>
      map_sum (\<lambda>_. ()) (\<lambda>w. (doc_checkpoint w, doc_task w)) w2 = Inr (''checkpoint-1'', ''test'') \<and>
      map w_task (workflows (eng_db s4)) = [''ship''] \<and>
      map (\<lambda>c. doc_task (wc_state c)) (workflow_checkpoints (eng_db s4)) = [''test'']"
  by code_simp

text \<open>Two executions of one checkpoint read it before either writes: both run its steps.\<close>

lemma executed_twice:
  "let env1 = \<lparr>fresh_event = ''e1'', wf_now = 10\<rparr>; env2 = \<lparr>fresh_event = ''e2'', wf_now = 11\<rparr>;
       env3 = \<lparr>fresh_event = ''e3'', wf_now = 12\<rparr>;
       (w, s0) = plan_write env1 ''legacy'' race_example_doc (new_engine ''legacy'' 0);
       (r1, s1) = on_db (wf_get ''legacy'' ''checkpoint-1'') s0;
       (r2, s2) = on_db (wf_get ''legacy'' ''checkpoint-1'') s1;
       (w1, s3) = execute_write env2 ''legacy'' ''checkpoint-1'' (projr r1) s2;
       (w2, s4) = execute_write env3 ''legacy'' ''checkpoint-1'' (projr r2) s3
   in map_sum (\<lambda>_. ()) (\<lambda>w. map (\<lambda>st. length (step_observations st)) (doc_steps w)) w1 = Inr [1] \<and>
      map_sum (\<lambda>_. ()) (\<lambda>w. map (\<lambda>st. length (step_observations st)) (doc_steps w)) w2 = Inr [1] \<and>
      map w_version (workflows (eng_db s4)) = [3]"
  by code_simp

end
