(* ===== verification/Memory_Store.thy ===== *)
theory Memory_Store
  imports Database Access_Control "HOL-Library.Multiset"
begin

section \<open>The durable memory store (memory/core.py)\<close>

text \<open>
  \<^verbatim>\<open>DurableMemoryStore\<close> and \<^verbatim>\<open>MemoryLayer\<close> of \<^verbatim>\<open>agi_platform/memory/core.py\<close> over the tables of
  theory \<^verbatim>\<open>Database\<close>. The configuration of a store holds the digest (SHA-256 in the code: the
  theorems hold for any function, and say where they need it to have no collision), the \<^verbatim>\<open>str\<close> of
  composite values and whether Qdrant is available. What the world supplies to one call, the ids
  \<^verbatim>\<open>new_id\<close> draws and the clock, is the record \<open>call_env\<close>: every \<^verbatim>\<open>now_ts()\<close> of one call reads
  the same second. \<open>scan\<close> is the order in which the engine returns the rows of a SELECT.

  Shown: every operation keeps the integrity of the database and the history invariant
  (\<open>linked\<close>: the versions of a memory are 1 to its current version, one row each, and the last
  one holds the current content); writes stay within the caller's tenant; \<open>update\<close> is an atomic
  compare-and-swap on the version; \<open>rollback\<close> restores every recorded version; \<open>search\<close> returns
  the best matches of the caller's tenant, in order.
\<close>

subsection \<open>Records and configuration\<close>

record memory_config =
  digest :: "string \<Rightarrow> string"
  py_repr :: "json \<Rightarrow> string"
  qdrant_available :: bool

record call_env =
  fresh_evidence :: string
  fresh_audit :: string
  now_ts :: int

record memory_record =
  r_id :: string
  r_tenant_id :: string
  r_namespace :: string
  r_content :: string
  r_memory_type :: json
  r_metadata :: "(string, json) dict"
  r_embedding_id :: "string option"
  r_provenance :: json
  r_source :: string
  r_confidence :: rat
  r_version :: int
  r_status :: string
  r_retention :: json
  r_created_at :: int
  r_updated_at :: int
  r_archived :: bool

definition memory_type_of :: "MemoryRow \<Rightarrow> json" where
  "memory_type_of row = dict_get_default (m_metadata row) ''memory_type'' (JStr ''semantic'')"

definition to_record :: "MemoryRow \<Rightarrow> memory_record" where
  "to_record row = \<lparr>r_id = m_id row, r_tenant_id = m_tenant_id row,
     r_namespace = m_namespace row, r_content = m_content row,
     r_memory_type = memory_type_of row, r_metadata = m_metadata row,
     r_embedding_id = m_embedding_id row, r_provenance = m_provenance row,
     r_source = m_source row, r_confidence = m_confidence row, r_version = m_version row,
     r_status = m_status row, r_retention = m_retention row, r_created_at = m_created_at row,
     r_updated_at = m_updated_at row, r_archived = (m_status row \<noteq> ''ACTIVE'')\<rparr>"

subsection \<open>store\<close>

definition memory_key :: "string \<Rightarrow> string \<Rightarrow> string \<Rightarrow> string \<Rightarrow> string" where
  "memory_key tenant namespace memory_type content =
     colon_key tenant (colon_key namespace (colon_key memory_type content))"

definition audit_row ::
    "call_env \<Rightarrow> TenantContext \<Rightarrow> string \<Rightarrow> string \<Rightarrow> (string, json) dict \<Rightarrow> AuditEventRow" where
  "audit_row env ctx action target md = \<lparr>ae_id = fresh_audit env, ae_tenant_id = ctx_tenant_id ctx,
     ae_actor = id_subject (ctx_identity ctx), ae_action = action, ae_target = target,
     ae_result = ''succeeded'', ae_metadata = md, ae_created_at = now_ts env\<rparr>"

definition evidence_row :: "call_env \<Rightarrow> string \<Rightarrow> MemoryRow \<Rightarrow> MemoryEvidenceRow" where
  "evidence_row env tenant row = \<lparr>me_id = fresh_evidence env, me_tenant_id = tenant,
     me_memory_id = m_id row, me_source = m_source row, me_evidence = m_provenance row,
     me_created_at = now_ts env\<rparr>"

definition insert_memory ::
    "call_env \<Rightarrow> string \<Rightarrow> MemoryRow \<Rightarrow> (db, MemoryRow) sop" where
  "insert_memory env tenant row =
     op_bind (add_memory row) (\<lambda>_.
     op_bind (add_memory_version tenant (m_id row) 1 (m_content row) (m_provenance row) (now_ts env)) (\<lambda>_.
     op_bind (add_evidence (evidence_row env tenant row)) (\<lambda>_.
     op_return row)))"

text \<open>\<^verbatim>\<open>metadata or {}\<close>, the namespace and the digest that is the id of the memory.\<close>

definition metadata_of :: "(string, json) dict option \<Rightarrow> (string, json) dict" where
  "metadata_of md = (case md of None \<Rightarrow> [] | Some m \<Rightarrow> m)"

definition namespace_of :: "memory_config \<Rightarrow> (string, json) dict option \<Rightarrow> string" where
  "namespace_of c md =
     py_str (py_repr c) (dict_get_default (metadata_of md) ''namespace'' (JStr ''default''))"

definition store_id :: "memory_config \<Rightarrow> string \<Rightarrow> string \<Rightarrow> string \<Rightarrow> (string, json) dict option \<Rightarrow> string" where
  "store_id c tenant content memory_type md =
     digest c (memory_key tenant (namespace_of c md) memory_type content)"

definition new_row ::
    "memory_config \<Rightarrow> call_env \<Rightarrow> string \<Rightarrow> string \<Rightarrow> string \<Rightarrow> (string, json) dict option \<Rightarrow> rat \<Rightarrow> MemoryRow" where
  "new_row c env tenant content memory_type md confidence =
     (let metadata = metadata_of md;
          source = dict_get_default metadata ''source'' (JStr ''api'');
          digest = store_id c tenant content memory_type md
      in \<lparr>m_id = digest, m_tenant_id = tenant, m_namespace = namespace_of c md,
          m_content = content,
          m_embedding_id = (if qdrant_available c then Some (''qdrant:'' @ digest) else None),
          m_provenance = dict_get_default metadata ''provenance'' (JObj [(''source'', source)]),
          m_source = py_str (py_repr c) source, m_confidence = confidence, m_status = ''ACTIVE'',
          m_retention = dict_get_default metadata ''retention'' (JObj []),
          m_metadata = dict_set ''memory_type'' (JStr memory_type) metadata,
          m_version = 1, m_created_at = now_ts env, m_updated_at = now_ts env\<rparr>)"

definition find_or_insert ::
    "memory_config \<Rightarrow> call_env \<Rightarrow> string \<Rightarrow> string \<Rightarrow> string \<Rightarrow> (string, json) dict option \<Rightarrow>
     (db, MemoryRow) sop" where
  "find_or_insert c env tenant content memory_type md d =
     (case find_by m_id (store_id c tenant content memory_type md) (memories d) of
        Some row \<Rightarrow> op_return row d
      | None \<Rightarrow>
         (case py_float (dict_get_default (metadata_of md) ''confidence'' (JFloat 1)) of
            Inl e \<Rightarrow> op_raise e d
          | Inr None \<Rightarrow> op_raise (IntegrityError ''memories'') d
          | Inr (Some confidence) \<Rightarrow>
             insert_memory env tenant (new_row c env tenant content memory_type md confidence) d))"

definition store ::
    "memory_config \<Rightarrow> call_env \<Rightarrow> TenantContext \<Rightarrow> string \<Rightarrow> string \<Rightarrow> (string, json) dict option \<Rightarrow>
     (db, memory_record) sop" where
  "store c env ctx content memory_type md =
     (let tenant = ctx_tenant_id ctx;
          digest = store_id c tenant content memory_type md
      in op_bind (ensure_tenant tenant None (now_ts env)) (\<lambda>_.
      with_session (
       op_bind (find_or_insert c env tenant content memory_type md) (\<lambda>row.
       op_bind (add_audit (audit_row env ctx ''memory.write'' digest
           [(''qdrant_available'', JBool (qdrant_available c))])) (\<lambda>_.
       op_return (to_record row))))))"

subsection \<open>search\<close>

definition tokens :: "string \<Rightarrow> string list" where
  "tokens s = remdups (split_ws (lower s))"

definition overlap :: "string \<Rightarrow> string \<Rightarrow> nat" where
  "overlap q s = length (filter (\<lambda>t. t \<in> set (tokens s)) (tokens q))"

definition score :: "string \<Rightarrow> string \<Rightarrow> rat" where
  "score query content = of_nat (overlap query content) / of_nat (max (length (tokens query)) 1)"

definition active_rows :: "string \<Rightarrow> db \<Rightarrow> MemoryRow list" where
  "active_rows tenant d =
     filter (\<lambda>r. m_tenant_id r = tenant \<and> m_status r = ''ACTIVE'') (memories d)"

record search_hit =
  hit_record :: memory_record
  hit_score :: rat

definition search ::
    "(MemoryRow list \<Rightarrow> MemoryRow list) \<Rightarrow> TenantContext \<Rightarrow> string \<Rightarrow> int \<Rightarrow> (db, search_hit list) sop" where
  "search scan ctx query limit = with_session (op_get (\<lambda>d.
     let rows = scan (active_rows (ctx_tenant_id ctx) d);
         ranked = map (\<lambda>row. (score query (m_content row), to_record row))
                    (filter (\<lambda>row. 0 < score query (m_content row)) rows);
         sorted = sort_key (\<lambda>item. - fst item) ranked
     in map (\<lambda>(s, r). \<lparr>hit_record = r, hit_score = s\<rparr>) (slice_to limit sorted)))"

subsection \<open>update, rollback, consolidate\<close>

definition set_content :: "string \<Rightarrow> int \<Rightarrow> MemoryRow \<Rightarrow> MemoryRow" where
  "set_content content now row =
     row\<lparr>m_content := content, m_version := m_version row + 1, m_updated_at := now\<rparr>"

definition write_version ::
    "call_env \<Rightarrow> TenantContext \<Rightarrow> string \<Rightarrow> string \<Rightarrow> json \<Rightarrow> MemoryRow \<Rightarrow> (string, json) dict \<Rightarrow>
     string \<Rightarrow> (db, memory_record) sop" where
  "write_version env ctx action content provenance row md memory_id =
     (let row' = set_content content (now_ts env) row in
      op_bind (update_memory memory_id (set_content content (now_ts env))) (\<lambda>_.
      op_bind (add_memory_version (ctx_tenant_id ctx) memory_id (m_version row') content provenance
        (now_ts env)) (\<lambda>_.
      op_bind (add_audit (audit_row env ctx action memory_id md)) (\<lambda>_.
      op_return (to_record row')))))"

definition update ::
    "call_env \<Rightarrow> TenantContext \<Rightarrow> string \<Rightarrow> string \<Rightarrow> int \<Rightarrow> (db, memory_record) sop" where
  "update env ctx memory_id content expected_version = with_session (
     op_bind (op_get (\<lambda>d. find_by m_id memory_id (memories d))) (\<lambda>found.
     case found of
       None \<Rightarrow> op_raise (KeyError memory_id)
     | Some row \<Rightarrow>
         if m_tenant_id row \<noteq> ctx_tenant_id ctx then op_raise (KeyError memory_id)
         else if m_version row \<noteq> expected_version then
           op_raise (OptimisticConcurrencyError ''stale memory version'')
         else write_version env ctx ''memory.update'' content (m_provenance row) row
                [(''version'', JInt (m_version row + 1))] memory_id))"

definition versions_of :: "string \<Rightarrow> string \<Rightarrow> int \<Rightarrow> db \<Rightarrow> MemoryVersionRow list" where
  "versions_of tenant memory_id version d =
     filter (\<lambda>r. mv_key r = (tenant, memory_id, version)) (memory_versions d)"

definition scalar_one_or_none :: "'r list \<Rightarrow> (db, 'r option) sop" where
  "scalar_one_or_none rs = (case rs of [] \<Rightarrow> op_return None | [r] \<Rightarrow> op_return (Some r)
     | _ \<Rightarrow> op_raise MultipleResultsFound)"

definition rollback ::
    "call_env \<Rightarrow> TenantContext \<Rightarrow> string \<Rightarrow> int \<Rightarrow> (db, memory_record) sop" where
  "rollback env ctx memory_id version = with_session (
     op_bind (op_get (\<lambda>d. find_by m_id memory_id (memories d))) (\<lambda>found.
     op_bind (op_get (versions_of (ctx_tenant_id ctx) memory_id version)) (\<lambda>targets.
     op_bind (scalar_one_or_none targets) (\<lambda>target.
     case (found, target) of
       (Some row, Some t) \<Rightarrow>
         if m_tenant_id row \<noteq> ctx_tenant_id ctx then op_raise (KeyError memory_id)
         else write_version env ctx ''memory.rollback'' (mv_content t) (mv_provenance t) row
                [(''to_version'', JInt version)] memory_id
     | _ \<Rightarrow> op_raise (KeyError memory_id)))))"

fun by_type :: "MemoryRow list \<Rightarrow> (json, string list) dict \<Rightarrow> (json, string list) dict result" where
  "by_type [] acc = Inr acc"
| "by_type (row # rows) acc =
     (let k = memory_type_of row in
      if \<not> hashable k then Inl (TypeError ''unhashable type'')
      else by_type rows (dict_set k (dict_get_default acc k [] @ [m_content row]) acc))"

definition consolidate ::
    "(MemoryRow list \<Rightarrow> MemoryRow list) \<Rightarrow> TenantContext \<Rightarrow> (db, (json, string) dict \<times> nat) sop" where
  "consolidate scan ctx = with_session (
     op_bind (op_get (\<lambda>d. scan (active_rows (ctx_tenant_id ctx) d))) (\<lambda>rows.
     case by_type rows [] of
       Inl e \<Rightarrow> op_raise e
     | Inr groups \<Rightarrow> op_return (map (\<lambda>(k, vs). (k, take 500 (join '' '' vs))) groups, length rows)))"

subsection \<open>The layer the API calls\<close>

definition with_context :: "TenantContext option \<Rightarrow> (TenantContext \<Rightarrow> (db, 'a) sop) \<Rightarrow> (db, 'a) sop" where
  "with_context ctx f = (case ctx of
     None \<Rightarrow> op_raise (PermissionError ''tenant context required'') | Some c \<Rightarrow> f c)"

definition layer_store where
  "layer_store c env content memory_type md ctx =
     with_context ctx (\<lambda>x. store c env x content memory_type md)"

definition layer_search where
  "layer_search scan query limit ctx = with_context ctx (\<lambda>x. search scan x query limit)"

definition layer_update where
  "layer_update env memory_id content expected_version ctx =
     with_context ctx (\<lambda>x. update env x memory_id content expected_version)"

definition layer_rollback where
  "layer_rollback env memory_id version ctx =
     with_context ctx (\<lambda>x. rollback env x memory_id version)"

definition layer_consolidate where
  "layer_consolidate scan ctx = with_context ctx (consolidate scan)"

definition records_clear :: "(db, unit) sop" where
  "records_clear = with_session (op_modify (\<lambda>d. d\<lparr>audit_events := [], memory_evidence := [],
     memory_versions := [], memories := []\<rparr>))"

definition records_values :: "(MemoryRow list \<Rightarrow> MemoryRow list) \<Rightarrow> (db, memory_record list) sop" where
  "records_values scan = with_session (op_get (\<lambda>d. map to_record (scan (memories d))))"

subsection \<open>What a successful call leaves behind\<close>

lemma row_sels [simp]:
  "me_id (evidence_row env t row) = fresh_evidence env" "me_tenant_id (evidence_row env t row) = t"
  "me_memory_id (evidence_row env t row) = m_id row"
  "ae_id (audit_row env ctx a k md) = fresh_audit env"
  "ae_tenant_id (audit_row env ctx a k md) = ctx_tenant_id ctx"
  "ae_target (audit_row env ctx a k md) = k" "ae_action (audit_row env ctx a k md) = a"
  "ae_actor (audit_row env ctx a k md) = id_subject (ctx_identity ctx)"
  "m_id (set_content c n row) = m_id row" "m_tenant_id (set_content c n row) = m_tenant_id row"
  "m_status (set_content c n row) = m_status row" "m_version (set_content c n row) = m_version row + 1"
  "m_content (set_content c n row) = c" "m_confidence (set_content c n row) = m_confidence row"
  by (simp_all add: evidence_row_def audit_row_def set_content_def)

lemma audit_check_row [simp]: "audit_check (audit_row env ctx a k md)"
  by (simp add: audit_check_def audit_row_def)

definition inserted :: "call_env \<Rightarrow> string \<Rightarrow> MemoryRow \<Rightarrow> db \<Rightarrow> db" where
  "inserted env t row d = d\<lparr>memories := memories d @ [row],
     memory_versions := memory_versions d @
       [version_row d t (m_id row) 1 (m_content row) (m_provenance row) (now_ts env)],
     memory_evidence := memory_evidence d @ [evidence_row env t row]\<rparr>"

definition rewritten ::
    "call_env \<Rightarrow> TenantContext \<Rightarrow> string \<Rightarrow> string \<Rightarrow> json \<Rightarrow> MemoryRow \<Rightarrow> (string, json) dict \<Rightarrow> string \<Rightarrow> db \<Rightarrow> db" where
  "rewritten env ctx a c p row md k d =
     d\<lparr>memories := update_by m_id k (set_content c (now_ts env)) (memories d),
       memory_versions := memory_versions d @
         [version_row d (ctx_tenant_id ctx) k (m_version row + 1) c p (now_ts env)],
       audit_events := audit_events d @ [audit_row env ctx a k md]\<rparr>"

lemma insert_memory_Inr:
  assumes "insert_memory env t row d = (Inr row', d')"
  shows "row' = row \<and> m_id row \<notin> memory_ids d \<and> d' = inserted env t row d"
  using assms unfolding insert_memory_def add_memory_def add_memory_version_def add_evidence_def
  by (elim op_bind_InrE) (auto simp: checked_Inr inserted_def)

lemma write_version_Inr:
  assumes "write_version env ctx a c p row md k d = (Inr r, d')"
  shows "r = to_record (set_content c (now_ts env) row) \<and> d' = rewritten env ctx a c p row md k d"
  using assms unfolding write_version_def update_memory_def add_memory_version_def add_audit_def Let_def
  by (elim op_bind_InrE) (auto simp: checked_Inr rewritten_def)

lemma new_row_sels [simp]:
  "m_id (new_row c env t x ty md cf) = store_id c t x ty md"
  "m_tenant_id (new_row c env t x ty md cf) = t"
  "m_namespace (new_row c env t x ty md cf) = namespace_of c md"
  "m_content (new_row c env t x ty md cf) = x" "m_version (new_row c env t x ty md cf) = 1"
  "m_status (new_row c env t x ty md cf) = ''ACTIVE''"
  "m_metadata (new_row c env t x ty md cf) = dict_set ''memory_type'' (JStr ty) (metadata_of md)"
  unfolding new_row_def Let_def by simp_all

lemma memory_type_new_row [simp]: "memory_type_of (new_row c env t x ty md cf) = JStr ty"
  by (simp only: memory_type_of_def new_row_sels dict_get_default_def dict_get_set refl if_True option.case)

text \<open>A call that stores: it finds the memory under its id, or inserts it.\<close>

lemma find_or_insert_Inr:
  assumes "find_or_insert c env t x ty md d = (Inr row, d')"
  obtains (present) "find_by m_id (store_id c t x ty md) (memories d) = Some row" and "d' = d"
  | (fresh) cf where "store_id c t x ty md \<notin> memory_ids d" and "row = new_row c env t x ty md cf"
      and "d' = inserted env t row d"
proof (cases "find_by m_id (store_id c t x ty md) (memories d)")
  case (Some row')
  with assms have "row' = row" and "d' = d" by (simp_all add: find_or_insert_def)
  with Some show ?thesis by (intro present) simp_all
next
  case None
  with assms obtain cf where "insert_memory env t (new_row c env t x ty md cf) d = (Inr row, d')"
    by (auto simp: find_or_insert_def split: sum.splits option.splits)
  note ins = insert_memory_Inr [OF this]
  from ins have "row = new_row c env t x ty md cf" and "d' = inserted env t row d" by simp_all
  moreover from ins have "store_id c t x ty md \<notin> memory_ids d" by simp
  ultimately show ?thesis by (intro fresh)
qed

definition audited :: "AuditEventRow \<Rightarrow> db \<Rightarrow> db" where
  "audited a d = d\<lparr>audit_events := audit_events d @ [a]\<rparr>"

abbreviation store_audit :: "memory_config \<Rightarrow> call_env \<Rightarrow> TenantContext \<Rightarrow> string \<Rightarrow> AuditEventRow" where
  "store_audit c env ctx k \<equiv>
     audit_row env ctx ''memory.write'' k [(''qdrant_available'', JBool (qdrant_available c))]"

lemma store_Inr:
  assumes "store c env ctx x ty md d = (Inr r, d')"
  obtains (present) d1 row where "ensure_tenant (ctx_tenant_id ctx) None (now_ts env) d = (Inr (), d1)"
      and "find_by m_id (store_id c (ctx_tenant_id ctx) x ty md) (memories d1) = Some row"
      and "r = to_record row"
      and "d' = audited (store_audit c env ctx (store_id c (ctx_tenant_id ctx) x ty md)) d1"
  | (fresh) d1 cf row where "ensure_tenant (ctx_tenant_id ctx) None (now_ts env) d = (Inr (), d1)"
      and "row = new_row c env (ctx_tenant_id ctx) x ty md cf" and "m_id row \<notin> memory_ids d1"
      and "r = to_record row"
      and "d' = audited (store_audit c env ctx (m_id row)) (inserted env (ctx_tenant_id ctx) row d1)"
proof -
  from assms obtain d1 row d2 where d1: "ensure_tenant (ctx_tenant_id ctx) None (now_ts env) d = (Inr (), d1)"
    and row: "find_or_insert c env (ctx_tenant_id ctx) x ty md d1 = (Inr row, d2)"
    and d': "d' = audited (store_audit c env ctx (store_id c (ctx_tenant_id ctx) x ty md)) d2"
    and r: "r = to_record row"
    by (auto simp: store_def Let_def with_session_Inr add_audit_def checked_Inr audited_def
        elim!: op_bind_InrE)
  from row show ?thesis
  proof (cases rule: find_or_insert_Inr)
    case present
    with r d' show ?thesis by (intro that(1) [OF d1, of row]) simp_all
  next
    case (fresh cf)
    then have "m_id row = store_id c (ctx_tenant_id ctx) x ty md" by simp
    with fresh r d' show ?thesis by (intro that(2) [OF d1 fresh(2)]) simp_all
  qed
qed

lemma update_Inr:
  assumes "update env ctx k x v d = (Inr r, d')"
  obtains row where "find_by m_id k (memories d) = Some row" and "m_tenant_id row = ctx_tenant_id ctx"
    and "m_version row = v" and "r = to_record (set_content x (now_ts env) row)"
    and "d' = rewritten env ctx ''memory.update'' x (m_provenance row) row
                [(''version'', JInt (m_version row + 1))] k d"
  using assms unfolding update_def with_session_Inr
  by (elim op_bind_InrE) (auto split: option.splits if_splits dest: write_version_Inr)

lemma scalar_one_or_none_Inr:
  "scalar_one_or_none rs d = (Inr z, d') \<longleftrightarrow> d' = d \<and> (rs = [] \<and> z = None \<or> (\<exists>r. rs = [r] \<and> z = Some r))"
  by (auto simp: scalar_one_or_none_def split: list.splits)

lemma rollback_Inr:
  assumes "rollback env ctx k v d = (Inr r, d')"
  obtains row q where "find_by m_id k (memories d) = Some row" and "m_tenant_id row = ctx_tenant_id ctx"
    and "versions_of (ctx_tenant_id ctx) k v d = [q]"
    and "r = to_record (set_content (mv_content q) (now_ts env) row)"
    and "d' = rewritten env ctx ''memory.rollback'' (mv_content q) (mv_provenance q) row
                [(''to_version'', JInt v)] k d"
  using assms unfolding rollback_def with_session_Inr
  by (elim op_bind_InrE)
    (auto simp: scalar_one_or_none_Inr split: option.splits if_splits dest: write_version_Inr)

subsection \<open>Invariants\<close>

definition history_of :: "string \<Rightarrow> db \<Rightarrow> MemoryVersionRow list" where
  "history_of k d = filter (\<lambda>q. mv_memory_id q = k) (memory_versions d)"

definition linked_row :: "MemoryRow \<Rightarrow> MemoryVersionRow list \<Rightarrow> bool" where
  "linked_row r hs \<longleftrightarrow> hs \<noteq> [] \<and> map mv_version hs = [1..m_version r] \<and>
     (\<forall>q \<in> set hs. mv_tenant_id q = m_tenant_id r) \<and> mv_content (last hs) = m_content r"

definition linked :: "db \<Rightarrow> bool" where
  "linked d \<longleftrightarrow> (\<forall>r \<in> set (memories d). linked_row r (history_of (m_id r) d))"

definition mem_inv :: "db \<Rightarrow> bool" where
  "mem_inv d \<longleftrightarrow> db_ok d \<and> linked d"

lemma insert_memory_ok [keeps_intros]: "keeps db_ok (insert_memory env t row)"
  unfolding insert_memory_def by (intro keeps_intros)

lemma find_or_insert_ok [keeps_intros]: "keeps db_ok (find_or_insert c env t x ty md)"
  by (rule keepsI)
    (auto simp: find_or_insert_def split: option.splits sum.splits dest: keepsD [OF insert_memory_ok])

lemma write_version_ok [keeps_intros]: "keeps db_ok (write_version env ctx a x p row md k)"
  unfolding write_version_def Let_def by (intro keeps_intros) simp_all

lemma always_bind: "always P m \<Longrightarrow> (\<And>a. always P (f a)) \<Longrightarrow> always P (op_bind m f)"
  unfolding always_def op_bind_def by (auto split: prod.splits sum.splits)

lemma store_db_ok: "always db_ok (store c env ctx x ty md)"
  unfolding store_def Let_def
  by (intro always_bind ensure_tenant_always with_session_always keeps_intros)

lemma update_db_ok: "always db_ok (update env ctx k x v)"
  unfolding update_def by (intro with_session_always keeps_intros)

lemma rollback_db_ok: "always db_ok (rollback env ctx k v)"
  unfolding rollback_def scalar_one_or_none_def
  by (intro with_session_always keeps_intros)
    (auto intro!: keeps_intros split: option.split list.split)

lemma history_fresh: "db_ok d \<Longrightarrow> k \<notin> memory_ids d \<Longrightarrow> history_of k d = []"
  by (auto simp: history_of_def db_ok_def versions_ok_def filter_empty_conv)

lemma linked_inserted:
  assumes "db_ok d" and "linked d" and "m_id row \<notin> memory_ids d" and "m_version row = 1"
    and "m_tenant_id row = t"
  shows "linked (inserted env t row d)"
proof -
  have "history_of (m_id row) d = []" using assms by (simp add: history_fresh)
  then have "linked_row row (history_of (m_id row) (inserted env t row d))"
    using assms by (simp add: linked_row_def history_of_def inserted_def)
  moreover have "history_of (m_id r) (inserted env t row d) = history_of (m_id r) d"
    if "r \<in> set (memories d)" for r
    using that assms(3) by (auto simp: history_of_def inserted_def memory_ids_def)
  ultimately show ?thesis using assms(2) by (auto simp: linked_def inserted_def)
qed

lemma linked_row_extend:
  assumes "linked_row row hs" and "mv_version q = m_version row + 1" and "mv_tenant_id q = m_tenant_id row"
    and "mv_content q = x"
  shows "linked_row (set_content x n row) (hs @ [q])"
proof -
  have "[1..m_version row] \<noteq> []" using assms(1) by (metis linked_row_def map_is_Nil_conv)
  then have "1 \<le> m_version row + 1" by simp
  with assms show ?thesis by (auto simp: linked_row_def upto_rec2)
qed

lemma find_memory_unique:
  "db_ok d \<Longrightarrow> find_by m_id k (memories d) = Some row \<Longrightarrow> r \<in> set (memories d) \<Longrightarrow> m_id r = k \<Longrightarrow> r = row"
  by (auto simp: db_ok_def memories_ok_def dest: find_by_distinct)

lemma linked_rewritten:
  assumes "db_ok d" and "linked d" and row: "find_by m_id k (memories d) = Some row"
    and "m_tenant_id row = ctx_tenant_id ctx"
  shows "linked (rewritten env ctx a x p row md k d)"
  unfolding linked_def
proof
  let ?d = "rewritten env ctx a x p row md k d"
  fix r
  assume "r \<in> set (memories ?d)"
  then obtain r0 where r0: "r0 \<in> set (memories d)"
    and r: "r = (if m_id r0 = k then set_content x (now_ts env) r0 else r0)"
    by (auto simp: rewritten_def set_update_by)
  then have old: "linked_row r0 (history_of (m_id r0) d)" using assms(2) by (simp add: linked_def)
  show "linked_row r (history_of (m_id r) ?d)"
  proof (cases "m_id r0 = k")
    case True
    with r0 assms have "r0 = row" by (metis find_memory_unique)
    with True r old assms show ?thesis
      by (simp add: history_of_def rewritten_def linked_row_extend)
  next
    case False
    with r old show ?thesis by (auto simp: history_of_def rewritten_def)
  qed
qed

lemma linked_frame:
  "linked d \<Longrightarrow> memories d' = memories d \<Longrightarrow> memory_versions d' = memory_versions d \<Longrightarrow> linked d'"
  by (simp add: linked_def history_of_def)

lemma audited_sels [simp]:
  "memories (audited a d) = memories d" "memory_versions (audited a d) = memory_versions d"
  "memory_evidence (audited a d) = memory_evidence d" "tenants (audited a d) = tenants d"
  "audit_events (audited a d) = audit_events d @ [a]"
  by (simp_all add: audited_def)

text \<open>A failed call leaves the rows of the memory tables alone: at most it has created its tenant.\<close>

lemma store_Inl:
  assumes "store c env ctx x ty md d = (Inl e, d')"
  obtains r where "ensure_tenant (ctx_tenant_id ctx) None (now_ts env) d = (r, d')"
proof (cases "ensure_tenant (ctx_tenant_id ctx) None (now_ts env) d")
  case (Pair r d1)
  show ?thesis
  proof (cases r)
    case (Inl e')
    with Pair assms show ?thesis by (intro that [of r]) (auto simp: store_def Let_def op_bind_def)
  next
    case (Inr u)
    with Pair assms have "d' = d1"
      by (auto simp: store_def Let_def op_bind_Inr intro: with_session_Inl)
    with Pair show ?thesis by (intro that [of r]) simp
  qed
qed

lemma update_Inl: "update env ctx k x v d = (Inl e, d') \<Longrightarrow> d' = d"
  unfolding update_def by (rule with_session_Inl)

lemma rollback_Inl: "rollback env ctx k v d = (Inl e, d') \<Longrightarrow> d' = d"
  unfolding rollback_def by (rule with_session_Inl)

lemma store_inv: "always mem_inv (store c env ctx x ty md)"
proof (rule alwaysI)
  fix d
  assume inv: "mem_inv d"
  obtain r d' where s: "store c env ctx x ty md d = (r, d')" by fastforce
  have "db_ok d'" using alwaysD [OF store_db_ok _ s] inv by (simp add: mem_inv_def)
  moreover have "linked d'"
  proof (cases r)
    case (Inl e)
    with s obtain r1 where "ensure_tenant (ctx_tenant_id ctx) None (now_ts env) d = (r1, d')"
      by (auto elim: store_Inl)
    from ensure_tenant_frame [OF this] inv show ?thesis
      by (intro linked_frame [of d d']) (simp_all add: mem_inv_def)
  next
    case (Inr rec)
    with s have "store c env ctx x ty md d = (Inr rec, d')" by simp
    then show ?thesis
    proof (cases rule: store_Inr)
      case (present d1 row)
      with ensure_tenant_frame [OF present(1)] inv show ?thesis
        by (intro linked_frame [of d d']) (simp_all add: mem_inv_def)
    next
      case (fresh d1 cf row)
      have "db_ok d1" using alwaysD [OF ensure_tenant_always _ fresh(1)] inv by (simp add: mem_inv_def)
      moreover have "linked d1"
        using ensure_tenant_frame [OF fresh(1)] inv
        by (intro linked_frame [of d d1]) (simp_all add: mem_inv_def)
      ultimately have "linked (inserted env (ctx_tenant_id ctx) row d1)"
        using fresh by (intro linked_inserted) simp_all
      with fresh show ?thesis
        by (intro linked_frame [of "inserted env (ctx_tenant_id ctx) row d1" d']) simp_all
    qed
  qed
  ultimately show "mem_inv (snd (store c env ctx x ty md d))" using s by (simp add: mem_inv_def)
qed

lemma update_inv: "always mem_inv (update env ctx k x v)"
proof (rule alwaysI)
  fix d
  assume inv: "mem_inv d"
  obtain r d' where s: "update env ctx k x v d = (r, d')" by fastforce
  have "db_ok d'" using alwaysD [OF update_db_ok _ s] inv by (simp add: mem_inv_def)
  moreover have "linked d'"
    using s inv by (cases r) (auto dest: update_Inl simp: mem_inv_def linked_rewritten elim!: update_Inr)
  ultimately show "mem_inv (snd (update env ctx k x v d))" using s by (simp add: mem_inv_def)
qed

lemma rollback_inv: "always mem_inv (rollback env ctx k v)"
proof (rule alwaysI)
  fix d
  assume inv: "mem_inv d"
  obtain r d' where s: "rollback env ctx k v d = (r, d')" by fastforce
  have "db_ok d'" using alwaysD [OF rollback_db_ok _ s] inv by (simp add: mem_inv_def)
  moreover have "linked d'"
    using s inv by (cases r) (auto dest: rollback_Inl simp: mem_inv_def linked_rewritten elim!: rollback_Inr)
  ultimately show "mem_inv (snd (rollback env ctx k v d))" using s by (simp add: mem_inv_def)
qed

subsection \<open>Runs of the store\<close>

text \<open>The calls that write, each with the ids and the clock it draws.\<close>

datatype mem_op =
    MStore call_env TenantContext string string "(string, json) dict option"
  | MUpdate call_env TenantContext string string int
  | MRollback call_env TenantContext string int

fun mem_owner :: "mem_op \<Rightarrow> string" where
  "mem_owner (MStore env ctx x ty md) = ctx_tenant_id ctx"
| "mem_owner (MUpdate env ctx k x v) = ctx_tenant_id ctx"
| "mem_owner (MRollback env ctx k v) = ctx_tenant_id ctx"

fun mem_step :: "memory_config \<Rightarrow> mem_op \<Rightarrow> db \<Rightarrow> db" where
  "mem_step c (MStore env ctx x ty md) d = snd (store c env ctx x ty md d)"
| "mem_step c (MUpdate env ctx k x v) d = snd (update env ctx k x v d)"
| "mem_step c (MRollback env ctx k v) d = snd (rollback env ctx k v d)"

text \<open>What a step does to the rows, whichever call it is and however it ends.\<close>

lemma mem_step_cases:
  obtains (tenant_only) n r where "ensure_tenant (mem_owner op) None n d = (r, mem_step c op d)"
  | (same) "mem_step c op d = d"
  | (audit) n d1 a where "ensure_tenant (mem_owner op) None n d = (Inr (), d1)"
      and "ae_tenant_id a = mem_owner op" and "mem_step c op d = audited a d1"
  | (insert) n d1 a env row where "ensure_tenant (mem_owner op) None n d = (Inr (), d1)"
      and "m_id row \<notin> memory_ids d1" and "m_tenant_id row = mem_owner op" and "m_version row = 1"
      and "ae_tenant_id a = mem_owner op"
      and "mem_step c op d = audited a (inserted env (mem_owner op) row d1)"
  | (rewrite) env ctx a x p row md k where "find_by m_id k (memories d) = Some row"
      and "m_tenant_id row = mem_owner op" and "ctx_tenant_id ctx = mem_owner op"
      and "mem_step c op d = rewritten env ctx a x p row md k d"
proof (cases op)
  case (MStore env ctx x ty md)
  obtain r d' where s: "store c env ctx x ty md d = (r, d')" by fastforce
  then have step: "mem_step c op d = d'" using MStore by simp
  show ?thesis
  proof (cases r)
    case (Inl e)
    with s obtain r1 where "ensure_tenant (ctx_tenant_id ctx) None (now_ts env) d = (r1, d')"
      by (auto elim: store_Inl)
    with MStore step show ?thesis by (intro tenant_only) simp
  next
    case (Inr rec)
    with s have "store c env ctx x ty md d = (Inr rec, d')" by simp
    then show ?thesis
    proof (cases rule: store_Inr)
      case (present d1 row)
      show ?thesis by (rule audit [of "now_ts env" d1]) (use present MStore step in simp_all)
    next
      case (fresh d1 cf row)
      show ?thesis by (rule insert [of "now_ts env" d1 row]) (use fresh MStore step in simp_all)
    qed
  qed
next
  case (MUpdate env ctx k x v)
  obtain r d' where s: "update env ctx k x v d = (r, d')" by fastforce
  with MUpdate have step: "mem_step c op d = d'" by simp
  show ?thesis
  proof (cases r)
    case (Inl e)
    with s step show ?thesis by (intro same) (simp add: update_Inl)
  next
    case (Inr rec)
    with s have u: "update env ctx k x v d = (Inr rec, d')" by simp
    show ?thesis by (rule update_Inr [OF u], rule rewrite) (use MUpdate step in simp_all)
  qed
next
  case (MRollback env ctx k v)
  obtain r d' where s: "rollback env ctx k v d = (r, d')" by fastforce
  with MRollback have step: "mem_step c op d = d'" by simp
  show ?thesis
  proof (cases r)
    case (Inl e)
    with s step show ?thesis by (intro same) (simp add: rollback_Inl)
  next
    case (Inr rec)
    with s have u: "rollback env ctx k v d = (Inr rec, d')" by simp
    show ?thesis by (rule rollback_Inr [OF u], rule rewrite) (use MRollback step in simp_all)
  qed
qed

lemma mem_inv_empty: "mem_inv empty_db"
  using empty_db_ok by (simp add: mem_inv_def linked_def empty_db_def)

lemma mem_step_inv: "mem_inv d \<Longrightarrow> mem_inv (mem_step c op d)"
  using store_inv update_inv rollback_inv by (cases op) (simp_all add: always_def)

text \<open>What a tenant can see: its rows in every table the store writes.\<close>

definition mem_view :: "string \<Rightarrow> db \<Rightarrow>
    MemoryRow list \<times> MemoryVersionRow list \<times> MemoryEvidenceRow list \<times> AuditEventRow list" where
  "mem_view t d = (filter (\<lambda>r. m_tenant_id r = t) (memories d),
     filter (\<lambda>r. mv_tenant_id r = t) (memory_versions d),
     filter (\<lambda>r. me_tenant_id r = t) (memory_evidence d),
     filter (\<lambda>r. ae_tenant_id r = t) (audit_events d))"

lemma mem_view_ensure_tenant:
  "ensure_tenant u name n d = (r, d') \<Longrightarrow> mem_view t d' = mem_view t d"
  using ensure_tenant_frame by (simp add: mem_view_def)

lemma mem_view_rewritten:
  assumes "db_ok d" and "find_by m_id k (memories d) = Some row" and "m_tenant_id row \<noteq> t"
    and "ctx_tenant_id ctx \<noteq> t"
  shows "mem_view t (rewritten env ctx a x p row md k d) = mem_view t d"
proof -
  have "\<not> m_tenant_id r = t" if "m_id r = k" "r \<in> set (memories d)" for r
    using find_memory_unique [OF assms(1,2)] that assms(3) by auto
  then show ?thesis
    using assms by (simp add: mem_view_def rewritten_def filter_update_by [of "\<lambda>r. m_tenant_id r = t"])
qed

lemma mem_step_view:
  assumes "mem_inv d" and "mem_owner op \<noteq> t"
  shows "mem_view t (mem_step c op d) = mem_view t d"
proof (cases c op d rule: mem_step_cases)
  case (tenant_only n r)
  then show ?thesis by (rule mem_view_ensure_tenant)
next
  case same
  then show ?thesis by simp
next
  case (audit n d1 a)
  with assms mem_view_ensure_tenant [OF audit(1), of t] show ?thesis
    by (simp add: mem_view_def)
next
  case (insert n d1 a env row)
  with assms mem_view_ensure_tenant [OF insert(1), of t] show ?thesis
    by (simp add: mem_view_def inserted_def)
next
  case (rewrite env ctx a x p row md k)
  with assms show ?thesis by (simp add: mem_view_rewritten mem_inv_def)
qed

lemma mem_step_versions: "prefix (memory_versions d) (memory_versions (mem_step c op d))"
  by (cases c op d rule: mem_step_cases)
    (auto dest!: ensure_tenant_frame simp: inserted_def rewritten_def)

lemma mem_step_audit: "prefix (audit_events d) (audit_events (mem_step c op d))"
  by (cases c op d rule: mem_step_cases)
    (auto dest!: ensure_tenant_frame simp: inserted_def rewritten_def)

interpretation mem: tenant_store "mem_step c" mem_inv mem_owner mem_view for c
  by unfold_locales (simp_all add: mem_step_inv mem_step_view)

interpretation mem_history: append_only "mem_step c" memory_versions for c
  by unfold_locales (rule mem_step_versions)

interpretation mem_audit: append_only "mem_step c" audit_events for c
  by unfold_locales (rule mem_step_audit)

text \<open>Once there, a memory stays with its tenant and its version only grows.\<close>

definition held :: "string \<Rightarrow> string \<Rightarrow> int \<Rightarrow> db \<Rightarrow> bool" where
  "held k t v d \<longleftrightarrow> mem_inv d \<and>
     (\<exists>row. find_by m_id k (memories d) = Some row \<and> m_tenant_id row = t \<and> v \<le> m_version row)"

lemma mem_step_held: "held k t v d \<Longrightarrow> held k t v (mem_step c op d)"
proof -
  assume h: "held k t v d"
  then obtain row where row: "find_by m_id k (memories d) = Some row" "m_tenant_id row = t" "v \<le> m_version row"
    by (auto simp: held_def)
  from h have "mem_inv (mem_step c op d)" by (simp add: held_def mem_step_inv)
  moreover have "\<exists>row. find_by m_id k (memories (mem_step c op d)) = Some row \<and> m_tenant_id row = t \<and>
      v \<le> m_version row"
    by (cases c op d rule: mem_step_cases)
      (use row in \<open>auto dest!: ensure_tenant_frame simp: inserted_def rewritten_def find_by_append find_by_update_by\<close>)
  ultimately show ?thesis by (simp add: held_def)
qed

interpretation mem_held: invariant_system "mem_step c" "held k t v" for c k t v
  by unfold_locales (rule mem_step_held)

subsection \<open>Exact outcomes\<close>

lemma owned_row:
  assumes "mem_inv d" and "find_by m_id k (memories d) = Some row"
  shows "row \<in> set (memories d)" "m_id row = k" "memory_check row" "m_tenant_id row \<in> tenant_ids d"
    "linked_row row (history_of k d)" "k \<in> memory_ids d"
  using assms by (auto simp: mem_inv_def db_ok_def memories_ok_def linked_def memory_ids_def dest!: find_by_SomeD)

lemma memory_history_version:
  assumes "linked_row row (history_of k d)"
  shows "(m_tenant_id row, k, v) \<in> mv_key ` set (memory_versions d) \<longleftrightarrow> 1 \<le> v \<and> v \<le> m_version row"
proof -
  from assms have t: "\<forall>q \<in> set (history_of k d). mv_tenant_id q = m_tenant_id row"
    by (simp add: linked_row_def)
  have "(m_tenant_id row, k, v) \<in> mv_key ` set (memory_versions d) \<longleftrightarrow>
      (\<exists>q \<in> set (history_of k d). mv_version q = v \<and> mv_tenant_id q = m_tenant_id row)"
    by (auto simp: history_of_def mv_key_def image_iff) (metis (mono_tags, lifting))
  also have "\<dots> \<longleftrightarrow> v \<in> set (map mv_version (history_of k d))"
    using t by auto
  also have "\<dots> \<longleftrightarrow> 1 \<le> v \<and> v \<le> m_version row" using assms by (simp add: linked_row_def)
  finally show ?thesis .
qed

lemma write_version_eq:
  assumes inv: "mem_inv d" and row: "find_by m_id k (memories d) = Some row"
    and t: "m_tenant_id row = ctx_tenant_id ctx"
  shows "with_session (write_version env ctx a x p row md k) d =
    (if fresh_audit env \<in> ae_id ` set (audit_events d) then (Inl (IntegrityError ''audit_events''), d)
     else (Inr (to_record (set_content x (now_ts env) row)), rewritten env ctx a x p row md k d))"
proof -
  note own = owned_row [OF inv row]
  let ?f = "set_content x (now_ts env)"
  let ?d1 = "d\<lparr>memories := update_by m_id k ?f (memories d)\<rparr>"
  have "\<forall>r \<in> set (memories d). m_id r = k \<longrightarrow> memory_check (?f r)"
    using own inv find_memory_unique [OF _ row] by (fastforce simp: mem_inv_def memory_check_def)
  then have 1: "update_memory k ?f d = (Inr (), ?d1)" by (simp add: update_memory_def checked_def)
  have "(m_tenant_id row, k, m_version row + 1) \<notin> mv_key ` set (memory_versions d)"
    using memory_history_version [OF own(5)] by simp
  moreover have "k \<in> memory_ids ?d1" using own(6) by (simp add: memory_ids_def update_by_image)
  ultimately have 2: "add_memory_version (ctx_tenant_id ctx) k (m_version row + 1) x p (now_ts env) ?d1 =
      (Inr (), ?d1\<lparr>memory_versions := memory_versions d @
         [version_row d (ctx_tenant_id ctx) k (m_version row + 1) x p (now_ts env)]\<rparr>)"
    using own t by (simp add: add_memory_version_def checked_def tenant_ids_def)
  show ?thesis
    using own t by (simp add: with_session_def write_version_def Let_def op_bind_def 1 2 add_audit_def
        checked_def rewritten_def tenant_ids_def)
qed

lemma with_session_cong: "body d = body' d \<Longrightarrow> with_session body d = with_session body' d"
  by (simp add: with_session_def)

lemma update_eq:
  assumes "mem_inv d" and "find_by m_id k (memories d) = Some row"
  shows "update env ctx k x v d =
    (if m_tenant_id row \<noteq> ctx_tenant_id ctx then (Inl (KeyError k), d)
     else if m_version row \<noteq> v then (Inl (OptimisticConcurrencyError ''stale memory version''), d)
     else if fresh_audit env \<in> ae_id ` set (audit_events d) then (Inl (IntegrityError ''audit_events''), d)
     else (Inr (to_record (set_content x (now_ts env) row)),
           rewritten env ctx ''memory.update'' x (m_provenance row) row
             [(''version'', JInt (v + 1))] k d))"
proof (cases "m_tenant_id row = ctx_tenant_id ctx \<and> m_version row = v")
  case True
  then have "update env ctx k x v d = with_session (write_version env ctx ''memory.update'' x
      (m_provenance row) row [(''version'', JInt (v + 1))] k) d"
    unfolding update_def using assms by (intro with_session_cong) simp
  with True show ?thesis by (simp add: write_version_eq [OF assms])
next
  case False
  with assms show ?thesis by (auto simp: update_def with_session_def)
qed

lemma versions_of_unique:
  assumes "mem_inv d" and "q \<in> set (memory_versions d)" and "mv_key q = (t, k, v)"
  shows "versions_of t k v d = [q]"
proof -
  have "filter (\<lambda>r. mv_key r = key) vs = [q]" if "distinct (map mv_key vs)" "q \<in> set vs" "mv_key q = key"
    for vs key
    using that by (induction vs) (auto simp: filter_empty_conv rev_image_eqI)
  with assms show ?thesis by (simp add: versions_of_def mem_inv_def db_ok_def versions_ok_def)
qed

lemma rollback_eq:
  assumes "mem_inv d" and row: "find_by m_id k (memories d) = Some row"
    and "m_tenant_id row = ctx_tenant_id ctx"
    and q: "q \<in> set (memory_versions d)" "mv_key q = (ctx_tenant_id ctx, k, v)"
  shows "rollback env ctx k v d =
    (if fresh_audit env \<in> ae_id ` set (audit_events d) then (Inl (IntegrityError ''audit_events''), d)
     else (Inr (to_record (set_content (mv_content q) (now_ts env) row)),
           rewritten env ctx ''memory.rollback'' (mv_content q) (mv_provenance q) row
             [(''to_version'', JInt v)] k d))"
proof -
  have "rollback env ctx k v d = with_session (write_version env ctx ''memory.rollback'' (mv_content q)
      (mv_provenance q) row [(''to_version'', JInt v)] k) d"
    unfolding rollback_def using assms versions_of_unique [OF assms(1) q]
    by (intro with_session_cong) (simp add: scalar_one_or_none_def)
  with assms(3) show ?thesis by (simp add: write_version_eq [OF assms(1,2)])
qed

subsection \<open>Search\<close>

definition matching :: "string \<Rightarrow> string \<Rightarrow> db \<Rightarrow> MemoryRow list" where
  "matching tenant q d = filter (\<lambda>row. m_tenant_id row = tenant \<and> m_status row = ''ACTIVE'' \<and>
     0 < score q (m_content row)) (memories d)"

lemma matching_active:
  "filter (\<lambda>row. 0 < score q (m_content row)) (active_rows tenant d) = matching tenant q d"
  by (simp add: matching_def active_rows_def conj_ac)

definition hit_of :: "string \<Rightarrow> MemoryRow \<Rightarrow> search_hit" where
  "hit_of q row = \<lparr>hit_record = to_record row, hit_score = score q (m_content row)\<rparr>"

lemma search_eq:
  "search scan ctx q n d = (Inr (slice_to n (sort_key (\<lambda>h. - hit_score h) (map (hit_of q)
     (filter (\<lambda>row. 0 < score q (m_content row)) (scan (active_rows (ctx_tenant_id ctx) d)))))), d)"
proof -
  let ?mk = "\<lambda>(s, r). \<lparr>hit_record = r, hit_score = s\<rparr>"
  have ins: "map ?mk (insort_key (\<lambda>item. - fst item) x ys) = insort_key (\<lambda>h. - hit_score h) (?mk x) (map ?mk ys)"
    for x and ys :: "(rat \<times> memory_record) list"
    by (induction ys) (auto split: prod.splits)
  have "map ?mk (sort_key (\<lambda>item. - fst item) xs) = sort_key (\<lambda>h. - hit_score h) (map ?mk xs)"
    for xs :: "(rat \<times> memory_record) list"
    by (induction xs) (simp_all add: ins)
  moreover have "map f (slice_to n xs) = slice_to n (map f xs)"
    for f :: "rat \<times> memory_record \<Rightarrow> search_hit" and xs
    by (simp add: slice_to_def take_map)
  ultimately show ?thesis
    by (simp add: search_def with_session_def Let_def comp_def hit_of_def [abs_def])
qed

lemma search_ranks:
  assumes scan: "\<And>rows. mset (scan rows) = mset rows" and "0 \<le> n"
  shows "\<exists>hits rest. search scan ctx q n d = (Inr hits, d) \<and>
    mset (map (hit_of q) (matching (ctx_tenant_id ctx) q d)) = mset hits + mset rest \<and>
    length hits = min (nat n) (length (matching (ctx_tenant_id ctx) q d)) \<and>
    sorted_wrt (\<lambda>a b. hit_score b \<le> hit_score a) hits \<and>
    (\<forall>h \<in> set hits. \<forall>g \<in> set rest. hit_score g \<le> hit_score h)"
proof -
  let ?all = "map (hit_of q) (filter (\<lambda>row. 0 < score q (m_content row)) (scan (active_rows (ctx_tenant_id ctx) d)))"
  let ?sorted = "sort_key (\<lambda>h. - hit_score h) ?all"
  let ?hits = "slice_to n ?sorted"
  obtain rest where rest: "?sorted = ?hits @ rest" using slice_to_prefix [of n ?sorted] by (auto simp: prefix_def)
  have all: "mset ?all = mset (map (hit_of q) (matching (ctx_tenant_id ctx) q d))"
    by (simp add: matching_active [symmetric] scan mset_filter)
  then have len: "length ?sorted = length (matching (ctx_tenant_id ctx) q d)"
    by (metis length_map length_sort mset_eq_length)
  have "sorted_wrt (\<lambda>a b. hit_score b \<le> hit_score a) ?sorted"
    using sorted_sort_key [of "\<lambda>h. - hit_score h" ?all] by (simp add: sorted_map sorted_wrt_map)
  then have "sorted_wrt (\<lambda>a b. hit_score b \<le> hit_score a) (?hits @ rest)" using rest by simp
  moreover have "mset (map (hit_of q) (matching (ctx_tenant_id ctx) q d)) = mset ?hits + mset rest"
    using all rest by (metis mset_append mset_sort)
  ultimately show ?thesis
    using len assms(2) by (intro exI [of _ ?hits] exI [of _ rest])
      (auto simp: search_eq sorted_wrt_append slice_to_def)
qed

subsection \<open>Properties\<close>

definition memory_example_ctx :: "string \<Rightarrow> TenantContext" where
  "memory_example_ctx t = \<lparr>ctx_tenant_id = t, ctx_identity = \<lparr>id_subject = ''alice'', id_tenant_id = t,
     roles = {}, permissions = {''*''}, key_id = ''k'', identity_type = ''api_key''\<rparr>,
     ctx_request_id = ''r''\<rparr>"

definition memory_example_config :: memory_config where
  "memory_example_config = \<lparr>digest = (\<lambda>s. s), py_repr = (\<lambda>j. []), qdrant_available = True\<rparr>"

definition memory_example_env :: "string \<Rightarrow> call_env" where
  "memory_example_env a = \<lparr>fresh_evidence = a, fresh_audit = a, now_ts = 7\<rparr>"

definition memory_example_store :: "string \<Rightarrow> string \<Rightarrow> mem_op" where
  "memory_example_store a t = MStore (memory_example_env a) (memory_example_ctx t) ''hello world'' ''fact'' None"

text \<open>
  After any run of writes on an empty database every declared constraint of every table holds,
  and the version history of each memory is complete: versions 1 to the current one, one row
  each, of its tenant, the last with the current content.
\<close>

lemma memory_runs_keep_history:
  "db_ok (fold (mem_step c) ops empty_db) \<and> linked (fold (mem_step c) ops empty_db)"
proof -
  show ?thesis using mem.run_inv [OF mem_inv_empty, of c ops] by (simp add: mem_inv_def)
qed

text \<open>
  C11: No sequence of writes by other tenants changes what a tenant can see: its memories, their
  versions, their evidence and its audit events.
\<close>

theorem memory_isolation:
  assumes "mem_inv d" and "\<forall>op \<in> set ops. mem_owner op \<noteq> t"
  shows "mem_view t (fold (mem_step c) ops d) = mem_view t d"
  using assms by (rule mem.run_view)

theorem memory_isolation_witness:
  "let c = memory_example_config; d = mem_step c (memory_example_store ''1'' ''acme'') empty_db in
     mem_view ''acme'' (fold (mem_step c) [memory_example_store ''2'' ''beta'', memory_example_store ''3'' ''beta''] d) =
     mem_view ''acme'' d \<and> fst (mem_view ''acme'' d) \<noteq> []"
proof -
  let ?c = memory_example_config
  let ?d = "mem_step ?c (memory_example_store ''1'' ''acme'') empty_db"
  have "mem_inv ?d" by (rule mem_step_inv [OF mem_inv_empty])
  moreover have "\<forall>op \<in> set [memory_example_store ''2'' ''beta'', memory_example_store ''3'' ''beta''].
      mem_owner op \<noteq> ''acme''"
    by (simp add: memory_example_store_def memory_example_ctx_def)
  ultimately have "mem_view ''acme'' (fold (mem_step ?c) [memory_example_store ''2'' ''beta'',
      memory_example_store ''3'' ''beta''] ?d) = mem_view ''acme'' ?d"
    by (rule memory_isolation)
  moreover have "fst (mem_view ''acme'' ?d) \<noteq> []" by code_simp
  ultimately show ?thesis by simp
qed

text \<open>
  C12: Optimistic concurrency: once an update against version \<open>v\<close> of a memory has succeeded, no
  later update against \<open>v\<close> does, whatever writes come in between: for the owner it raises
  \<open>OptimisticConcurrencyError\<close>, for any other tenant \<open>KeyError\<close>, and the database is unchanged.
\<close>

theorem no_lost_update:
  assumes "mem_inv d" and "update env ctx k x v d = (Inr r, d1)" and "d2 = fold (mem_step c) ops d1"
  shows "update env' ctx' k x' v d2 =
    (Inl (if ctx_tenant_id ctx' = ctx_tenant_id ctx
          then OptimisticConcurrencyError ''stale memory version'' else KeyError k), d2)"
proof -
  have "held k (ctx_tenant_id ctx) (v + 1) d1"
    using assms(2) alwaysD [OF update_inv assms(1,2)]
    by (auto simp: held_def rewritten_def find_by_update_by elim!: update_Inr)
  then have h: "held k (ctx_tenant_id ctx) (v + 1) d2" unfolding assms(3) by (rule mem_held.run_inv)
  then obtain row where "mem_inv d2" and "find_by m_id k (memories d2) = Some row"
    and "m_tenant_id row = ctx_tenant_id ctx" and "v + 1 \<le> m_version row"
    by (auto simp: held_def)
  then show ?thesis by (auto simp: update_eq)
qed

theorem no_lost_update_witness:
  "let c = memory_example_config; d = mem_step c (memory_example_store ''1'' ''acme'') empty_db;
       k = ''acme:default:fact:hello world'';
       d1 = snd (update (memory_example_env ''2'') (memory_example_ctx ''acme'') k ''x'' 1 d);
       d2 = mem_step c (memory_example_store ''3'' ''beta'') d1
   in update (memory_example_env ''4'') (memory_example_ctx ''acme'') k ''y'' 1 d2 =
        (Inl (OptimisticConcurrencyError ''stale memory version''), d2)"
proof -
  let ?c = memory_example_config
  let ?d = "mem_step ?c (memory_example_store ''1'' ''acme'') empty_db"
  let ?k = "''acme:default:fact:hello world''"
  let ?u = "update (memory_example_env ''2'') (memory_example_ctx ''acme'') ?k ''x'' 1 ?d"
  have inv: "mem_inv ?d" by (rule mem_step_inv [OF mem_inv_empty])
  have "\<not> isl (fst ?u)" by code_simp
  then obtain r where r: "?u = (Inr r, snd ?u)" by (metis prod.collapse sum.collapse(2))
  have "ctx_tenant_id (memory_example_ctx ''acme'') = ''acme''" by (simp add: memory_example_ctx_def)
  then show ?thesis
    using no_lost_update [OF inv r, of "mem_step ?c (memory_example_store ''3'' ''beta'') (snd ?u)" ?c
        "[memory_example_store ''3'' ''beta'']" "memory_example_env ''4''" "memory_example_ctx ''acme''" "''y''"]
    by (simp add: Let_def)
qed

text \<open>
  C13: Every content a memory ever had can be restored: after any further writes, the owner's
  \<open>rollback\<close> to the version that held it returns (given a fresh audit id) a record with that
  content under the next version number, and the database then holds it.
\<close>

theorem rollback_restores:
  assumes inv: "mem_inv d" and row: "find_by m_id k (memories d) = Some row"
    and t: "m_tenant_id row = ctx_tenant_id ctx" and d1: "d1 = fold (mem_step c) ops d"
    and "fresh_audit env \<notin> ae_id ` set (audit_events d1)"
  shows "\<exists>r d2 row1 row2. rollback env ctx k (m_version row) d1 = (Inr r, d2) \<and> r_content r = m_content row \<and>
    find_by m_id k (memories d1) = Some row1 \<and> r_version r = m_version row1 + 1 \<and>
    find_by m_id k (memories d2) = Some row2 \<and> r = to_record row2"
proof -
  let ?q = "last (history_of k d)"
  have link: "linked_row row (history_of k d)" using owned_row [OF inv row] by simp
  then have "mv_version ?q = last [1..m_version row]" and ne: "[1..m_version row] \<noteq> []"
    unfolding linked_row_def by (metis last_map) (metis linked_row_def link map_is_Nil_conv)
  then have v: "mv_version ?q = m_version row" by (simp add: upto_rec2)
  have q: "?q \<in> set (history_of k d)" and qc: "mv_content ?q = m_content row"
    using link by (simp_all add: linked_row_def)
  then have qv: "?q \<in> set (memory_versions d)" and "mv_memory_id ?q = k"
    by (auto simp: history_of_def)
  moreover have "mv_tenant_id ?q = ctx_tenant_id ctx" using link q t by (simp add: linked_row_def)
  ultimately have key: "mv_key ?q = (ctx_tenant_id ctx, k, m_version row)" by (simp add: mv_key_def v)
  have "held k (ctx_tenant_id ctx) 1 d"
    using inv row t ne by (simp add: held_def)
  then have "held k (ctx_tenant_id ctx) 1 d1" unfolding d1 by (rule mem_held.run_inv)
  then obtain row1 where row1: "mem_inv d1" "find_by m_id k (memories d1) = Some row1"
    "m_tenant_id row1 = ctx_tenant_id ctx" by (auto simp: held_def)
  have "?q \<in> set (memory_versions d1)" unfolding d1 using qv by (rule mem_history.run_mem)
  from rollback_eq [OF row1 this key] assms(5) qc row1(2) show ?thesis
    by (auto simp: to_record_def rewritten_def find_by_update_by memory_type_of_def)
qed

theorem rollback_restores_witness:
  "let c = memory_example_config; d = mem_step c (memory_example_store ''1'' ''acme'') empty_db;
       k = ''acme:default:fact:hello world''; ctx = memory_example_ctx ''acme'';
       d1 = fold (mem_step c) [MUpdate (memory_example_env ''2'') ctx k ''changed'' 1] d
   in \<exists>r d2. rollback (memory_example_env ''3'') ctx k 1 d1 = (Inr r, d2) \<and> r_content r = ''hello world''"
proof -
  let ?c = memory_example_config
  let ?ctx = "memory_example_ctx ''acme''"
  let ?k = "''acme:default:fact:hello world''"
  let ?d = "mem_step ?c (memory_example_store ''1'' ''acme'') empty_db"
  let ?ops = "[MUpdate (memory_example_env ''2'') ?ctx ?k ''changed'' 1]"
  let ?row = "new_row ?c (memory_example_env ''1'') ''acme'' ''hello world'' ''fact'' None 1"
  have inv: "mem_inv ?d" by (rule mem_step_inv [OF mem_inv_empty])
  have row: "find_by m_id ?k (memories ?d) = Some ?row" by code_simp
  have t: "m_tenant_id ?row = ctx_tenant_id ?ctx" by (simp add: memory_example_ctx_def)
  have "list_all (\<lambda>a. ae_id a \<noteq> ''3'') (audit_events (fold (mem_step ?c) ?ops ?d))" by code_simp
  then have "fresh_audit (memory_example_env ''3'') \<notin> ae_id ` set (audit_events (fold (mem_step ?c) ?ops ?d))"
    by (auto simp: list_all_iff memory_example_env_def)
  from rollback_restores [OF inv row t refl this] show ?thesis unfolding Let_def new_row_sels by blast
qed

text \<open>
  C28: Search returns, and leaves the database unchanged. Its hits are active memories of the
  caller's tenant that share a word with the query, each with its score, best first, as many as
  the limit allows, and no memory left out beats one that is returned. The only thing assumed of
  the engine is that a SELECT returns the selected rows in some order.
\<close>

theorem search_best_matches:
  assumes scan: "\<And>rows. mset (scan rows) = mset rows" and "0 \<le> n"
  shows "\<exists>hits rest. search scan ctx q n d = (Inr hits, d) \<and>
    mset (map (hit_of q) (matching (ctx_tenant_id ctx) q d)) = mset hits + mset rest \<and>
    length hits = min (nat n) (length (matching (ctx_tenant_id ctx) q d)) \<and>
    sorted_wrt (\<lambda>a b. hit_score b \<le> hit_score a) hits \<and>
    (\<forall>h \<in> set hits. \<forall>g \<in> set rest. hit_score g \<le> hit_score h)"
  using assms by (rule search_ranks)

theorem search_best_matches_witness:
  "let c = memory_example_config; d = mem_step c (memory_example_store ''1'' ''acme'') empty_db;
       ctx = memory_example_ctx ''acme'' in
   \<exists>hits. search (\<lambda>rows. rows) ctx ''Hello'' 5 d = (Inr hits, d) \<and> length hits = 1"
proof -
  let ?d = "mem_step memory_example_config (memory_example_store ''1'' ''acme'') empty_db"
  let ?ctx = "memory_example_ctx ''acme''"
  have "length (matching (ctx_tenant_id ?ctx) ''Hello'' ?d) = 1" by code_simp
  moreover have "\<And>rows :: MemoryRow list. mset ((\<lambda>rows. rows) rows) = mset rows" by simp
  ultimately show ?thesis
    using search_best_matches [of "\<lambda>rows. rows" 5 ?ctx "''Hello''" ?d] by (auto simp: Let_def)
qed

subsection \<open>The ids of memories\<close>

text \<open>
  A memory's id is the digest of \<^verbatim>\<open>tenant:namespace:type:content\<close>. Without a colon in tenant ids and
  without collisions the id determines the tenant (theory \<^verbatim>\<open>Memory_Refinement\<close>).
  With a colon in a tenant id the key is ambiguous even for a digest without collisions:
  tenant \<^verbatim>\<open>a:b\<close> stores into its namespace \<^verbatim>\<open>n\<close> what tenant \<^verbatim>\<open>a\<close> has stored into \<^verbatim>\<open>b:n\<close>, is
  handed tenant \<^verbatim>\<open>a\<close>'s record, and no row of its own is created.
\<close>

lemma store_key_collision:
  "let c = memory_example_config;
       d = snd (store c (memory_example_env ''1'') (memory_example_ctx ''a'') ''x'' ''fact''
             (Some [(''namespace'', JStr ''b:n'')]) empty_db);
       res = store c (memory_example_env ''2'') (memory_example_ctx ''a:b'') ''x'' ''fact''
             (Some [(''namespace'', JStr ''n'')]) d
   in (case fst res of Inl e \<Rightarrow> False | Inr r \<Rightarrow> r_tenant_id r = ''a'') \<and>
      fst (mem_view ''a:b'' (snd res)) = []"
  by code_simp

end
