(* ===== verification/Concurrent_Sessions.thy ===== *)
theory Concurrent_Sessions
  imports Memory_Store
begin

section \<open>Concurrent sessions of the memory store\<close>

text \<open>
  Theory \<^verbatim>\<open>Memory_Store\<close> runs each call of \<^verbatim>\<open>DurableMemoryStore\<close> as one step. The API runs calls in a
  thread pool and in several processes, and a session is not atomic: \<^verbatim>\<open>session.get\<close> and
  \<^verbatim>\<open>session.execute(select(...))\<close> read what is committed at that moment, the checks of the call look
  at the objects read, and \<^verbatim>\<open>session.flush()\<close> with the commit writes values computed from them. No
  row is locked for the read and no version column is declared to the ORM, so another session may
  commit in between.

  Here a call goes through its phases one at a time: \<open>advance\<close> is the next one, every read of the
  source a phase of its own, and the flush with the commit one phase (the row locks of the
  engine order two flushes that write the same row, up to the commit). The flush of \<^verbatim>\<open>update\<close> and
  \<^verbatim>\<open>rollback\<close> is an UPDATE by primary key of the columns that differ from the row as it was read,
  then the INSERTs, with the constraints checked against the database as it is then. \<open>race\<close>
  interleaves any number of calls in any order; the last component of its states records the
  commits.

  Shown: run alone, the phases of a call are the atomic operation; in every interleaving the
  database is what the committed calls leave when they run one after the other, whole, in the
  order of their commits; and of the updates against one version of a memory at most one commits.
  What makes it so is the unique constraint of \<^verbatim>\<open>memory_versions\<close>, not the version check of
  \<^verbatim>\<open>update\<close>, which two sessions can pass together.
\<close>

subsection \<open>Sessions\<close>

datatype pending =
    Rewrite MemoryRow string string json "(string, json) dict"
  | Keep MemoryRow
  | Insert MemoryRow

datatype phase =
    Opened
  | Tenant_Absent
  | Tenant_Ready
  | Row_Read "MemoryRow option"
  | Loaded pending
  | Finished "memory_record result"

definition stale_write :: "string \<Rightarrow> int \<Rightarrow> MemoryRow \<Rightarrow> MemoryRow \<Rightarrow> MemoryRow" where
  "stale_write content now row cur =
     cur\<lparr>m_content := (if content = m_content row then m_content cur else content),
         m_version := m_version row + 1,
         m_updated_at := (if now = m_updated_at row then m_updated_at cur else now)\<rparr>"

definition flush_rewrite ::
    "call_env \<Rightarrow> TenantContext \<Rightarrow> string \<Rightarrow> string \<Rightarrow> json \<Rightarrow> MemoryRow \<Rightarrow> (string, json) dict \<Rightarrow>
     string \<Rightarrow> (db, memory_record) sop" where
  "flush_rewrite env ctx action content provenance row md memory_id =
     op_bind (op_get (\<lambda>d. memory_id \<in> memory_ids d)) (\<lambda>matched.
     if \<not> matched then op_raise (StaleDataError ''memories'')
     else op_bind (update_memory memory_id (stale_write content (now_ts env) row)) (\<lambda>_.
      op_bind (add_memory_version (ctx_tenant_id ctx) memory_id (m_version row + 1) content provenance
        (now_ts env)) (\<lambda>_.
      op_bind (add_audit (audit_row env ctx action memory_id md)) (\<lambda>_.
      op_return (to_record (set_content content (now_ts env) row))))))"

fun target_id :: "memory_config \<Rightarrow> mem_op \<Rightarrow> string" where
  "target_id c (MStore env ctx x ty md) = store_id c (ctx_tenant_id ctx) x ty md"
| "target_id c (MUpdate env ctx k x v) = k"
| "target_id c (MRollback env ctx k v) = k"

fun call_parameters :: "mem_op \<Rightarrow> call_env \<times> TenantContext" where
  "call_parameters (MStore env ctx x ty md) = (env, ctx)"
| "call_parameters (MUpdate env ctx k x v) = (env, ctx)"
| "call_parameters (MRollback env ctx k v) = (env, ctx)"

fun flush :: "memory_config \<Rightarrow> mem_op \<Rightarrow> pending \<Rightarrow> (db, memory_record) sop" where
  "flush c op (Rewrite row action content provenance md) =
     (case call_parameters op of (env, ctx) \<Rightarrow>
        flush_rewrite env ctx action content provenance row md (target_id c op))"
| "flush c op (Keep row) =
     (case call_parameters op of (env, ctx) \<Rightarrow>
      op_bind (add_audit (store_audit c env ctx (target_id c op))) (\<lambda>_. op_return (to_record row)))"
| "flush c op (Insert row) =
     (case call_parameters op of (env, ctx) \<Rightarrow>
      op_bind (insert_memory env (ctx_tenant_id ctx) row) (\<lambda>_.
      op_bind (add_audit (store_audit c env ctx (target_id c op))) (\<lambda>_. op_return (to_record row))))"

definition new_tenant :: "string \<Rightarrow> int \<Rightarrow> TenantRow" where
  "new_tenant tenant now = \<lparr>tn_id = tenant, tn_name = tenant, tn_status = ''ACTIVE'', tn_version = 1,
     tn_created_at = now, tn_updated_at = now\<rparr>"

definition read_for_store ::
    "memory_config \<Rightarrow> call_env \<Rightarrow> string \<Rightarrow> string \<Rightarrow> string \<Rightarrow> (string, json) dict option \<Rightarrow> db \<Rightarrow> phase" where
  "read_for_store c env tenant content memory_type md d =
     (case find_by m_id (store_id c tenant content memory_type md) (memories d) of
        Some row \<Rightarrow> Loaded (Keep row)
      | None \<Rightarrow>
         (case py_float (dict_get_default (metadata_of md) ''confidence'' (JFloat 1)) of
            Inl e \<Rightarrow> Finished (Inl e)
          | Inr None \<Rightarrow> Finished (Inl (IntegrityError ''memories''))
          | Inr (Some confidence) \<Rightarrow>
              Loaded (Insert (new_row c env tenant content memory_type md confidence))))"

definition read_for_update :: "TenantContext \<Rightarrow> string \<Rightarrow> string \<Rightarrow> int \<Rightarrow> db \<Rightarrow> phase" where
  "read_for_update ctx memory_id content expected_version d =
     (case find_by m_id memory_id (memories d) of
        None \<Rightarrow> Finished (Inl (KeyError memory_id))
      | Some row \<Rightarrow>
         if m_tenant_id row \<noteq> ctx_tenant_id ctx then Finished (Inl (KeyError memory_id))
         else if m_version row \<noteq> expected_version then
           Finished (Inl (OptimisticConcurrencyError ''stale memory version''))
         else Loaded (Rewrite row ''memory.update'' content (m_provenance row)
                [(''version'', JInt (m_version row + 1))]))"

definition read_for_rollback :: "TenantContext \<Rightarrow> string \<Rightarrow> int \<Rightarrow> MemoryRow option \<Rightarrow> db \<Rightarrow> phase" where
  "read_for_rollback ctx memory_id version found d =
     (case scalar_one_or_none (versions_of (ctx_tenant_id ctx) memory_id version d) d of
        (Inl e, _) \<Rightarrow> Finished (Inl e)
      | (Inr target, _) \<Rightarrow>
         (case (found, target) of
            (Some row, Some t) \<Rightarrow>
              if m_tenant_id row \<noteq> ctx_tenant_id ctx then Finished (Inl (KeyError memory_id))
              else Loaded (Rewrite row ''memory.rollback'' (mv_content t) (mv_provenance t)
                     [(''to_version'', JInt version)])
          | _ \<Rightarrow> Finished (Inl (KeyError memory_id))))"

fun advance :: "memory_config \<Rightarrow> mem_op \<Rightarrow> phase \<times> db \<Rightarrow> phase \<times> db" where
  "advance c op (Finished r, d) = (Finished r, d)"
| "advance c op (Loaded w, d) = apfst Finished (with_session (flush c op w) d)"
| "advance c (MUpdate env ctx k x v) (p, d) = (read_for_update ctx k x v d, d)"
| "advance c (MRollback env ctx k v) (Row_Read found, d) = (read_for_rollback ctx k v found d, d)"
| "advance c (MRollback env ctx k v) (p, d) = (Row_Read (find_by m_id k (memories d)), d)"
| "advance c (MStore env ctx x ty md) (Tenant_Absent, d) =
     (case with_session (add_tenant (new_tenant (ctx_tenant_id ctx) (now_ts env))) d of
        (Inl e, d') \<Rightarrow> (Finished (Inl e), d') | (Inr u, d') \<Rightarrow> (Tenant_Ready, d'))"
| "advance c (MStore env ctx x ty md) (Tenant_Ready, d) =
     (read_for_store c env (ctx_tenant_id ctx) x ty md d, d)"
| "advance c (MStore env ctx x ty md) (p, d) =
     (if find_by tn_id (ctx_tenant_id ctx) (tenants d) = None then Tenant_Absent else Tenant_Ready, d)"

subsection \<open>Interleavings\<close>

datatype entry = Tenant_Commit string int | Call_Commit mem_op memory_record

fun committed :: "mem_op \<Rightarrow> phase \<Rightarrow> phase \<Rightarrow> entry list" where
  "committed op (Loaded w) (Finished (Inr r)) = [Call_Commit op r]"
| "committed op Tenant_Absent Tenant_Ready =
     (case call_parameters op of (env, ctx) \<Rightarrow> [Tenant_Commit (ctx_tenant_id ctx) (now_ts env)])"
| "committed op p q = []"

text \<open>The calls that have returned, with their answers, and the calls whose transaction committed.\<close>

fun call_answer :: "mem_op \<times> phase \<Rightarrow> (mem_op \<times> memory_record) list" where
  "call_answer (op, Finished (Inr r)) = [(op, r)]"
| "call_answer (op, p) = []"

fun call_of :: "entry \<Rightarrow> (mem_op \<times> memory_record) list" where
  "call_of (Call_Commit op r) = [(op, r)]"
| "call_of (Tenant_Commit t now) = []"

definition answered :: "(mem_op \<times> phase) list \<Rightarrow> (mem_op \<times> memory_record) list" where
  "answered ss = concat (map call_answer ss)"

definition calls_of :: "entry list \<Rightarrow> (mem_op \<times> memory_record) list" where
  "calls_of es = concat (map call_of es)"

record race_state =
  store_db :: db
  sessions :: "(mem_op \<times> phase) list"
  commits :: "entry list"

inductive race :: "memory_config \<Rightarrow> race_state \<Rightarrow> race_state \<Rightarrow> bool" for c where
  race_open: "race c w (w\<lparr>sessions := sessions w @ [(op, Opened)]\<rparr>)"
| race_advance: "i < length (sessions w) \<Longrightarrow> sessions w ! i = (op, p) \<Longrightarrow>
    advance c op (p, store_db w) = (q, d) \<Longrightarrow>
    race c w \<lparr>store_db = d, sessions = (sessions w)[i := (op, q)], commits = commits w @ committed op p q\<rparr>"

definition idle_world :: "db \<Rightarrow> race_state" where
  "idle_world d = \<lparr>store_db = d, sessions = [], commits = []\<rparr>"

text \<open>The calls one after the other, each whole.\<close>

fun mem_call :: "memory_config \<Rightarrow> mem_op \<Rightarrow> (db, memory_record) sop" where
  "mem_call c (MStore env ctx x ty md) = store c env ctx x ty md"
| "mem_call c (MUpdate env ctx k x v) = update env ctx k x v"
| "mem_call c (MRollback env ctx k v) = rollback env ctx k v"

text \<open>
  The serial run keeps the databases it has gone through, the newest first. A call that
  commits has to succeed there with the answer its caller got. There is one exception: \<^verbatim>\<open>store\<close>
  of a memory that exists returns the row as its session read it, and another session may have
  updated the memory before the commit. The answer is then the one the same call gets in an
  earlier database of the serial run.
\<close>

fun is_store :: "mem_op \<Rightarrow> bool" where
  "is_store (MStore env ctx x ty md) = True"
| "is_store op = False"

definition agrees :: "memory_config \<Rightarrow> db list \<Rightarrow> mem_op \<Rightarrow> memory_record \<Rightarrow> memory_record \<Rightarrow> bool" where
  "agrees c ds op r s \<longleftrightarrow> r = s \<or> is_store op \<and> (\<exists>e \<in> set ds. fst (mem_call c op e) = Inr r)"

fun serial_replay :: "memory_config \<Rightarrow> entry list \<Rightarrow> db list \<Rightarrow> db list option" where
  "serial_replay c [] ds = Some ds"
| "serial_replay c (Tenant_Commit t now # es) ds =
     serial_replay c es (snd (ensure_tenant t None now (hd ds)) # ds)"
| "serial_replay c (Call_Commit op r # es) ds =
     (case mem_call c op (hd ds) of
        (Inl e, d') \<Rightarrow> None
      | (Inr s, d') \<Rightarrow> if agrees c ds op r s then serial_replay c es (d' # ds) else None)"

lemma serial_replay_append: "serial_replay c (es @ fs) ds = Option.bind (serial_replay c es ds) (serial_replay c fs)"
  by (induction c es ds rule: serial_replay.induct) (auto split: prod.splits sum.splits)

lemma serial_replay_grows: "serial_replay c es ds = Some ds' \<Longrightarrow> set ds \<subseteq> set ds'"
  by (induction c es ds rule: serial_replay.induct) (auto split: prod.splits sum.splits if_splits)

lemma mem_step_call: "mem_step c op d = snd (mem_call c op d)"
  by (cases op) simp_all

subsection \<open>A call on its own\<close>

text \<open>What a session has read is what the database held: it may have moved on, never back.\<close>

definition snapshot :: "MemoryRow \<Rightarrow> db \<Rightarrow> bool" where
  "snapshot row d \<longleftrightarrow> 0 < m_version row \<and> (\<exists>cur. find_by m_id (m_id row) (memories d) = Some cur \<and>
     m_tenant_id cur = m_tenant_id row \<and> (cur = row \<or> m_version row < m_version cur))"

fun pending_ok :: "memory_config \<Rightarrow> mem_op \<Rightarrow> pending \<Rightarrow> db \<Rightarrow> bool" where
  "pending_ok c (MUpdate env ctx k x v) (Rewrite row a y p md) d \<longleftrightarrow>
     snapshot row d \<and> m_id row = k \<and> m_tenant_id row = ctx_tenant_id ctx \<and> m_version row = v \<and>
     a = ''memory.update'' \<and> y = x \<and> p = m_provenance row \<and> md = [(''version'', JInt (v + 1))]"
| "pending_ok c (MRollback env ctx k v) (Rewrite row a y p md) d \<longleftrightarrow>
     snapshot row d \<and> m_id row = k \<and> m_tenant_id row = ctx_tenant_id ctx \<and> a = ''memory.rollback'' \<and>
     (\<exists>q \<in> set (memory_versions d). mv_key q = (ctx_tenant_id ctx, k, v) \<and> y = mv_content q \<and>
        p = mv_provenance q) \<and> md = [(''to_version'', JInt v)]"
| "pending_ok c (MStore env ctx x ty md) (Keep row) d \<longleftrightarrow>
     ctx_tenant_id ctx \<in> tenant_ids d \<and> snapshot row d \<and> m_id row = store_id c (ctx_tenant_id ctx) x ty md"
| "pending_ok c (MStore env ctx x ty md) (Insert row) d \<longleftrightarrow>
     ctx_tenant_id ctx \<in> tenant_ids d \<and>
     (\<exists>cf. py_float (dict_get_default (metadata_of md) ''confidence'' (JFloat 1)) = Inr (Some cf) \<and>
        row = new_row c env (ctx_tenant_id ctx) x ty md cf)"
| "pending_ok c op w d \<longleftrightarrow> False"

fun session_ok :: "memory_config \<Rightarrow> db \<Rightarrow> mem_op \<times> phase \<Rightarrow> bool" where
  "session_ok c d (op, Loaded w) \<longleftrightarrow> pending_ok c op w d"
| "session_ok c d (MStore env ctx x ty md, Tenant_Ready) \<longleftrightarrow> ctx_tenant_id ctx \<in> tenant_ids d"
| "session_ok c d (MRollback env ctx k v, Row_Read (Some row)) \<longleftrightarrow> snapshot row d \<and> m_id row = k"
| "session_ok c d (MRollback env ctx k v, p) \<longleftrightarrow> p \<noteq> Tenant_Absent \<and> p \<noteq> Tenant_Ready"
| "session_ok c d (MUpdate env ctx k x v, p) \<longleftrightarrow> (p = Opened \<or> (\<exists>r. p = Finished r))"
| "session_ok c d (MStore env ctx x ty md, p) \<longleftrightarrow> (p = Opened \<or> p = Tenant_Absent \<or> (\<exists>r. p = Finished r))"

lemma stale_write_current [simp]: "stale_write x now row row = set_content x now row"
  by (simp add: stale_write_def set_content_def)

lemma snapshot_current:
  assumes inv: "mem_inv d" and snap: "snapshot row d"
    and free: "(m_tenant_id row, m_id row, m_version row + 1) \<notin> mv_key ` set (memory_versions d)"
  shows "find_by m_id (m_id row) (memories d) = Some row"
proof -
  from snap obtain cur where cur: "find_by m_id (m_id row) (memories d) = Some cur"
    and t: "m_tenant_id cur = m_tenant_id row" and "cur = row \<or> m_version row < m_version cur"
    and "0 < m_version row" by (auto simp: snapshot_def)
  moreover have "\<not> m_version row < m_version cur"
    using memory_history_version [OF owned_row(5) [OF inv cur], of "m_version row + 1"] free t
      \<open>0 < m_version row\<close> by auto
  ultimately show ?thesis by auto
qed

lemma snapshot_found:
  assumes "mem_inv d" and "find_by m_id k (memories d) = Some row"
  shows "snapshot row d"
  using owned_row [OF assms] assms(2) by (auto simp: snapshot_def memory_check_def)

lemma flush_rewrite_current:
  assumes inv: "mem_inv d" and row: "find_by m_id k (memories d) = Some row"
  shows "flush_rewrite env ctx a x p row md k d = write_version env ctx a x p row md k d"
proof -
  have "r = row" if "r \<in> set (memories d)" "m_id r = k" for r
    using inv row that by (auto simp: mem_inv_def intro: find_memory_unique)
  then have "update_memory k (stale_write x (now_ts env) row) d = update_memory k (set_content x (now_ts env)) d"
    by (auto simp: update_memory_def update_by_def checked_def intro!: arg_cong [where f = "\<lambda>ms. d\<lparr>memories := ms\<rparr>"])
  moreover have "k \<in> memory_ids d" by (rule owned_row(6) [OF inv row])
  ultimately show ?thesis by (simp add: flush_rewrite_def write_version_def Let_def op_bind_def)
qed

lemma flush_rewrite_Inr:
  assumes "mem_inv d" and "snapshot row d" and "m_tenant_id row = ctx_tenant_id ctx"
    and f: "flush_rewrite env ctx a x p row md (m_id row) d = (Inr r, d')"
  shows "find_by m_id (m_id row) (memories d) = Some row"
    and "write_version env ctx a x p row md (m_id row) d = (Inr r, d')"
proof -
  have "(ctx_tenant_id ctx, m_id row, m_version row + 1) \<notin> mv_key ` set (memory_versions d)"
    using f unfolding flush_rewrite_def update_memory_def add_memory_version_def
    by (auto simp: checked_Inr split: if_splits elim!: op_bind_InrE)
  with assms(1-3) show row: "find_by m_id (m_id row) (memories d) = Some row" by (simp add: snapshot_current)
  show "write_version env ctx a x p row md (m_id row) d = (Inr r, d')"
    using f by (simp add: flush_rewrite_current [OF assms(1) row])
qed

lemma store_present_tenant:
  "ctx_tenant_id ctx \<in> tenant_ids d \<Longrightarrow> store c env ctx x ty md d = with_session (
     op_bind (find_or_insert c env (ctx_tenant_id ctx) x ty md) (\<lambda>row.
     op_bind (add_audit (store_audit c env ctx (store_id c (ctx_tenant_id ctx) x ty md))) (\<lambda>_.
     op_return (to_record row)))) d"
  by (simp add: store_def Let_def op_bind_def ensure_tenant_present)

subsection \<open>What commits do to the other sessions\<close>

definition evolves :: "db \<Rightarrow> db \<Rightarrow> bool" where
  "evolves d d' \<longleftrightarrow> tenant_ids d \<subseteq> tenant_ids d' \<and> set (memory_versions d) \<subseteq> set (memory_versions d') \<and>
     set (audit_events d) \<subseteq> set (audit_events d') \<and>
     (\<forall>k cur. find_by m_id k (memories d) = Some cur \<longrightarrow>
        (\<exists>new. find_by m_id k (memories d') = Some new \<and> m_tenant_id new = m_tenant_id cur \<and>
           (new = cur \<or> m_version cur < m_version new)))"

lemma evolves_refl [simp]: "evolves d d"
  by (simp add: evolves_def)

lemma evolves_memories_kept:
  "tenant_ids d \<subseteq> tenant_ids d' \<Longrightarrow> memory_versions d' = memory_versions d \<Longrightarrow> memories d' = memories d \<Longrightarrow>
     set (audit_events d) \<subseteq> set (audit_events d') \<Longrightarrow> evolves d d'"
  by (simp add: evolves_def)

lemma ensure_tenant_evolves:
  assumes "ensure_tenant t name now d = (r, d')"
  shows "evolves d d'"
proof (rule evolves_memories_kept)
  show "tenant_ids d \<subseteq> tenant_ids d'"
    using assms ensure_tenant_returns [of t name now d _ d']
    by (cases r) (auto simp: ensure_tenant_def dest!: with_session_Inl)
qed (use ensure_tenant_frame [OF assms] in simp_all)

lemma evolves_trans:
  assumes "evolves d d1" and "evolves d1 d2"
  shows "evolves d d2"
  unfolding evolves_def
proof (intro conjI allI impI)
  fix k cur
  assume "find_by m_id k (memories d) = Some cur"
  with assms(1) obtain m where "find_by m_id k (memories d1) = Some m" "m_tenant_id m = m_tenant_id cur"
    "m = cur \<or> m_version cur < m_version m" unfolding evolves_def by blast
  moreover from this(1) assms(2) obtain n where "find_by m_id k (memories d2) = Some n"
    "m_tenant_id n = m_tenant_id m" "n = m \<or> m_version m < m_version n" unfolding evolves_def by blast
  ultimately show "\<exists>new. find_by m_id k (memories d2) = Some new \<and> m_tenant_id new = m_tenant_id cur \<and>
      (new = cur \<or> m_version cur < m_version new)" by auto
qed (use assms in \<open>auto simp: evolves_def\<close>)

lemma mem_step_evolves: "evolves d (mem_step c op d)"
proof (cases c op d rule: mem_step_cases)
  case (tenant_only n r)
  then show ?thesis by (rule ensure_tenant_evolves)
next
  case same
  then show ?thesis by simp
next
  case (audit n d1 a)
  then have "evolves d1 (mem_step c op d)" by (intro evolves_memories_kept) (auto simp: tenant_ids_def audited_def)
  with ensure_tenant_evolves [OF audit(1)] show ?thesis by (rule evolves_trans)
next
  case (insert n d1 a env row)
  then have "evolves d1 (mem_step c op d)"
    by (auto simp: evolves_def inserted_def audited_def tenant_ids_def find_by_append)
  with ensure_tenant_evolves [OF insert(1)] show ?thesis by (rule evolves_trans)
next
  case (rewrite env ctx a x p row md k)
  then show ?thesis by (auto simp: evolves_def rewritten_def tenant_ids_def find_by_update_by)
qed

text \<open>
  What a \<^verbatim>\<open>store\<close> session has read was the current row in one of the databases of the serial run, where
  the call returns it.
\<close>

fun read_ok :: "memory_config \<Rightarrow> db \<Rightarrow> db list \<Rightarrow> mem_op \<times> phase \<Rightarrow> bool" where
  "read_ok c d ds (MStore env ctx x ty md, Loaded (Keep row)) \<longleftrightarrow>
     (\<exists>e \<in> set ds. ctx_tenant_id ctx \<in> tenant_ids e \<and>
        find_by m_id (store_id c (ctx_tenant_id ctx) x ty md) (memories e) = Some row \<and> evolves e d)"
| "read_ok c d ds s \<longleftrightarrow> True"

lemma read_ok_evolves:
  assumes "read_ok c d ds s" and "evolves d d'" and "set ds \<subseteq> set ds'"
  shows "read_ok c d' ds' s"
  using assms by (induction c d ds s rule: read_ok.induct) (auto intro: evolves_trans)

lemma store_as_read:
  assumes "ctx_tenant_id ctx \<in> tenant_ids e" and row: "find_by m_id (store_id c (ctx_tenant_id ctx) x ty md) (memories e) = Some row"
    and "evolves e d" and au: "add_audit (store_audit c env ctx (store_id c (ctx_tenant_id ctx) x ty md)) d = (Inr (), d')"
  shows "fst (mem_call c (MStore env ctx x ty md) e) = Inr (to_record row)"
proof -
  let ?a = "store_audit c env ctx (store_id c (ctx_tenant_id ctx) x ty md)"
  from au \<open>evolves e d\<close> have "ae_id ?a \<notin> ae_id ` set (audit_events e)" "audit_check ?a"
    by (auto simp: add_audit_def checked_Inr evolves_def)
  then have "\<exists>e'. add_audit ?a e = (Inr (), e')"
    using assms(1) by (simp add: add_audit_def checked_def audit_row_def)
  then show ?thesis
    using row by (auto simp: store_present_tenant [OF assms(1)] with_session_def find_or_insert_def op_bind_def)
qed

lemma flush_serial:
  assumes inv: "mem_inv d" and ok: "pending_ok c op w d" and seen: "read_ok c d ds (op, Loaded w)"
    and f: "flush c op w d = (Inr r, d')"
  shows "\<exists>s. mem_call c op d = (Inr s, d') \<and> agrees c ds op r s"
proof (cases op)
  case (MUpdate env ctx k x v)
  with ok obtain row a p md where w: "w = Rewrite row a x p md" and snap: "snapshot row d" "m_id row = k"
    "m_tenant_id row = ctx_tenant_id ctx" "m_version row = v" "a = ''memory.update''" "p = m_provenance row"
    "md = [(''version'', JInt (v + 1))]"
    by (cases w) auto
  with f MUpdate have "flush_rewrite env ctx a x p row md (m_id row) d = (Inr r, d')" by simp
  note cur = flush_rewrite_Inr [OF inv snap(1,3) this]
  have "update env ctx k x v d = with_session (write_version env ctx a x p row md k) d"
    unfolding update_def using cur(1) snap by (intro with_session_cong) simp
  with cur(2) MUpdate snap(2) show ?thesis by (simp add: with_session_def agrees_def)
next
  case (MRollback env ctx k v)
  with ok obtain row a x p md q where w: "w = Rewrite row a x p md" and snap: "snapshot row d" "m_id row = k"
    "m_tenant_id row = ctx_tenant_id ctx" "a = ''memory.rollback''" "md = [(''to_version'', JInt v)]"
    and q: "q \<in> set (memory_versions d)" "mv_key q = (ctx_tenant_id ctx, k, v)"
    "x = mv_content q" "p = mv_provenance q"
    by (cases w) auto
  with f MRollback have "flush_rewrite env ctx a x p row md (m_id row) d = (Inr r, d')" by simp
  note cur = flush_rewrite_Inr [OF inv snap(1,3) this]
  have "rollback env ctx k v d = with_session (write_version env ctx a x p row md k) d"
    unfolding rollback_def using cur(1) snap q versions_of_unique [OF inv q(1,2)]
    by (intro with_session_cong) (simp add: scalar_one_or_none_def)
  with cur(2) MRollback snap(2) show ?thesis by (simp add: with_session_def agrees_def)
next
  case (MStore env ctx x ty md)
  let ?k = "store_id c (ctx_tenant_id ctx) x ty md"
  from ok MStore have "ctx_tenant_id ctx \<in> tenant_ids d" by (cases w) auto
  note st = store_present_tenant [OF this, of c env x ty md]
  show ?thesis
  proof (cases w)
    case (Keep row)
    with ok MStore obtain cur where cur: "find_by m_id ?k (memories d) = Some cur" by (auto simp: snapshot_def)
    from f Keep MStore have au: "add_audit (store_audit c env ctx ?k) d = (Inr (), d')" and r: "r = to_record row"
      by (auto elim!: op_bind_InrE)
    from seen Keep MStore obtain e where "e \<in> set ds" and "fst (mem_call c op e) = Inr r"
      using store_as_read [OF _ _ _ au] r by auto
    then have "agrees c ds op r (to_record cur)" using MStore by (auto simp: agrees_def)
    with cur au MStore st show ?thesis by (simp add: with_session_def find_or_insert_def op_bind_def)
  next
    case (Insert row)
    with ok MStore obtain cf where
      cf: "py_float (dict_get_default (metadata_of md) ''confidence'' (JFloat 1)) = Inr (Some cf)"
      and row: "row = new_row c env (ctx_tenant_id ctx) x ty md cf" by auto
    from f Insert MStore obtain u d1 where ins: "insert_memory env (ctx_tenant_id ctx) row d = (Inr u, d1)"
      and au: "add_audit (store_audit c env ctx ?k) d1 = (Inr (), d')" and r: "r = to_record row"
      by (auto elim!: op_bind_InrE)
    have "find_by m_id ?k (memories d) = None" and u: "u = row"
      using insert_memory_Inr [OF ins] row by (simp_all add: find_by_None_iff memory_ids_def)
    with ins cf row have "find_or_insert c env (ctx_tenant_id ctx) x ty md d = (Inr row, d1)"
      by (simp add: find_or_insert_def)
    with au r MStore st show ?thesis by (simp add: with_session_def op_bind_def agrees_def)
  next
    case (Rewrite row a y p m)
    with ok MStore show ?thesis by simp
  qed
qed

lemma snapshot_evolves: "snapshot row d \<Longrightarrow> evolves d d' \<Longrightarrow> snapshot row d'"
  by (fastforce simp: snapshot_def evolves_def)

lemma pending_ok_evolves: "pending_ok c op w d \<Longrightarrow> evolves d d' \<Longrightarrow> pending_ok c op w d'"
  by (cases op; cases w) (auto simp: snapshot_evolves, auto simp: evolves_def)

lemma session_ok_evolves:
  assumes "session_ok c d s" and "evolves d d'"
  shows "session_ok c d' s"
proof -
  obtain op p where s: "s = (op, p)" by (cases s)
  show ?thesis
  proof (cases p)
    case (Loaded w)
    with assms s show ?thesis by (simp add: pending_ok_evolves)
  next
    case Tenant_Ready
    with assms s show ?thesis by (cases op) (auto simp: evolves_def)
  next
    case (Row_Read f)
    with assms s show ?thesis by (cases op; cases f) (auto simp: snapshot_evolves)
  qed (use assms s in \<open>cases op; simp\<close>)+
qed

lemma read_for_update_ok:
  "mem_inv d \<Longrightarrow> session_ok c d (MUpdate env ctx k x v, read_for_update ctx k x v d)"
  by (auto simp: read_for_update_def split: option.split dest: snapshot_found find_by_key)

lemma read_for_rollback_ok:
  assumes "session_ok c d (MRollback env ctx k v, Row_Read f)"
  shows "session_ok c d (MRollback env ctx k v, read_for_rollback ctx k v f d)"
proof -
  have "r \<in> set (memory_versions d) \<and> mv_key r = (ctx_tenant_id ctx, k, v)"
    if "versions_of (ctx_tenant_id ctx) k v d = [r]" for r
    using arg_cong [OF that, of set] by (auto simp: versions_of_def)
  with assms show ?thesis
    by (auto simp: read_for_rollback_def scalar_one_or_none_def split: option.split list.split)
qed

lemma read_for_store_ok:
  "mem_inv d \<Longrightarrow> ctx_tenant_id ctx \<in> tenant_ids d \<Longrightarrow>
     session_ok c d (MStore env ctx x ty md, read_for_store c env (ctx_tenant_id ctx) x ty md d)"
  by (auto simp: read_for_store_def split: option.split sum.split dest: snapshot_found find_by_key)

lemma find_tenant: "find_by tn_id t (tenants d) = None \<longleftrightarrow> t \<notin> tenant_ids d"
  by (simp add: find_by_None_iff tenant_ids_def)

lemma tenant_alone:
  "t \<notin> tenant_ids d \<Longrightarrow> with_session (add_tenant (new_tenant t now)) d = ensure_tenant t None now d"
  by (simp add: ensure_tenant_def new_tenant_def find_tenant [symmetric] with_session_def)

lemma add_tenant_ensures:
  assumes "with_session (add_tenant (new_tenant t now)) d = (Inr u, d')"
  shows "ensure_tenant t None now d = (Inr (), d')"
proof -
  from assms have "t \<notin> tenant_ids d" by (simp add: with_session_Inr add_tenant_def checked_Inr new_tenant_def)
  with assms show ?thesis by (simp add: tenant_alone)
qed

text \<open>The history after a phase: a commit adds its database.\<close>

definition history_after :: "mem_op \<Rightarrow> phase \<Rightarrow> phase \<Rightarrow> db \<Rightarrow> db list \<Rightarrow> db list" where
  "history_after op p q d' ds = (if committed op p q = [] then ds else d' # ds)"

definition good_step :: "memory_config \<Rightarrow> mem_op \<Rightarrow> phase \<Rightarrow> db list \<Rightarrow> phase \<Rightarrow> db \<Rightarrow> bool" where
  "good_step c op p ds q d' \<longleftrightarrow> mem_inv d' \<and> evolves (hd ds) d' \<and> session_ok c d' (op, q) \<and>
     read_ok c d' (history_after op p q d' ds) (op, q) \<and> hd (history_after op p q d' ds) = d' \<and>
     serial_replay c (committed op p q) ds = Some (history_after op p q d' ds)"

lemma flush_good:
  assumes inv: "mem_inv d" and ok: "pending_ok c op w d" and seen: "read_ok c d ds (op, Loaded w)"
    and d: "hd ds = d" and f: "advance c op (Loaded w, d) = (q, d')"
  shows "good_step c op (Loaded w) ds q d'"
proof -
  obtain r d1 where r: "with_session (flush c op w) d = (r, d1)" by fastforce
  with f have q: "q = Finished r" "d' = d1" by simp_all
  have fin: "session_ok c d0 (op, Finished r)" "read_ok c d0 ds0 (op, Finished r)" for d0 ds0 by (cases op; simp)+
  show ?thesis
  proof (cases r)
    case (Inl e)
    with r q inv fin d show ?thesis by (auto simp: good_step_def history_after_def dest: with_session_Inl)
  next
    case (Inr rec)
    with r q obtain s where s: "mem_call c op d = (Inr s, d')" "agrees c ds op rec s"
      using flush_serial [OF inv ok seen] by (auto simp: with_session_Inr)
    then have "mem_inv d'" and "evolves d d'"
      using mem_step_inv [OF inv, of c op] mem_step_evolves [of d c op] by (simp_all add: mem_step_call)
    with s Inr q fin d show ?thesis by (simp add: good_step_def history_after_def)
  qed
qed

lemma row_read_ok: "mem_inv d \<Longrightarrow> session_ok c d (MRollback env ctx k v, Row_Read (find_by m_id k (memories d)))"
  by (cases "find_by m_id k (memories d)") (auto dest: snapshot_found find_by_key)

lemma committed_Finished [simp]: "committed op p (Finished (Inl e)) = []"
  by (cases p) simp_all

lemma committed_reading [simp]: "\<nexists>w. p = Loaded w \<Longrightarrow> p \<noteq> Tenant_Absent \<Longrightarrow> committed op p q = []"
  by (cases p) simp_all

lemma tenant_good:
  assumes inv: "mem_inv d" and op: "op = MStore env ctx x ty md" and a: "advance c op (Tenant_Absent, d) = (q, d')"
    and d: "hd ds = d"
  shows "good_step c op Tenant_Absent ds q d'"
proof -
  let ?t = "ctx_tenant_id ctx"
  obtain r d1 where r: "with_session (add_tenant (new_tenant ?t (now_ts env))) d = (r, d1)" by fastforce
  show ?thesis
  proof (cases r)
    case (Inl e)
    with r a op inv d show ?thesis by (auto simp: good_step_def history_after_def dest: with_session_Inl)
  next
    case (Inr u)
    with r a op have q: "q = Tenant_Ready" "d' = d1" by simp_all
    have e: "ensure_tenant ?t None (now_ts env) d = (Inr (), d')"
      using r Inr q by (intro add_tenant_ensures) simp
    have "db_ok d'" using alwaysD [OF ensure_tenant_always _ e] inv by (simp add: mem_inv_def)
    moreover have "linked d'" using ensure_tenant_frame [OF e] inv
      by (intro linked_frame [of d d']) (simp_all add: mem_inv_def)
    ultimately show ?thesis
      using q op e d ensure_tenant_evolves [OF e] ensure_tenant_returns [OF e]
      by (simp add: good_step_def history_after_def mem_inv_def)
  qed
qed

lemma advance_good:
  assumes inv: "mem_inv d" and ok: "session_ok c d (op, p)" and seen: "read_ok c d ds (op, p)"
    and d: "hd ds = d" "ds \<noteq> []" and a: "advance c op (p, d) = (q, d')"
  shows "good_step c op p ds q d'"
proof (cases p)
  case (Finished r)
  with a inv ok d show ?thesis by (cases op) (auto simp: good_step_def history_after_def)
next
  case (Loaded w)
  with a ok inv seen d show ?thesis by (simp add: flush_good)
next
  case Opened
  have "read_ok c d' ds (op, q)"
    using a Opened by (cases op) (auto simp: read_for_update_def split: option.split)
  then show ?thesis
    using a inv read_for_update_ok [OF inv] row_read_ok [OF inv] Opened d
    by (cases op) (auto simp: good_step_def history_after_def find_by_None_iff tenant_ids_def)
next
  case Tenant_Absent
  with ok obtain env ctx x ty md where "op = MStore env ctx x ty md" by (cases op) auto
  with tenant_good [OF inv] a Tenant_Absent d show ?thesis by simp
next
  case Tenant_Ready
  with ok obtain env ctx x ty md where op: "op = MStore env ctx x ty md" by (cases op) auto
  with a ok Tenant_Ready have t: "ctx_tenant_id ctx \<in> tenant_ids d"
    and q: "q = read_for_store c env (ctx_tenant_id ctx) x ty md d" "d' = d" by auto
  have "d \<in> set ds" using d by (cases ds) simp_all
  with t q op have "read_ok c d' ds (op, q)"
    by (auto simp: read_for_store_def split: option.split sum.split)
  with op q Tenant_Ready inv t d read_for_store_ok [OF inv] show ?thesis
    by (simp add: good_step_def history_after_def)
next
  case (Row_Read f)
  with ok obtain env ctx k v where op: "op = MRollback env ctx k v" by (cases op) auto
  then have "read_ok c d' ds (op, q)" by simp
  with op a ok inv Row_Read read_for_rollback_ok d show ?thesis by (auto simp: good_step_def history_after_def)
qed

subsection \<open>Reachable states\<close>

definition race_inv :: "memory_config \<Rightarrow> db \<Rightarrow> race_state \<Rightarrow> bool" where
  "race_inv c d0 w \<longleftrightarrow> mem_inv (store_db w) \<and> (\<forall>s \<in> set (sessions w). session_ok c (store_db w) s) \<and>
     (\<exists>ds. serial_replay c (commits w) [d0] = Some ds \<and> ds \<noteq> [] \<and> hd ds = store_db w \<and>
        (\<forall>s \<in> set (sessions w). read_ok c (store_db w) ds s)) \<and>
     mset (answered (sessions w)) = mset (calls_of (commits w))"

lemma read_not_success:
  assumes "advance c op (p, d) = (Finished (Inr r), d')" and "session_ok c d (op, p)"
  shows "p = Finished (Inr r) \<or> (\<exists>w. p = Loaded w)"
proof (cases p)
  case Opened
  with assms show ?thesis
    by (cases op) (auto simp: read_for_update_def split: option.splits if_splits)
next
  case Tenant_Absent
  with assms show ?thesis by (cases op) (auto split: prod.splits sum.splits)
next
  case Tenant_Ready
  with assms show ?thesis by (cases op) (auto simp: read_for_store_def split: option.splits sum.splits)
next
  case (Row_Read f)
  with assms show ?thesis
    by (cases op) (auto simp: read_for_rollback_def scalar_one_or_none_def split: option.splits list.splits if_splits)
qed (use assms in auto)

lemma answer_advance:
  assumes a: "advance c op (p, d) = (q, d')" and ok: "session_ok c d (op, p)"
  shows "call_answer (op, q) = call_answer (op, p) @ calls_of (committed op p q)"
proof (cases "call_answer (op, q)")
  case Nil
  moreover have "call_answer (op, p) = []" using a Nil by (cases "(op, p)" rule: call_answer.cases) auto
  moreover have "calls_of (committed op p q) = []"
    using Nil by (cases "(op, p, q)" rule: committed.cases) (auto simp: calls_of_def split: prod.splits)
  ultimately show ?thesis by simp
next
  case (Cons x xs)
  then obtain r where q: "q = Finished (Inr r)" by (cases "(op, q)" rule: call_answer.cases) auto
  with a ok read_not_success consider "p = q" | w where "p = Loaded w" by blast
  then show ?thesis using q by cases (auto simp: calls_of_def)
qed

lemma answered_update:
  assumes "i < length ss" and "ss ! i = (op, p)" and "call_answer (op, q) = call_answer (op, p) @ new"
  shows "mset (answered (ss[i := (op, q)])) = mset (answered ss) + mset new"
proof -
  let ?f = "\<lambda>ss. mset (answered ss)"
  have "?f (ss[i := (op, q)]) = ?f (take i ss) + mset (call_answer (op, q)) + ?f (drop (Suc i) ss)"
    using assms(1) by (simp add: upd_conv_take_nth_drop answered_def)
  also have "\<dots> = ?f (take i ss @ (op, p) # drop (Suc i) ss) + mset new"
    by (simp add: answered_def assms(3))
  also have "take i ss @ (op, p) # drop (Suc i) ss = ss"
    using assms(1,2) id_take_nth_drop by metis
  finally show ?thesis .
qed

lemma race_preserves:
  assumes "race c w w'" and "race_inv c d0 w"
  shows "race_inv c d0 w'"
  using assms
proof (cases rule: race.cases)
  case (race_open op)
  moreover have "session_ok c d (op, Opened)" "read_ok c d ds (op, Opened)" for d ds by (cases op; simp)+
  ultimately show ?thesis using assms(2) by (auto simp: race_inv_def answered_def)
next
  case (race_advance i op p q d)
  from assms(2) obtain ds where inv: "mem_inv (store_db w)" and all: "\<forall>s \<in> set (sessions w). session_ok c (store_db w) s"
    and rep: "serial_replay c (commits w) [d0] = Some ds" "ds \<noteq> []" "hd ds = store_db w"
    and seen: "\<forall>s \<in> set (sessions w). read_ok c (store_db w) ds s"
    and succ: "mset (answered (sessions w)) = mset (calls_of (commits w))"
    by (auto simp: race_inv_def)
  let ?ds = "history_after op p q d ds"
  have mem: "(op, p) \<in> set (sessions w)" using race_advance(2,3) by (metis nth_mem)
  with all seen have ok: "session_ok c (store_db w) (op, p)" "read_ok c (store_db w) ds (op, p)" by blast+
  with advance_good [OF inv ok rep(3,2) race_advance(4)]
  have good: "mem_inv d" "evolves (store_db w) d" "session_ok c d (op, q)" "read_ok c d ?ds (op, q)" "hd ?ds = d"
    "serial_replay c (committed op p q) ds = Some ?ds" using rep by (simp_all add: good_step_def)
  have more: "set ds \<subseteq> set ?ds" "?ds \<noteq> []" using rep(2) by (auto simp: history_after_def)
  have "mset (answered ((sessions w)[i := (op, q)])) = mset (calls_of (commits w @ committed op p q))"
    using answered_update [OF race_advance(2,3) answer_advance [OF race_advance(4) ok(1)]] succ
    by (simp add: calls_of_def)
  moreover have "set ((sessions w)[i := (op, q)]) \<subseteq> insert (op, q) (set (sessions w))"
    by (rule set_update_subset_insert)
  moreover have "\<forall>s \<in> insert (op, q) (set (sessions w)). session_ok c d s \<and> read_ok c d ?ds s"
    using good all seen session_ok_evolves read_ok_evolves [OF _ good(2) more(1)] by blast
  moreover have "serial_replay c (commits w @ committed op p q) [d0] = Some ?ds"
    using rep(1) good(6) by (simp add: serial_replay_append)
  ultimately show ?thesis
    unfolding race_inv_def race_advance(1) using good(1,5) more(2)
    by (auto intro!: exI [of _ ?ds])
qed

lemma race_reachable:
  assumes "(race c)\<^sup>*\<^sup>* (idle_world d) w" and "mem_inv d"
  shows "race_inv c d w"
  using assms
proof (induction rule: rtranclp_induct)
  case base
  then show ?case by (simp add: race_inv_def idle_world_def answered_def calls_of_def)
next
  case (step w w')
  then show ?case by (simp add: race_preserves)
qed

subsection \<open>Updates of one version\<close>

fun update_key :: "entry \<Rightarrow> (string \<times> int) list" where
  "update_key (Call_Commit (MUpdate env ctx k x v) r) = [(k, v)]"
| "update_key e = []"

definition update_keys :: "entry list \<Rightarrow> (string \<times> int) list" where
  "update_keys es = concat (map update_key es)"

lemma update_keys_Cons [simp]: "update_keys (e # es) = update_key e @ update_keys es"
  and update_keys_Nil [simp]: "update_keys [] = []"
  by (simp_all add: update_keys_def)

lemma held_evolves: "held k t v d \<Longrightarrow> mem_inv d' \<Longrightarrow> evolves d d' \<Longrightarrow> held k t v d'"
  by (fastforce simp: held_def evolves_def)

lemma ensure_tenant_inv: "mem_inv d \<Longrightarrow> mem_inv (snd (ensure_tenant t name now d))"
  using ensure_tenant_always [of t name now] ensure_tenant_frame [of t name now d "fst (ensure_tenant t name now d)"]
  by (auto simp: mem_inv_def always_def intro: linked_frame [of d])

lemma update_holds:
  "mem_inv d \<Longrightarrow> update env ctx k x v d = (Inr r, d') \<Longrightarrow> held k (ctx_tenant_id ctx) (v + 1) d'"
  by (frule (1) alwaysD [OF update_inv])
    (auto simp: held_def rewritten_def find_by_update_by elim!: update_Inr)

lemma held_blocks:
  assumes "held k t (v + 1) (hd ds)" and "serial_replay c es ds = Some ds'"
  shows "(k, v) \<notin> set (update_keys es)"
  using assms
proof (induction c es ds rule: serial_replay.induct)
  case (1 c ds)
  then show ?case by simp
next
  case (2 c t' now es ds)
  have "held k t (v + 1) (snd (ensure_tenant t' None now (hd ds)))"
    using 2(2) ensure_tenant_inv ensure_tenant_evolves by (intro held_evolves [OF 2(2)]) (auto simp: held_def prod_eq_iff)
  with 2 show ?case by simp
next
  case (3 c op r es ds)
  let ?d = "hd ds"
  from 3(3) obtain s where s: "mem_call c op ?d = (Inr s, snd (mem_call c op ?d))"
    and rest: "serial_replay c es (snd (mem_call c op ?d) # ds) = Some ds'" and ok: "agrees c ds op r s"
    by (auto split: prod.splits sum.splits if_splits)
  have "held k t (v + 1) (snd (mem_call c op ?d))"
    using mem_step_held [OF 3(2), of c op] by (simp add: mem_step_call)
  with 3(1) s rest ok have "(k, v) \<notin> set (update_keys es)" by (metis (no_types, lifting) list.sel(1) prod.collapse)
  moreover have "(k, v) \<notin> set (update_key (Call_Commit op r))"
    using s 3(2) by (cases op) (auto simp: held_def elim!: update_Inr)
  ultimately show ?case by simp
qed

lemma replay_updates_distinct:
  assumes "mem_inv (hd ds)" and "serial_replay c es ds = Some ds'"
  shows "distinct (update_keys es)"
  using assms
proof (induction c es ds rule: serial_replay.induct)
  case (1 c ds)
  then show ?case by simp
next
  case (2 c t now es ds)
  then show ?case by (simp add: ensure_tenant_inv)
next
  case (3 c op r es ds)
  let ?d = "hd ds"
  from 3(3) obtain s where s: "mem_call c op ?d = (Inr s, snd (mem_call c op ?d))"
    and rest: "serial_replay c es (snd (mem_call c op ?d) # ds) = Some ds'" and ok: "agrees c ds op r s"
    by (auto split: prod.splits sum.splits if_splits)
  have "mem_inv (snd (mem_call c op ?d))" using mem_step_inv [OF 3(2), of c op] by (simp add: mem_step_call)
  with 3(1) s rest ok have "distinct (update_keys es)" by (metis (no_types, lifting) list.sel(1) prod.collapse)
  moreover have "(k, v) \<notin> set (update_keys es)" if "op = MUpdate env ctx k x v" for env ctx k x v
    by (rule held_blocks [OF update_holds [OF 3(2)]]) (use s that rest in simp_all)
  ultimately show ?case by (cases op) auto
qed

subsection \<open>A call on its own\<close>

lemma update_alone:
  assumes "mem_inv d"
  shows "advance c (MUpdate env ctx k x v) (read_for_update ctx k x v d, d) =
    apfst Finished (update env ctx k x v d)"
proof (cases "find_by m_id k (memories d)")
  case None
  then show ?thesis by (simp add: read_for_update_def update_def with_session_def)
next
  case (Some row)
  show ?thesis
  proof (cases "m_tenant_id row = ctx_tenant_id ctx \<and> m_version row = v")
    case True
    with Some have "update env ctx k x v d = with_session (flush_rewrite env ctx ''memory.update'' x (m_provenance row)
        row [(''version'', JInt (v + 1))] k) d"
      unfolding update_def by (intro with_session_cong) (simp add: flush_rewrite_current [OF assms Some])
    with Some True show ?thesis by (simp add: read_for_update_def)
  next
    case False
    with Some show ?thesis by (auto simp: read_for_update_def update_def with_session_def)
  qed
qed


lemma rollback_alone:
  assumes "mem_inv d"
  shows "advance c (MRollback env ctx k v) (read_for_rollback ctx k v (find_by m_id k (memories d)) d, d) =
    apfst Finished (rollback env ctx k v d)"
proof (cases "\<exists>row q. find_by m_id k (memories d) = Some row \<and> m_tenant_id row = ctx_tenant_id ctx \<and>
    versions_of (ctx_tenant_id ctx) k v d = [q]")
  case True
  then obtain row q where row: "find_by m_id k (memories d) = Some row" and t: "m_tenant_id row = ctx_tenant_id ctx"
    and q: "versions_of (ctx_tenant_id ctx) k v d = [q]" by blast
  then have "rollback env ctx k v d = with_session (flush_rewrite env ctx ''memory.rollback'' (mv_content q)
      (mv_provenance q) row [(''to_version'', JInt v)] k) d"
    unfolding rollback_def
    by (intro with_session_cong) (simp add: flush_rewrite_current [OF assms row] scalar_one_or_none_def)
  with row t q show ?thesis by (simp add: read_for_rollback_def scalar_one_or_none_def)
next
  case False
  then show ?thesis
    by (auto simp: read_for_rollback_def rollback_def with_session_def op_bind_def scalar_one_or_none_def
        split: option.split list.split)
qed

lemma store_alone:
  assumes "ctx_tenant_id ctx \<in> tenant_ids d"
  shows "advance c (MStore env ctx x ty md) (read_for_store c env (ctx_tenant_id ctx) x ty md d, d) =
    apfst Finished (store c env ctx x ty md d)"
  unfolding store_present_tenant [OF assms] read_for_store_def find_or_insert_def
  by (auto simp: with_session_def op_bind_def find_or_insert_def split: option.split sum.split prod.split)
    (metis insert_memory_Inr)

lemma finished_stays: "(advance c op ^^ n) (Finished r, d) = (Finished r, d)"
  by (induction n) simp_all

lemma store_runs_alone:
  "(advance c (MStore env ctx x ty md) ^^ 4) (Opened, d) = apfst Finished (store c env ctx x ty md d)"
proof -
  let ?op = "MStore env ctx x ty md" and ?t = "ctx_tenant_id ctx"
  obtain r d1 where e: "ensure_tenant ?t None (now_ts env) d = (r, d1)" by fastforce
  show ?thesis
  proof (cases "?t \<in> tenant_ids d")
    case True
    then have "(advance c ?op ^^ 3) (Opened, d) = apfst Finished (store c env ctx x ty md d)"
      by (simp add: eval_nat_numeral find_tenant store_alone)
    then show ?thesis by (simp add: eval_nat_numeral apfst_def map_prod_def split: prod.split)
  next
    case False
    show ?thesis
    proof (cases r)
      case (Inl err)
      with e False have "(advance c ?op ^^ 2) (Opened, d) = (Finished (Inl err), d1)"
        by (simp add: eval_nat_numeral find_tenant tenant_alone)
      moreover have "store c env ctx x ty md d = (Inl err, d1)"
        using e Inl by (simp add: store_def Let_def op_bind_def)
      ultimately show ?thesis by (simp add: eval_nat_numeral)
    next
      case (Inr u)
      with e False have ready: "(advance c ?op ^^ 2) (Opened, d) = (Tenant_Ready, d1)"
        by (simp add: eval_nat_numeral find_tenant tenant_alone)
      have t: "?t \<in> tenant_ids d1" using ensure_tenant_returns [of ?t None "now_ts env" d u d1] e Inr by simp
      have "(advance c ?op ^^ 4) (Opened, d) = apfst Finished (store c env ctx x ty md d1)"
        using ready by (simp add: eval_nat_numeral store_alone [OF t])
      also have "store c env ctx x ty md d1 = store c env ctx x ty md d"
        using e Inr ensure_tenant_present [OF t, of None "now_ts env"]
        by (simp add: store_def Let_def op_bind_def)
      finally show ?thesis .
    qed
  qed
qed

subsection \<open>Schedules\<close>

text \<open>A schedule as data: which call is opened, or whose turn it is.\<close>

datatype move = Open mem_op | Turn nat

fun play :: "memory_config \<Rightarrow> move \<Rightarrow> race_state \<Rightarrow> race_state" where
  "play c (Open op) w = w\<lparr>sessions := sessions w @ [(op, Opened)]\<rparr>"
| "play c (Turn i) w =
     (if i < length (sessions w) then
        (case sessions w ! i of (op, p) \<Rightarrow>
         case advance c op (p, store_db w) of (q, d) \<Rightarrow>
           \<lparr>store_db = d, sessions = (sessions w)[i := (op, q)], commits = commits w @ committed op p q\<rparr>)
      else w)"

lemma play_race: "(race c)\<^sup>*\<^sup>* w (play c m w)"
proof (cases m)
  case (Open op)
  then show ?thesis using race_open [of c w op] by (simp add: r_into_rtranclp)
next
  case (Turn i)
  show ?thesis
  proof (cases "i < length (sessions w)")
    case True
    obtain op p where s: "sessions w ! i = (op, p)" by fastforce
    obtain q d where a: "advance c op (p, store_db w) = (q, d)" by fastforce
    have "race c w (play c m w)" using race_advance [OF True s a] Turn True s a by simp
    then show ?thesis ..
  qed (simp add: Turn)
qed

lemma schedule_race: "(race c)\<^sup>*\<^sup>* w (fold (play c) ms w)"
proof (induction ms arbitrary: w)
  case (Cons m ms)
  have "(race c)\<^sup>*\<^sup>* w (play c m w)" by (rule play_race)
  also have "(race c)\<^sup>*\<^sup>* (play c m w) (fold (play c) ms (play c m w))" by (rule Cons.IH)
  finally show ?case by simp
qed simp

text \<open>
  No call waits or retries: whatever commits in between, each turn of a session brings it closer
  to its end, which it reaches after at most four.
\<close>

fun phases_left :: "phase \<Rightarrow> nat" where
  "phases_left Opened = 4"
| "phases_left Tenant_Absent = 3"
| "phases_left Tenant_Ready = 2"
| "phases_left (Row_Read f) = 2"
| "phases_left (Loaded w) = 1"
| "phases_left (Finished r) = 0"

lemma turn_progress:
  assumes "session_ok c d (op, p)" and "phases_left p \<noteq> 0"
  shows "phases_left (fst (advance c op (p, d))) < phases_left p"
proof (cases p)
  case (Loaded w)
  then show ?thesis by (cases "with_session (flush c op w) d") simp
next
  case Opened
  then show ?thesis by (cases op) (auto simp: read_for_update_def split: option.split)
next
  case Tenant_Absent
  with assms show ?thesis by (cases op) (auto split: prod.split sum.split)
next
  case Tenant_Ready
  with assms show ?thesis by (cases op) (auto simp: read_for_store_def split: option.split sum.split)
next
  case (Row_Read f)
  with assms show ?thesis
    by (cases op) (auto simp: read_for_rollback_def split: option.split sum.split prod.split)
qed (use assms in simp)

definition race_example_update :: "string \<Rightarrow> string \<Rightarrow> mem_op" where
  "race_example_update a x = MUpdate (memory_example_env a) (memory_example_ctx ''acme'')
     ''acme:default:fact:hello world'' x 1"

text \<open>
  One call stores a memory; then two updates against its version 1 both read it and pass the
  version check before either writes.
\<close>

definition race_example_schedule :: "move list" where
  "race_example_schedule = [Open (memory_example_store ''1'' ''acme''), Turn 0, Turn 0, Turn 0, Turn 0,
     Open (race_example_update ''2'' ''x''), Open (race_example_update ''3'' ''y''), Turn 1, Turn 2, Turn 2, Turn 1]"

definition race_example :: race_state where
  "race_example = fold (play memory_example_config) race_example_schedule (idle_world empty_db)"

lemma race_example_reachable: "(race memory_example_config)\<^sup>*\<^sup>* (idle_world empty_db) race_example"
  unfolding race_example_def by (rule schedule_race)

text \<open>
  The session that flushes second gets an \<open>IntegrityError\<close> from the unique constraint, not the
  \<open>OptimisticConcurrencyError\<close> that \<^verbatim>\<open>update\<close> promises for a stale version.
\<close>

lemma losing_update_integrity_error:
  "map (\<lambda>s. case snd s of Finished (Inl e) \<Rightarrow> Some e | _ \<Rightarrow> None) (sessions race_example) =
     [None, Some (IntegrityError ''memory_versions''), None]"
  by code_simp

subsection \<open>Properties\<close>

text \<open>
  C7: Serializability: however the phases of any number of concurrent \<open>store\<close>, \<open>update\<close> and
  \<open>rollback\<close> calls interleave, the database is the one the committed transactions leave when they run one
  after the other, each call whole, in the order of their commits. Every one of them succeeds in that
  serial run: an \<open>update\<close> or \<open>rollback\<close> with exactly the record its caller got; a \<open>store\<close> too, or its
  caller got exactly the record which the same call returns at an earlier point of the serial run (the memory
  existed and was rewritten between the read and the commit). The calls that
  have returned a record are exactly those, and the integrity of every table and the version histories are kept.
\<close>

theorem concurrent_calls_serializable:
  assumes "mem_inv d" and "(race c)\<^sup>*\<^sup>* (idle_world d) w"
  shows "\<exists>ds. serial_replay c (commits w) [d] = Some ds \<and> hd ds = store_db w \<and>
    mset (answered (sessions w)) = mset (calls_of (commits w)) \<and>
    db_ok (store_db w) \<and> linked (store_db w)"
  using race_reachable [OF assms(2,1)] by (auto simp: race_inv_def mem_inv_def)

theorem concurrent_calls_serializable_witness:
  "length (calls_of (commits race_example)) = 2 \<and>
   (\<exists>ds. serial_replay memory_example_config (commits race_example) [empty_db] = Some ds \<and> hd ds = store_db race_example)"
proof -
  have "length (calls_of (commits race_example)) = 2" by code_simp
  then show ?thesis
    using concurrent_calls_serializable [OF mem_inv_empty race_example_reachable] by blast
qed

text \<open>
  C10: No lost update under concurrency: in every interleaving, at most one \<open>update\<close> commits
  against each version of a memory, though several sessions can pass the version check.
\<close>

theorem concurrent_updates_commit_once:
  assumes "mem_inv d" and "(race c)\<^sup>*\<^sup>* (idle_world d) w"
  shows "distinct (update_keys (commits w))"
  using race_reachable [OF assms(2,1)] using replay_updates_distinct [of "[d]"] assms(1)
  by (auto simp: race_inv_def)

theorem concurrent_updates_commit_once_witness:
  "distinct (update_keys (commits race_example)) \<and> update_keys (commits race_example) \<noteq> []"
proof -
  have "update_keys (commits race_example) \<noteq> []" by code_simp
  then show ?thesis using concurrent_updates_commit_once [OF mem_inv_empty race_example_reachable] by simp
qed

text \<open>
  The split into phases adds no behaviour of its own: a call that runs without interference
  goes through at most four phases, and then has the outcome and the effect of the atomic operation.
\<close>

lemma call_alone_is_atomic:
  assumes "mem_inv d"
  shows "(advance c op ^^ 4) (Opened, d) =
    (Finished (fst (mem_call c op d)), snd (mem_call c op d))"
proof (cases op)
  case (MStore env ctx x ty md)
  then show ?thesis using store_runs_alone [of c env ctx x ty md d] by (simp add: apfst_def map_prod_def split_beta)
next
  case (MUpdate env ctx k x v)
  then have "(advance c op ^^ 2) (Opened, d) = apfst Finished (update env ctx k x v d)"
    using update_alone [OF assms, of c env ctx k x v] by (simp add: eval_nat_numeral)
  with MUpdate show ?thesis by (simp add: eval_nat_numeral apfst_def map_prod_def split_beta)
next
  case (MRollback env ctx k v)
  then have "(advance c op ^^ 3) (Opened, d) = apfst Finished (rollback env ctx k v d)"
    using rollback_alone [OF assms, of c env ctx k v] by (simp add: eval_nat_numeral)
  with MRollback show ?thesis by (simp add: eval_nat_numeral apfst_def map_prod_def split_beta)
qed

end
