(* ===== verification/Memory_Refinement.thy ===== *)
theory Memory_Refinement
  imports Concurrent_Sessions
begin

section \<open>What the memory store promises\<close>

text \<open>
  The contract of the memory store, without tables: for each tenant a map from memory ids to the
  list of contents the memory has had, oldest first (\<open>vstore\<close>). Storing creates a one-element list
  unless the memory exists, updating against the current length appends, rolling back appends an
  earlier element. \<open>spec_call\<close> is that machine. \<open>abs_store\<close> reads it off the tables of the
  database, and every sequence of calls of the store gives the answers of the machine
  (locale \<open>simulation\<close> of theory \<^verbatim>\<open>Prelude\<close>).

  Assumed: ids drawn by \<^verbatim>\<open>new_id\<close> do not repeat, and of the contents stored in the sequence, no two of
  different tenants have the same memory id (\<open>tenants_separate\<close>). The latter holds when no tenant id has a
  colon and the digest has no collision on the keys of these very stores (lemma \<open>plain_separate\<close>), which is what the code
  relies on SHA-256 for; theory \<^verbatim>\<open>Memory_Store\<close> shows what happens with a colon.
\<close>

subsection \<open>The abstract machine\<close>

type_synonym vstore = "string \<Rightarrow> string \<rightharpoonup> string list"

datatype mem_request =
    Rq_store TenantContext string string "(string, json) dict option"
  | Rq_update TenantContext string string int
  | Rq_rollback TenantContext string int

datatype mem_answer = Version string int string | Unknown | Stale | Rejected

definition valid_confidence :: "(string, json) dict option \<Rightarrow> bool" where
  "valid_confidence md = (case py_float (dict_get_default (metadata_of md) ''confidence'' (JFloat 1)) of
     Inr (Some cf) \<Rightarrow> 0 \<le> cf \<and> cf \<le> 1 | _ \<Rightarrow> False)"

definition put_history :: "string \<Rightarrow> string \<Rightarrow> string list \<Rightarrow> vstore \<Rightarrow> vstore" where
  "put_history t k h s = s(t := (s t)(k \<mapsto> h))"

definition current :: "string \<Rightarrow> string list \<Rightarrow> mem_answer" where
  "current k h = Version k (int (length h)) (last h)"

fun spec_call :: "memory_config \<Rightarrow> mem_request \<Rightarrow> vstore \<Rightarrow> mem_answer \<times> vstore" where
  "spec_call c (Rq_store ctx x ty md) s =
     (let t = ctx_tenant_id ctx; k = store_id c t x ty md in
      case s t k of
        Some h \<Rightarrow> (current k h, s)
      | None \<Rightarrow> if valid_confidence md then (current k [x], put_history t k [x] s) else (Rejected, s))"
| "spec_call c (Rq_update ctx k x v) s =
     (let t = ctx_tenant_id ctx in
      case s t k of
        None \<Rightarrow> (Unknown, s)
      | Some h \<Rightarrow> if int (length h) \<noteq> v then (Stale, s)
                  else (current k (h @ [x]), put_history t k (h @ [x]) s))"
| "spec_call c (Rq_rollback ctx k v) s =
     (let t = ctx_tenant_id ctx in
      case s t k of
        None \<Rightarrow> (Unknown, s)
      | Some h \<Rightarrow> if 1 \<le> v \<and> v \<le> int (length h)
                  then let h' = h @ [h ! nat (v - 1)] in (current k h', put_history t k h' s)
                  else (Unknown, s))"

subsection \<open>The store as a machine\<close>

text \<open>\<open>draws n\<close> is what the world supplies to the \<open>n\<close>-th call: two fresh ids and the time.\<close>

fun drawn :: "call_env \<Rightarrow> mem_request \<Rightarrow> mem_op" where
  "drawn env (Rq_store ctx x ty md) = MStore env ctx x ty md"
| "drawn env (Rq_update ctx k x v) = MUpdate env ctx k x v"
| "drawn env (Rq_rollback ctx k v) = MRollback env ctx k v"

fun answer_of :: "memory_record result \<Rightarrow> mem_answer" where
  "answer_of (Inr r) = Version (r_id r) (r_version r) (r_content r)"
| "answer_of (Inl (KeyError k)) = Unknown"
| "answer_of (Inl (OptimisticConcurrencyError m)) = Stale"
| "answer_of (Inl e) = Rejected"

fun store_machine :: "memory_config \<Rightarrow> (nat \<Rightarrow> call_env) \<Rightarrow> mem_request \<Rightarrow> db \<times> nat \<Rightarrow> mem_answer \<times> db \<times> nat" where
  "store_machine c draws rq (d, n) =
     (case mem_call c (drawn (draws n) rq) d of (r, d') \<Rightarrow> (answer_of r, d', Suc n))"

definition abs_store :: "db \<times> nat \<Rightarrow> vstore" where
  "abs_store s t k = (case find_by m_id k (memories (fst s)) of
     Some row \<Rightarrow> if m_tenant_id row = t then Some (map mv_content (history_of k (fst s))) else None
   | None \<Rightarrow> None)"

text \<open>The tenant and the memory id of a store.\<close>

fun store_owner :: "memory_config \<Rightarrow> mem_request \<Rightarrow> (string \<times> string) list" where
  "store_owner c (Rq_store ctx x ty md) = [(ctx_tenant_id ctx, store_id c (ctx_tenant_id ctx) x ty md)]"
| "store_owner c rq = []"

definition store_owners :: "memory_config \<Rightarrow> mem_request list \<Rightarrow> (string \<times> string) list" where
  "store_owners c rqs = concat (map (store_owner c) rqs)"

definition separate :: "(string \<times> string) list \<Rightarrow> bool" where
  "separate owners \<longleftrightarrow> list_all (\<lambda>(t, k). list_all (\<lambda>(t', k'). k = k' \<longrightarrow> t = t') owners) owners"

definition tenants_separate :: "memory_config \<Rightarrow> mem_request list \<Rightarrow> bool" where
  "tenants_separate c rqs \<longleftrightarrow> separate (store_owners c rqs)"

definition owned_request :: "memory_config \<Rightarrow> (string \<times> string) list \<Rightarrow> mem_request \<Rightarrow> bool" where
  "owned_request c owners rq \<longleftrightarrow> set (store_owner c rq) \<subseteq> set owners"

definition world_ok :: "(nat \<Rightarrow> call_env) \<Rightarrow> bool" where
  "world_ok draws \<longleftrightarrow> inj (\<lambda>n. fresh_audit (draws n)) \<and> inj (\<lambda>n. fresh_evidence (draws n))"

definition rows_owned :: "(string \<times> string) list \<Rightarrow> db \<Rightarrow> bool" where
  "rows_owned owners d \<longleftrightarrow> (\<forall>r \<in> set (memories d). (m_tenant_id r, m_id r) \<in> set owners)"

definition ids_drawn :: "(nat \<Rightarrow> call_env) \<Rightarrow> nat \<Rightarrow> db \<Rightarrow> bool" where
  "ids_drawn draws n d \<longleftrightarrow> ae_id ` set (audit_events d) \<subseteq> (\<lambda>m. fresh_audit (draws m)) ` {..<n} \<and>
     me_id ` set (memory_evidence d) \<subseteq> (\<lambda>m. fresh_evidence (draws m)) ` {..<n}"

definition tenants_named :: "db \<Rightarrow> bool" where
  "tenants_named d \<longleftrightarrow> (\<forall>r \<in> set (tenants d). tn_name r = tn_id r)"

definition machine_inv :: "(string \<times> string) list \<Rightarrow> (nat \<Rightarrow> call_env) \<Rightarrow> db \<times> nat \<Rightarrow> bool" where
  "machine_inv owners draws s \<longleftrightarrow> world_ok draws \<and> separate owners \<and> mem_inv (fst s) \<and> rows_owned owners (fst s) \<and>
     tenants_named (fst s) \<and> ids_drawn draws (snd s) (fst s)"

lemma ids_fresh:
  assumes "world_ok draws" and "ids_drawn draws n d"
  shows "fresh_audit (draws n) \<notin> ae_id ` set (audit_events d)"
    and "fresh_evidence (draws n) \<notin> me_id ` set (memory_evidence d)"
proof -
  have "f n \<notin> f ` {..<n}" if "inj f" for f :: "nat \<Rightarrow> string" using that by (auto dest: injD)
  with assms show "fresh_audit (draws n) \<notin> ae_id ` set (audit_events d)"
    and "fresh_evidence (draws n) \<notin> me_id ` set (memory_evidence d)"
    unfolding world_ok_def ids_drawn_def by blast+
qed

lemma history_length:
  assumes "mem_inv d" and "find_by m_id k (memories d) = Some row"
  shows "int (length (history_of k d)) = m_version row" and "history_of k d \<noteq> []"
    and "mv_content (last (history_of k d)) = m_content row"
proof -
  note own = owned_row [OF assms]
  then have "map mv_version (history_of k d) = [1..m_version row]" by (simp add: linked_row_def)
  from arg_cong [OF this, of length] have "length (history_of k d) = nat (m_version row)" by simp
  with own show "int (length (history_of k d)) = m_version row" by (simp add: memory_check_def)
  show "history_of k d \<noteq> []" "mv_content (last (history_of k d)) = m_content row"
    using own by (simp_all add: linked_row_def)
qed

lemma history_nth:
  assumes "mem_inv d" and "find_by m_id k (memories d) = Some row" and "1 \<le> v" and "v \<le> m_version row"
  shows "history_of k d ! nat (v - 1) \<in> set (memory_versions d)"
    and "mv_key (history_of k d ! nat (v - 1)) = (m_tenant_id row, k, v)"
proof -
  let ?h = "history_of k d" and ?i = "nat (v - 1)"
  have i: "?i < length ?h" using history_length(1) [OF assms(1,2)] assms(3,4) by linarith
  then have mem: "?h ! ?i \<in> set ?h" by simp
  then show "?h ! ?i \<in> set (memory_versions d)" by (simp add: history_of_def)
  have link: "linked_row row ?h" by (rule owned_row(5) [OF assms(1,2)])
  have "mv_version (?h ! ?i) = map mv_version ?h ! ?i" using i by simp
  also have "\<dots> = [1..m_version row] ! ?i" using link by (simp add: linked_row_def)
  also have "\<dots> = v" using assms(3,4) by (simp add: nth_upto)
  finally show "mv_key (?h ! ?i) = (m_tenant_id row, k, v)"
    using mem link by (simp add: mv_key_def linked_row_def history_of_def)
qed

lemma abs_rewritten:
  assumes "find_by m_id k (memories d) = Some row" and "m_tenant_id row = t"
  shows "abs_store (rewritten env ctx a x p row md k d, m) =
    put_history t k (map mv_content (history_of k d) @ [x]) (abs_store (d, n))"
  using assms
  by (auto simp: abs_store_def put_history_def rewritten_def find_by_update_by history_of_def fun_eq_iff
      split: option.split)

lemma abs_frame:
  "memories d' = memories d \<Longrightarrow> memory_versions d' = memory_versions d \<Longrightarrow> abs_store (d', m) = abs_store (d, n)"
  by (auto simp: abs_store_def history_of_def fun_eq_iff split: option.split)

lemma abs_found:
  "find_by m_id k (memories d) = Some row \<Longrightarrow> abs_store (d, n) t k =
     (if m_tenant_id row = t then Some (map mv_content (history_of k d)) else None)"
  by (simp add: abs_store_def)

lemma abs_missing: "find_by m_id k (memories d) = None \<Longrightarrow> abs_store (d, n) t k = None"
  by (simp add: abs_store_def)

lemma answer_written:
  assumes "mem_inv d" and "find_by m_id k (memories d) = Some row"
  shows "answer_of (Inr (to_record (set_content x now row))) = current k (map mv_content (history_of k d) @ [x])"
  using history_length(1) [OF assms] find_by_key [OF assms(2)] by (simp add: to_record_def current_def)

lemma spec_update:
  assumes inv: "mem_inv d" and fresh: "fresh_audit env \<notin> ae_id ` set (audit_events d)"
    and u: "update env ctx k x v d = (r, d')"
  shows "spec_call c (Rq_update ctx k x v) (abs_store (d, n)) = (answer_of r, abs_store (d', m))"
proof (cases "find_by m_id k (memories d)")
  case None
  with u have "r = Inl (KeyError k)" "d' = d" by (auto simp: update_def with_session_def)
  with None show ?thesis by (simp add: abs_missing abs_frame)
next
  case (Some row)
  note len = history_length(1) [OF inv Some]
  show ?thesis
  proof (cases "m_tenant_id row = ctx_tenant_id ctx \<and> m_version row = v")
    case True
    with u fresh have "r = Inr (to_record (set_content x (now_ts env) row))"
      and "d' = rewritten env ctx ''memory.update'' x (m_provenance row) row [(''version'', JInt (v + 1))] k d"
      by (auto simp: update_eq [OF inv Some])
    with True len show ?thesis
      by (simp add: abs_found [OF Some] answer_written [OF inv Some] abs_rewritten [OF Some, where n = n] del: answer_of.simps)
  next
    case False
    with u len Some show ?thesis
      by (auto simp: update_eq [OF inv Some] abs_found [OF Some] intro: abs_frame split: if_splits)
  qed
qed

lemma spec_rollback:
  assumes inv: "mem_inv d" and fresh: "fresh_audit env \<notin> ae_id ` set (audit_events d)"
    and u: "rollback env ctx k v d = (r, d')"
  shows "spec_call c (Rq_rollback ctx k v) (abs_store (d, n)) = (answer_of r, abs_store (d', m))"
proof (cases "\<exists>row. find_by m_id k (memories d) = Some row \<and> m_tenant_id row = ctx_tenant_id ctx \<and>
    1 \<le> v \<and> v \<le> m_version row")
  case True
  then obtain row where row: "find_by m_id k (memories d) = Some row" and t: "m_tenant_id row = ctx_tenant_id ctx"
    and v: "1 \<le> v" "v \<le> m_version row" by blast
  let ?q = "history_of k d ! nat (v - 1)"
  note len = history_length(1) [OF inv row] and q = history_nth [OF inv row v]
  have "nat (v - 1) < length (history_of k d)" using len v by linarith
  moreover have "r = Inr (to_record (set_content (mv_content ?q) (now_ts env) row))"
    and "d' = rewritten env ctx ''memory.rollback'' (mv_content ?q) (mv_provenance ?q) row [(''to_version'', JInt v)] k d"
    using u fresh t by (auto simp: rollback_eq [OF inv row t q(1) q(2) [unfolded t]])
  ultimately show ?thesis
    using t v len
    by (simp add: abs_found [OF row] answer_written [OF inv row] abs_rewritten [OF row, where n = n] Let_def del: answer_of.simps)
next
  case False
  have "r = Inl (KeyError k) \<and> d' = d"
  proof (cases "versions_of (ctx_tenant_id ctx) k v d")
    case Nil
    with u show ?thesis
      by (auto simp: rollback_def with_session_def scalar_one_or_none_def split: option.splits)
  next
    case (Cons q qs)
    then have "q \<in> set (versions_of (ctx_tenant_id ctx) k v d)" by simp
    then have q: "q \<in> set (memory_versions d)" "mv_key q = (ctx_tenant_id ctx, k, v)" by (auto simp: versions_of_def)
    then have "(ctx_tenant_id ctx, k, v) \<in> mv_key ` set (memory_versions d)" by (metis imageI)
    then have "m_tenant_id row \<noteq> ctx_tenant_id ctx" if "find_by m_id k (memories d) = Some row" for row
      using memory_history_version [OF owned_row(5) [OF inv that], of v] False that
      by auto
    with u versions_of_unique [OF inv q] show ?thesis
      by (auto simp: rollback_def with_session_def scalar_one_or_none_def split: option.splits if_splits)
  qed
  moreover have "abs_store (d, n) (ctx_tenant_id ctx) k = None \<or>
      (\<exists>h. abs_store (d, n) (ctx_tenant_id ctx) k = Some h \<and> \<not> (1 \<le> v \<and> v \<le> int (length h)))"
    using False history_length(1) [OF inv]
    by (cases "find_by m_id k (memories d)") (auto simp: abs_missing abs_found)
  ultimately show ?thesis by (auto intro: abs_frame)
qed


lemma ensure_tenant_total:
  assumes "tenants_named d"
  shows "\<exists>d'. ensure_tenant t None now d = (Inr (), d') \<and> tenants_named d'"
proof (cases "t \<in> tenant_ids d")
  case True
  then show ?thesis using assms by (simp add: ensure_tenant_present)
next
  case False
  then have "t \<notin> tn_name ` set (tenants d)" using assms by (auto simp: tenants_named_def tenant_ids_def)
  with False have "add_tenant (new_tenant t now) d = (Inr (), d\<lparr>tenants := tenants d @ [new_tenant t now]\<rparr>)"
    by (simp add: add_tenant_def checked_def new_tenant_def tenant_check_def)
  then have "ensure_tenant t None now d = (Inr (), d\<lparr>tenants := tenants d @ [new_tenant t now]\<rparr>)"
    by (simp add: tenant_alone [OF False, symmetric] with_session_def)
  with assms show ?thesis by (simp add: tenants_named_def new_tenant_def)
qed

lemma store_after_tenant:
  assumes "ensure_tenant (ctx_tenant_id ctx) None (now_ts env) d = (Inr (), d1)"
  shows "store c env ctx x ty md d = with_session (
     op_bind (find_or_insert c env (ctx_tenant_id ctx) x ty md) (\<lambda>row.
     op_bind (add_audit (store_audit c env ctx (store_id c (ctx_tenant_id ctx) x ty md))) (\<lambda>_.
     op_return (to_record row)))) d1"
  using assms by (simp add: store_def Let_def op_bind_def)

lemma insert_memory_eq:
  assumes "db_ok d" and "m_id row \<notin> memory_ids d" and "t \<in> tenant_ids d" and "m_tenant_id row = t"
    and "fresh_evidence env \<notin> me_id ` set (memory_evidence d)"
  shows "insert_memory env t row d =
    (if memory_check row then (Inr row, inserted env t row d) else (Inl (IntegrityError ''memories''), d))"
proof -
  have "(t, m_id row, 1) \<notin> mv_key ` set (memory_versions d)"
    using assms(1,2) by (auto simp: db_ok_def versions_ok_def mv_key_def)
  with assms(2-5) show ?thesis
    by (simp add: insert_memory_def op_bind_def add_memory_def add_memory_version_def add_evidence_def checked_def
        inserted_def tenant_ids_def memory_ids_def)
qed

lemma abs_inserted:
  assumes "db_ok d" and "m_id row \<notin> memory_ids d" and "m_tenant_id row = t"
  shows "abs_store (inserted env t row d, m) = put_history t (m_id row) [m_content row] (abs_store (d, n))"
proof -
  have "history_of (m_id row) d = []" using assms(1,2) by (rule history_fresh)
  moreover have "find_by m_id (m_id row) (memories d) = None"
    using assms(2) by (simp add: find_by_None_iff memory_ids_def)
  ultimately show ?thesis
    using assms(3) by (auto simp: abs_store_def put_history_def inserted_def find_by_append history_of_def fun_eq_iff
        split: option.split)
qed

lemma own_memory:
  assumes "separate owners" and "rows_owned owners d" and "(t, k) \<in> set owners"
    and "find_by m_id k (memories d) = Some row"
  shows "m_tenant_id row = t"
  using assms(1-3) find_by_SomeD [OF assms(4)] by (fastforce simp: separate_def rows_owned_def list_all_iff)

lemma rows_owned_frame: "rows_owned owners d \<Longrightarrow> memories d' = memories d \<Longrightarrow> rows_owned owners d'"
  by (simp add: rows_owned_def)

lemma rows_owned_rewritten: "rows_owned owners d \<Longrightarrow> rows_owned owners (rewritten env ctx a x p row md k d)"
  by (auto simp: rows_owned_def rewritten_def set_update_by)

lemma store_owned:
  assumes own: "rows_owned owners d" and key: "(ctx_tenant_id ctx, store_id c (ctx_tenant_id ctx) x ty md) \<in> set owners"
    and s: "store c env ctx x ty md d = (r, d')"
  shows "rows_owned owners d'"
proof -
  have frame: "rows_owned owners d1" if "ensure_tenant (ctx_tenant_id ctx) None (now_ts env) d = (r1, d1)" for r1 d1
    using rows_owned_frame [OF own] ensure_tenant_frame [OF that] by simp
  show ?thesis
  proof (cases r)
    case (Inl e)
    with s frame show ?thesis by (auto elim: store_Inl)
  next
    case (Inr rec)
    with s have "store c env ctx x ty md d = (Inr rec, d')" by simp
    then show ?thesis
    proof (cases rule: store_Inr)
      case (present d1 row)
      then show ?thesis using rows_owned_frame [OF frame [OF present(1)]] by simp
    next
      case (fresh d1 cf row)
      then show ?thesis using frame [OF fresh(1)] key by (auto simp: rows_owned_def inserted_def)
    qed
  qed
qed

lemma mem_call_owned:
  assumes own: "rows_owned owners d" and rq: "owned_request c owners rq" and m: "mem_call c (drawn env rq) d = (r, d')"
  shows "rows_owned owners d'"
proof (cases rq)
  case (Rq_store ctx x ty md)
  with rq m show ?thesis by (auto simp: owned_request_def intro: store_owned [OF own])
next
  case (Rq_update ctx k x v)
  with own m show ?thesis by (cases r) (auto dest: update_Inl elim!: update_Inr simp: rows_owned_rewritten)
next
  case (Rq_rollback ctx k v)
  with own m show ?thesis by (cases r) (auto dest: rollback_Inl elim!: rollback_Inr simp: rows_owned_rewritten)
qed

lemma new_row_check: "memory_check (new_row c env t x ty md cf) \<longleftrightarrow> 0 \<le> cf \<and> cf \<le> 1"
proof -
  have "m_confidence (new_row c env t x ty md cf) = cf" by (simp add: new_row_def Let_def)
  then show ?thesis by (simp add: memory_check_def)
qed

lemma float_of_str_Inl: "float_of_str s = Inl e \<Longrightarrow> e = ValueError ''could not convert string to float''"
  unfolding float_of_str_def Let_def by (simp only: split: prod.splits if_splits) simp_all

lemma py_float_Inl: "py_float v = Inl e \<Longrightarrow> answer_of (Inl e) = Rejected"
  by (cases v) (auto dest: float_of_str_Inl)

lemma find_or_insert_absent:
  assumes "db_ok d" and "find_by m_id (store_id c t x ty md) (memories d) = None" and "t \<in> tenant_ids d"
    and "fresh_evidence env \<notin> me_id ` set (memory_evidence d)"
  obtains (ok) row where "valid_confidence md" and "m_id row = store_id c t x ty md" and "m_tenant_id row = t"
      and "m_content row = x" and "m_version row = 1" and "m_id row \<notin> memory_ids d"
      and "find_or_insert c env t x ty md d = (Inr row, inserted env t row d)"
  | (bad) e where "\<not> valid_confidence md" and "fst (find_or_insert c env t x ty md d) = Inl e" and "answer_of (Inl e) = Rejected"
proof (cases "py_float (dict_get_default (metadata_of md) ''confidence'' (JFloat 1))")
  case (Inl e)
  then have "answer_of (Inl e) = Rejected" "\<not> valid_confidence md" by (simp_all add: py_float_Inl valid_confidence_def)
  with Inl assms(2) show ?thesis by (intro bad [of e]) (simp_all add: find_or_insert_def)
next
  case (Inr z)
  have fresh: "store_id c t x ty md \<notin> memory_ids d" using assms(2) by (simp add: find_by_None_iff memory_ids_def)
  show ?thesis
  proof (cases z)
    case None
    with Inr assms(2) show ?thesis
      by (intro bad [of "IntegrityError ''memories''"]) (simp_all add: find_or_insert_def valid_confidence_def)
  next
    case (Some cf)
    let ?row = "new_row c env t x ty md cf"
    have "insert_memory env t ?row d = (if memory_check ?row then (Inr ?row, inserted env t ?row d)
        else (Inl (IntegrityError ''memories''), d))"
      using assms fresh by (intro insert_memory_eq) simp_all
    with Inr Some assms(2) have f: "find_or_insert c env t x ty md d = (if 0 \<le> cf \<and> cf \<le> 1
        then (Inr ?row, inserted env t ?row d) else (Inl (IntegrityError ''memories''), d))"
      by (simp add: find_or_insert_def new_row_check)
    have v: "valid_confidence md \<longleftrightarrow> 0 \<le> cf \<and> cf \<le> 1" using Inr Some by (simp add: valid_confidence_def)
    show ?thesis
    proof (cases "0 \<le> cf \<and> cf \<le> 1")
      case True
      with f v fresh show ?thesis by (intro ok [of ?row]) simp_all
    next
      case False
      with f v show ?thesis by (intro bad [of "IntegrityError ''memories''"]) auto
    qed
  qed
qed

lemma spec_store:
  assumes inv: "machine_inv owners draws (d, n)" and own: "owned_request c owners (Rq_store ctx x ty md)"
    and s: "store c (draws n) ctx x ty md d = (r, d')"
  shows "spec_call c (Rq_store ctx x ty md) (abs_store (d, n)) = (answer_of r, abs_store (d', Suc n))"
proof -
  let ?env = "draws n" and ?t = "ctx_tenant_id ctx" and ?k = "store_id c (ctx_tenant_id ctx) x ty md"
  from inv have world: "world_ok draws" and sep: "separate owners" and mem: "mem_inv d" and rows: "rows_owned owners d"
    and ids: "ids_drawn draws n d" and "tenants_named d" by (simp_all add: machine_inv_def)
  then obtain d1 where e: "ensure_tenant ?t None (now_ts ?env) d = (Inr (), d1)" using ensure_tenant_total by blast
  note frame = ensure_tenant_frame [OF e] and fresh = ids_fresh [OF world ids]
  have t: "?t \<in> tenant_ids d1" using ensure_tenant_returns [OF e] by simp
  have ok: "db_ok d1" using alwaysD [OF ensure_tenant_always _ e] mem by (simp add: mem_inv_def)
  have audit: "add_audit (store_audit c ?env ctx ?k) d2 = (Inr (), audited (store_audit c ?env ctx ?k) d2)"
    if "audit_events d2 = audit_events d" "tenants d2 = tenants d1" for d2
    using that t fresh by (simp add: add_audit_def checked_def audited_def tenant_ids_def)
  have abs: "abs_store (d1, Suc n) = abs_store (d, n)" using frame by (intro abs_frame) simp_all
  show ?thesis
  proof (cases "find_by m_id ?k (memories d)")
    case (Some row)
    with frame have "find_or_insert c ?env ?t x ty md d1 = (Inr row, d1)" by (simp add: find_or_insert_def)
    with s frame have "r = Inr (to_record row)" "d' = audited (store_audit c ?env ctx ?k) d1"
      by (simp_all add: store_after_tenant [OF e] with_session_def op_bind_def audit)
    moreover have "m_tenant_id row = ?t" using own_memory [OF sep rows _ Some] own by (simp add: owned_request_def)
    moreover have "answer_of (Inr (to_record row)) = current ?k (map mv_content (history_of ?k d))"
      using history_length [OF mem Some] find_by_key [OF Some] by (simp add: to_record_def current_def last_map)
    moreover have "abs_store (audited (store_audit c ?env ctx ?k) d1, Suc n) = abs_store (d1, Suc n)"
      by (intro abs_frame) simp_all
    ultimately show ?thesis using abs by (simp add: abs_found [OF Some] Let_def del: answer_of.simps)
  next
    case None
    with frame have none: "find_by m_id ?k (memories d1) = None" by simp
    from fresh frame have "fresh_evidence ?env \<notin> me_id ` set (memory_evidence d1)" by simp
    with ok none t show ?thesis
    proof (cases rule: find_or_insert_absent)
      case (ok row)
      with s frame have "r = Inr (to_record row)"
        and d': "d' = audited (store_audit c ?env ctx ?k) (inserted ?env ?t row d1)"
        by (simp_all add: store_after_tenant [OF e] with_session_def op_bind_def audit inserted_def)
      moreover have "abs_store (d', Suc n) = abs_store (inserted ?env ?t row d1, Suc n)"
        unfolding d' by (intro abs_frame) simp_all
      ultimately show ?thesis
        using ok abs abs_inserted [OF \<open>db_ok d1\<close>, of row ?t ?env "Suc n" "Suc n"]
        by (simp add: abs_missing [OF None] Let_def current_def to_record_def)
    next
      case (bad err)
      with s have "r = Inl err" "d' = d1"
        by (auto simp: store_after_tenant [OF e] with_session_def op_bind_def split: prod.splits sum.splits)
      with bad abs show ?thesis by (simp add: abs_missing [OF None] Let_def)
    qed
  qed
qed


subsection \<open>The simulation\<close>

lemma ensure_tenant_named: "tenants_named d \<Longrightarrow> tenants_named (snd (ensure_tenant t None now d))"
  using ensure_tenant_total [of d t now] by auto

text \<open>A call writes rows under the ids it has drawn only, and names tenants after their ids.\<close>

definition call_ids :: "mem_op \<Rightarrow> db \<Rightarrow> db \<Rightarrow> bool" where
  "call_ids op d d' \<longleftrightarrow>
     ae_id ` set (audit_events d') \<subseteq> insert (fresh_audit (fst (call_parameters op))) (ae_id ` set (audit_events d)) \<and>
     me_id ` set (memory_evidence d') \<subseteq> insert (fresh_evidence (fst (call_parameters op))) (me_id ` set (memory_evidence d)) \<and>
     (tenants_named d \<longrightarrow> tenants_named d')"

lemma store_ids:
  assumes "store c env ctx x ty md d = (r, d')"
  shows "call_ids (MStore env ctx x ty md) d d'"
proof -
  let ?e = "ensure_tenant (ctx_tenant_id ctx) None (now_ts env) d"
  have e: "call_ids (MStore env ctx x ty md) d d1" if "?e = (r1, d1)" for r1 d1
    using ensure_tenant_frame [OF that] ensure_tenant_named [of d "ctx_tenant_id ctx" "now_ts env"] that
    by (auto simp: call_ids_def)
  show ?thesis
  proof (cases r)
    case (Inl err)
    with assms e show ?thesis by (auto elim: store_Inl)
  next
    case (Inr rec)
    with assms have "store c env ctx x ty md d = (Inr rec, d')" by simp
    then show ?thesis
      by (cases rule: store_Inr)
        (drule e, auto simp: call_ids_def inserted_def tenants_named_def)+
  qed
qed

lemma mem_call_ids: "mem_call c op d = (r, d') \<Longrightarrow> call_ids op d d'"
proof (cases op)
  case (MStore env ctx x ty md)
  assume "mem_call c op d = (r, d')"
  with MStore show ?thesis by (simp add: store_ids)
next
  case (MUpdate env ctx k x v)
  assume "mem_call c op d = (r, d')"
  with MUpdate show ?thesis
    by (cases r) (auto simp: call_ids_def rewritten_def tenants_named_def dest!: update_Inl elim!: update_Inr)
next
  case (MRollback env ctx k v)
  assume "mem_call c op d = (r, d')"
  with MRollback show ?thesis
    by (cases r) (auto simp: call_ids_def rewritten_def tenants_named_def dest!: rollback_Inl elim!: rollback_Inr)
qed

lemma drawn_parameters [simp]: "fst (call_parameters (drawn env rq)) = env"
  by (cases rq) simp_all

lemma machine_keeps_inv:
  assumes "machine_inv owners draws s" and "owned_request c owners rq"
  shows "machine_inv owners draws (snd (store_machine c draws rq s))"
proof -
  obtain d n where s: "s = (d, n)" by fastforce
  let ?op = "drawn (draws n) rq"
  obtain r d' where m: "mem_call c ?op d = (r, d')" by fastforce
  then have step: "mem_step c ?op d = d'" by (simp add: mem_step_call)
  have "rows_owned owners d'" and "mem_inv d'"
    using assms mem_call_owned [OF _ _ m] mem_step_inv [of d c ?op] by (simp_all add: s machine_inv_def step)
  moreover have "tenants_named d'" using mem_call_ids [OF m] assms(1) by (simp add: s machine_inv_def call_ids_def)
  moreover have "ids_drawn draws (Suc n) d'"
  proof -
    have grow: "B \<subseteq> f ` {..<Suc n}" if "B \<subseteq> insert (f n) A" "A \<subseteq> f ` {..<n}" for A B and f :: "nat \<Rightarrow> string"
      using that by (auto simp: lessThan_Suc)
    show ?thesis
      unfolding ids_drawn_def
    proof
      show "ae_id ` set (audit_events d') \<subseteq> (\<lambda>m. fresh_audit (draws m)) ` {..<Suc n}"
        by (rule grow [of _ _ "ae_id ` set (audit_events d)"])
          (use mem_call_ids [OF m] assms(1) in \<open>simp_all add: s machine_inv_def call_ids_def ids_drawn_def\<close>)
      show "me_id ` set (memory_evidence d') \<subseteq> (\<lambda>m. fresh_evidence (draws m)) ` {..<Suc n}"
        by (rule grow [of _ _ "me_id ` set (memory_evidence d)"])
          (use mem_call_ids [OF m] assms(1) in \<open>simp_all add: s machine_inv_def call_ids_def ids_drawn_def\<close>)
    qed
  qed
  ultimately show ?thesis using assms(1) by (simp add: s m machine_inv_def)
qed

lemma machine_refines:
  assumes "machine_inv owners draws s" and "owned_request c owners rq"
  shows "spec_call c rq (abs_store s) = map_prod id abs_store (store_machine c draws rq s)"
proof -
  obtain d n where s: "s = (d, n)" by fastforce
  with assms(1) have inv: "machine_inv owners draws (d, n)" and mem: "mem_inv d" by (simp_all add: machine_inv_def)
  then have fresh: "fresh_audit (draws n) \<notin> ae_id ` set (audit_events d)"
    using ids_fresh(1) [of draws n d] by (simp add: machine_inv_def)
  obtain r d' where m: "mem_call c (drawn (draws n) rq) d = (r, d')" by fastforce
  have "spec_call c rq (abs_store (d, n)) = (answer_of r, abs_store (d', Suc n))"
  proof (cases rq)
    case (Rq_store ctx x ty md)
    with m assms(2) show ?thesis using spec_store [OF inv] by simp
  next
    case (Rq_update ctx k x v)
    with m show ?thesis using spec_update [OF mem fresh] by simp
  next
    case (Rq_rollback ctx k v)
    with m show ?thesis using spec_rollback [OF mem fresh] by simp
  qed
  with s m show ?thesis by simp
qed

interpretation vstore: simulation "store_machine c draws" "spec_call c" abs_store "machine_inv owners draws"
  "owned_request c owners" for c draws owners
  by unfold_locales (simp_all add: machine_keeps_inv machine_refines)

text \<open>What \<open>tenants_separate\<close> asks for, from the digest and the names of the tenants.\<close>

fun hashed_key :: "memory_config \<Rightarrow> mem_request \<Rightarrow> string list" where
  "hashed_key c (Rq_store ctx x ty md) = [memory_key (ctx_tenant_id ctx) (namespace_of c md) ty x]"
| "hashed_key c rq = []"

fun plain_request :: "mem_request \<Rightarrow> bool" where
  "plain_request (Rq_store ctx x ty md) = (CHR '':'' \<notin> set (ctx_tenant_id ctx))"
| "plain_request rq = True"

lemma plain_separate:
  assumes "list_all plain_request rqs" and "inj_on (digest c) (set (concat (map (hashed_key c) rqs)))"
  shows "tenants_separate c rqs"
proof -
  have key: "\<exists>rest. k = digest c (colon_key t rest) \<and> colon_key t rest \<in> set (concat (map (hashed_key c) rqs)) \<and> CHR '':'' \<notin> set t"
    if "(t, k) \<in> set (store_owners c rqs)" for t k
  proof -
    from that obtain rq where rq: "rq \<in> set rqs" "(t, k) \<in> set (store_owner c rq)" by (auto simp: store_owners_def)
    have "\<exists>ctx x ty md. rq = Rq_store ctx x ty md \<and> t = ctx_tenant_id ctx \<and>
        k = digest c (memory_key t (namespace_of c md) ty x)"
      by (cases rq) (use rq(2) in \<open>auto simp: store_id_def\<close>)
    then obtain ctx x ty md where st: "rq = Rq_store ctx x ty md" and t: "t = ctx_tenant_id ctx"
      and k: "k = digest c (memory_key t (namespace_of c md) ty x)" by blast
    from rq st t have "memory_key t (namespace_of c md) ty x \<in> set (concat (map (hashed_key c) rqs))" by force
    moreover have "CHR '':'' \<notin> set t" using assms(1) rq(1) st t by (auto simp: list_all_iff)
    ultimately show ?thesis using k unfolding memory_key_def by blast
  qed
  have "t = t'" if "(t, k) \<in> set (store_owners c rqs)" "(t', k) \<in> set (store_owners c rqs)" for t t' k
    using key [OF that(1)] key [OF that(2)] inj_onD [OF assms(2)] colon_key_inject by metis
  then show ?thesis unfolding tenants_separate_def separate_def list_all_iff by blast
qed

text \<open>
  C8: Refinement: from an empty database, every sequence of \<open>store\<close>, \<open>update\<close> and \<open>rollback\<close> calls
  in which no two tenants store contents under the same memory id gets exactly the answers of the abstract versioned store
  (id, version and content, or
  which refusal), and the tables then hold exactly its content. So a tenant reads back what
  it wrote, under consecutive versions, and nothing else: whether a call succeeds depends on the tenant's own
  memories only. The ids are separate when the tenant ids have no colon and the digest has no collision among the keys
  hashed in the sequence; the ids drawn by \<^verbatim>\<open>new_id\<close> are taken to be distinct.
\<close>

theorem memory_refines_versioned_store:
  assumes "tenants_separate c rqs" and "inj (\<lambda>n. fresh_audit (draws n))" and "inj (\<lambda>n. fresh_evidence (draws n))"
  shows "outcomes (spec_call c) rqs (\<lambda>t k. None) =
    map_prod id abs_store (outcomes (store_machine c draws) rqs (empty_db, 0))"
proof -
  let ?owners = "store_owners c rqs"
  have "machine_inv ?owners draws (empty_db, 0)"
    using assms mem_inv_empty
    by (simp add: machine_inv_def world_ok_def tenants_separate_def rows_owned_def tenants_named_def ids_drawn_def)
      (simp add: empty_db_def)
  moreover have "abs_store (empty_db, 0) = (\<lambda>t k. None)" by (simp add: abs_store_def empty_db_def fun_eq_iff)
  moreover have "list_all (owned_request c ?owners) rqs"
    by (auto simp: list_all_iff owned_request_def store_owners_def)
  ultimately show ?thesis using vstore.run_refines [of ?owners draws "(empty_db, 0)" c rqs] by simp
qed

text \<open>The example hashes to 64 characters, as SHA-256 does, and has collisions, though none in the run.\<close>

definition vstore_example_config :: memory_config where
  "vstore_example_config = memory_example_config\<lparr>digest := \<lambda>s. take 64 (s @ replicate 64 CHR ''0'')\<rparr>"

definition vstore_example_id :: string where
  "vstore_example_id = store_id vstore_example_config ''acme'' ''hi'' ''fact'' None"

definition vstore_example :: "mem_request list" where
  "vstore_example = (let ctx = memory_example_ctx ''acme''; other = memory_example_ctx ''beta''; k = vstore_example_id in
     [Rq_store ctx ''hi'' ''fact'' None, Rq_store other ''hi'' ''fact'' None, Rq_update ctx k ''ho'' 1, Rq_update ctx k ''hu'' 1,
      Rq_rollback ctx k 1, Rq_update other k ''x'' 3])"

theorem memory_refines_versioned_store_witness:
  "map (\<lambda>a. case a of Version k v x \<Rightarrow> Some (v, x) | _ \<Rightarrow> None)
     (fst (outcomes (store_machine vstore_example_config (\<lambda>n. memory_example_env (replicate n CHR ''i''))) vstore_example
     (empty_db, 0))) = [Some (1, ''hi''), Some (1, ''hi''), Some (2, ''ho''), None, Some (3, ''hi''), None]"
proof -
  let ?c = vstore_example_config and ?w = "\<lambda>n. memory_example_env (replicate n CHR ''i'')"
  have "inj (\<lambda>n. replicate n CHR ''i'')" by (rule injI) (metis length_replicate)
  then have "inj (\<lambda>n. fresh_audit (?w n))" "inj (\<lambda>n. fresh_evidence (?w n))" by (simp_all add: memory_example_env_def)
  moreover have "tenants_separate ?c vstore_example" by code_simp
  ultimately have "fst (outcomes (store_machine ?c ?w) vstore_example (empty_db, 0)) =
      fst (outcomes (spec_call ?c) vstore_example (\<lambda>t k. None))"
    using memory_refines_versioned_store [of ?c vstore_example ?w] by simp
  moreover have "map (\<lambda>a. case a of Version k v x \<Rightarrow> Some (v, x) | _ \<Rightarrow> None)
      (fst (outcomes (spec_call ?c) vstore_example (\<lambda>t k. None))) =
    [Some (1, ''hi''), Some (1, ''hi''), Some (2, ''ho''), None, Some (3, ''hi''), None]" by code_simp
  ultimately show ?thesis by simp
qed

end
