(* ===== verification/Workflow_Refinement.thy ===== *)
theory Workflow_Refinement
  imports Orchestration
begin

section \<open>What the workflow engine promises\<close>

text \<open>
  The contract of the workflow engine, without tables: a list of workflow documents, number \<open>n\<close> under
  the checkpoint \<open>n\<close>. Planning appends a document, executing replaces a document that is not completed by
  the executed one, recovering reopens it, reading returns it, and the workers that lease, mark
  and sweep tasks do not touch it (\<open>spec_workflow\<close>). \<open>abs_documents\<close> reads the list off the checkpoint
  table. Every sequence of calls of the engine and the workers on five tables gives the answers of that list
  (locale \<open>simulation\<close> of theory \<^verbatim>\<open>Prelude\<close>), provided the event ids drawn by \<^verbatim>\<open>new_id\<close> do not
  repeat and a SELECT returns the selected rows in some order.
\<close>

subsection \<open>The abstract machine\<close>

datatype wf_request =
    Rq_plan int string "string list option"
  | Rq_execute int string
  | Rq_recover int string
  | Rq_get string
  | Rq_work lease_op

definition missing :: "string \<Rightarrow> workflow_doc result" where
  "missing k = Inl (KeyError (''checkpoint '' @ k @ '' not found''))"

definition put_document :: "workflow_doc \<Rightarrow> workflow_doc list \<Rightarrow> workflow_doc list" where
  "put_document doc docs = update_by doc_checkpoint (doc_checkpoint doc) (\<lambda>_. doc) docs"

fun spec_workflow :: "wf_request \<Rightarrow> workflow_doc list \<Rightarrow> workflow_doc result option \<times> workflow_doc list" where
  "spec_workflow (Rq_plan now task agents) docs =
     (let doc = plan_doc now (checkpoint_name (Suc (length docs))) task (plan_agents agents)
      in (Some (Inr doc), docs @ [doc]))"
| "spec_workflow (Rq_execute now k) docs =
     (case find_by doc_checkpoint k docs of
        None \<Rightarrow> (Some (missing k), docs)
      | Some doc \<Rightarrow> if doc_status doc = ''completed'' then (Some (Inr doc), docs)
          else let doc' = execute_doc now k doc in (Some (Inr doc'), put_document doc' docs))"
| "spec_workflow (Rq_recover now k) docs =
     (case find_by doc_checkpoint k docs of
        None \<Rightarrow> (Some (missing k), docs)
      | Some doc \<Rightarrow> let doc' = recover_doc now doc in (Some (Inr doc'), put_document doc' docs))"
| "spec_workflow (Rq_get k) docs =
     (case find_by doc_checkpoint k docs of None \<Rightarrow> (Some (missing k), docs) | Some doc \<Rightarrow> (Some (Inr doc), docs))"
| "spec_workflow (Rq_work op) docs = (None, docs)"

subsection \<open>The engine as a machine\<close>

record engine_world =
  ew_checkpoints :: "WorkflowCheckpointRow list \<Rightarrow> WorkflowCheckpointRow list"
  ew_tasks :: "WorkflowTaskRow list \<Rightarrow> WorkflowTaskRow list"
  ew_event :: "nat \<Rightarrow> string"

fun engine_machine ::
    "engine_world \<Rightarrow> string \<Rightarrow> wf_request \<Rightarrow> engine \<times> nat \<Rightarrow> workflow_doc result option \<times> engine \<times> nat" where
  "engine_machine w t (Rq_plan now task agents) (s, n) =
     (case plan (ew_checkpoints w) \<lparr>fresh_event = ew_event w n, wf_now = now\<rparr> t task agents s of (r, s') \<Rightarrow> (Some r, s', Suc n))"
| "engine_machine w t (Rq_execute now k) (s, n) =
     (case execute \<lparr>fresh_event = ew_event w n, wf_now = now\<rparr> t k s of (r, s') \<Rightarrow> (Some r, s', Suc n))"
| "engine_machine w t (Rq_recover now k) (s, n) =
     (case recover \<lparr>fresh_event = ew_event w n, wf_now = now\<rparr> t k s of (r, s') \<Rightarrow> (Some r, s', Suc n))"
| "engine_machine w t (Rq_get k) (s, n) = (case on_db (wf_get t k) s of (r, s') \<Rightarrow> (Some r, s', Suc n))"
| "engine_machine w t (Rq_work op) (s, n) = (None, s\<lparr>eng_db := lease_step (ew_tasks w) op (eng_db s)\<rparr>, Suc n)"

definition abs_documents :: "engine \<times> nat \<Rightarrow> workflow_doc list" where
  "abs_documents s = map wc_state (workflow_checkpoints (eng_db (fst s)))"

definition engine_world_ok :: "engine_world \<Rightarrow> bool" where
  "engine_world_ok w \<longleftrightarrow> reorders (ew_checkpoints w) \<and> reorders (ew_tasks w) \<and> inj (ew_event w)"

definition events_drawn :: "engine_world \<Rightarrow> nat \<Rightarrow> db \<Rightarrow> bool" where
  "events_drawn w n d \<longleftrightarrow> we_id ` set (workflow_events d) \<subseteq> ew_event w ` {..<n}"

definition engine_machine_inv :: "engine_world \<Rightarrow> string \<Rightarrow> engine \<times> nat \<Rightarrow> bool" where
  "engine_machine_inv w t s \<longleftrightarrow> engine_world_ok w \<and> eng_inv t (fst s) \<and> events_drawn w (snd s) (eng_db (fst s))"

lemma event_fresh:
  assumes "engine_world_ok w" and "events_drawn w n d"
  shows "ew_event w n \<notin> we_id ` set (workflow_events d)"
proof -
  have "ew_event w n \<notin> ew_event w ` {..<n}" using assms(1) by (auto simp: engine_world_ok_def dest: injD)
  with assms(2) show ?thesis by (auto simp: events_drawn_def)
qed

lemma events_drawn_upserted:
  "events_drawn w n d \<Longrightarrow> fresh_event env = ew_event w n \<Longrightarrow> events_drawn w (Suc n) (upserted env t doc d)"
  by (auto simp: events_drawn_def upserted_def Let_def event_row_def lessThan_Suc)

lemma events_drawn_Suc: "events_drawn w n d \<Longrightarrow> events_drawn w (Suc n) d"
  by (auto simp: events_drawn_def lessThan_Suc)

lemma find_document:
  assumes "wf_inv t d"
  shows "find_by doc_checkpoint k (map wc_state (workflow_checkpoints d)) =
    map_option wc_state (find_by wc_id k (workflow_checkpoints d))"
proof -
  have "find_by doc_checkpoint k (map wc_state cs) = map_option wc_state (find_by wc_id k cs)"
    if "\<forall>c \<in> set cs. doc_checkpoint (wc_state c) = wc_id c" for cs
    using that by (induction cs) auto
  moreover have "\<forall>c \<in> set (workflow_checkpoints d). doc_checkpoint (wc_state c) = wc_id c"
    using assms by (simp add: wf_inv_def checkpoints_inv_def)
  ultimately show ?thesis by blast
qed

lemma get_document:
  assumes "wf_inv t d"
  shows "wf_get t k d = (case find_by doc_checkpoint k (map wc_state (workflow_checkpoints d)) of
     None \<Rightarrow> missing k | Some doc \<Rightarrow> Inr doc, d)"
proof -
  have "wc_tenant_id row = t" if "find_by wc_id k (workflow_checkpoints d) = Some row" for row
    using find_by_SomeD [OF that] assms by (auto simp: wf_inv_def checkpoints_inv_def)
  then show ?thesis
    by (auto simp: wf_get_eq find_document [OF assms] missing_def split: option.split)
qed

lemma documents_upserted:
  assumes "wf_inv t d" and "next_or_known (doc_checkpoint doc) d"
  shows "map wc_state (workflow_checkpoints (upserted env t doc d)) =
    (if doc_checkpoint doc \<in> workflow_ids d then put_document doc (map wc_state (workflow_checkpoints d))
     else map wc_state (workflow_checkpoints d) @ [doc])"
proof -
  have ids: "wc_id ` set (workflow_checkpoints d) = workflow_ids d"
    using assms(1) numbered_checkpoint_ids by (simp add: wf_inv_def)
  have upd: "map wc_state (update_by wc_id j (\<lambda>q. c\<lparr>wc_created_at := wc_created_at q\<rparr>) cs) =
      update_by doc_checkpoint j (\<lambda>_. wc_state c) (map wc_state cs)"
    if "\<forall>c \<in> set cs. doc_checkpoint (wc_state c) = wc_id c" for j cs and c :: WorkflowCheckpointRow
    using that by (simp add: update_by_def)
  have "\<forall>c \<in> set (workflow_checkpoints d). doc_checkpoint (wc_state c) = wc_id c"
    using assms(1) by (simp add: wf_inv_def checkpoints_inv_def)
  moreover have "wc_state (checkpoint_row env t doc v) = doc" for v by (simp add: checkpoint_row_def)
  ultimately show ?thesis by (simp add: upserted_tables Let_def ids put_document_def upd)
qed


subsection \<open>The simulation\<close>

lemma upsert_documents:
  assumes inv: "engine_machine_inv w t (s, n)" and doc: "doc_ok doc" "next_or_known (doc_checkpoint doc) (eng_db s)"
    and env: "fresh_event env = ew_event w n"
  shows "upsert_workflow env t doc (eng_db s) = (Inr (), upserted env t doc (eng_db s))"
    and "engine_machine_inv w t (s\<lparr>eng_runs := rs, eng_db := upserted env t doc (eng_db s)\<rparr>, Suc n)"
proof -
  have wf: "wf_inv t (eng_db s)" using inv by (simp add: engine_machine_inv_def eng_inv_def)
  have "ew_event w n \<notin> we_id ` set (workflow_events (eng_db s))"
    using inv by (intro event_fresh) (simp_all add: engine_machine_inv_def)
  with env doc show u: "upsert_workflow env t doc (eng_db s) = (Inr (), upserted env t doc (eng_db s))"
    by (intro upsert_succeeds [OF wf]) (simp_all add: doc_ok_stored)
  have "eng_inv t (s\<lparr>eng_db := snd (upsert_workflow env t doc (eng_db s))\<rparr>)"
    using inv doc by (intro upsert_eng_inv) (simp_all add: engine_machine_inv_def)
  then show "engine_machine_inv w t (s\<lparr>eng_runs := rs, eng_db := upserted env t doc (eng_db s)\<rparr>, Suc n)"
    using inv env u events_drawn_upserted by (simp add: engine_machine_inv_def eng_inv_def)
qed

definition good_call :: "engine_world \<Rightarrow> string \<Rightarrow> wf_request \<Rightarrow> engine \<times> nat \<Rightarrow> bool" where
  "good_call w t rq s \<longleftrightarrow> engine_machine_inv w t (snd (engine_machine w t rq s)) \<and>
     spec_workflow rq (abs_documents s) = map_prod id abs_documents (engine_machine w t rq s)"

lemma good_plan:
  assumes inv: "engine_machine_inv w t (s, n)"
  shows "good_call w t (Rq_plan now task agents) (s, n)"
proof -
  let ?env = "\<lparr>fresh_event = ew_event w n, wf_now = now\<rparr>" and ?d = "eng_db s"
  let ?doc = "planned_doc ?env task agents ?d"
  have wf: "wf_inv t ?d" and scan: "reorders (ew_checkpoints w)"
    using inv by (simp_all add: engine_machine_inv_def eng_inv_def engine_world_ok_def)
  note num = wf [unfolded wf_inv_def, THEN conjunct2, THEN conjunct2, THEN conjunct1]
  have known: "next_or_known (doc_checkpoint ?doc) ?d" by (simp add: next_or_known_def)
  note up = upsert_documents [OF inv planned_doc_ok known, of ?env]
  have run: "plan (ew_checkpoints w) ?env t task agents s = (Inr ?doc, s\<lparr>eng_runs := eng_runs s @ [?doc], eng_db := upserted ?env t ?doc ?d\<rparr>)"
    using up(1) by (simp add: plan_eq [OF scan wf] Let_def)
  moreover have "plan_doc now (checkpoint_name (Suc (length (workflow_checkpoints ?d)))) task (plan_agents agents) = ?doc"
    by (simp add: planned_doc_def numbered_length [OF num])
  moreover have "map wc_state (workflow_checkpoints (upserted ?env t ?doc ?d)) = map wc_state (workflow_checkpoints ?d) @ [?doc]"
    using fresh_checkpoint [OF num] by (simp add: documents_upserted [OF wf known])
  ultimately show ?thesis
    using up(2) by (simp add: good_call_def abs_documents_def Let_def)
qed

text \<open>A call that rewrites a known document.\<close>

lemma rewrite_documents:
  assumes inv: "engine_machine_inv w t (s, n)" and doc: "doc_ok doc" "doc_checkpoint doc = k" "k \<in> workflow_ids (eng_db s)"
    and env: "fresh_event env = ew_event w n"
  shows "engine_machine_inv w t (s\<lparr>eng_db := upserted env t doc (eng_db s)\<rparr>, Suc n)"
    and "abs_documents (s\<lparr>eng_db := upserted env t doc (eng_db s)\<rparr>, Suc n) = put_document doc (abs_documents (s, n))"
    and "upsert_workflow env t doc (eng_db s) = (Inr (), upserted env t doc (eng_db s))"
proof -
  have known: "next_or_known (doc_checkpoint doc) (eng_db s)" using doc by (simp add: next_or_known_def)
  have wf: "wf_inv t (eng_db s)" using inv by (simp add: engine_machine_inv_def eng_inv_def)
  show "engine_machine_inv w t (s\<lparr>eng_db := upserted env t doc (eng_db s)\<rparr>, Suc n)"
    using upsert_documents(2) [OF inv doc(1) known env, of "eng_runs s"] by simp
  show "abs_documents (s\<lparr>eng_db := upserted env t doc (eng_db s)\<rparr>, Suc n) = put_document doc (abs_documents (s, n))"
    using doc documents_upserted [OF wf known] by (simp add: abs_documents_def)
  show "upsert_workflow env t doc (eng_db s) = (Inr (), upserted env t doc (eng_db s))"
    by (rule upsert_documents(1) [OF inv doc(1) known env])
qed

lemma good_rewrites:
  assumes inv: "engine_machine_inv w t (s, n)"
  shows "good_call w t (Rq_execute now k) (s, n)" and "good_call w t (Rq_recover now k) (s, n)"
    and "good_call w t (Rq_get k) (s, n)"
proof -
  let ?env = "\<lparr>fresh_event = ew_event w n, wf_now = now\<rparr>" and ?docs = "map wc_state (workflow_checkpoints (eng_db s))"
  have eng: "eng_inv t s" and wf: "wf_inv t (eng_db s)" using inv by (simp_all add: engine_machine_inv_def eng_inv_def)
  have same: "engine_machine_inv w t (s, Suc n)" "abs_documents (s, Suc n) = ?docs" "abs_documents (s, n) = ?docs"
    using inv events_drawn_Suc by (simp_all add: engine_machine_inv_def abs_documents_def)
  note get = get_document [OF wf, of k]
  show "good_call w t (Rq_get k) (s, n)"
    using same by (simp add: good_call_def get split: option.split)
  have "good_call w t (Rq_execute now k) (s, n) \<and> good_call w t (Rq_recover now k) (s, n)"
  proof (cases "find_by doc_checkpoint k ?docs")
    case None
    with get have "fst (wf_get t k (eng_db s)) = missing k" by simp
    with None same show ?thesis by (simp add: good_call_def execute_eq recover_eq' missing_def)
  next
    case (Some doc)
    with get have g: "fst (wf_get t k (eng_db s)) = Inr doc" by simp
    note stored = stored_doc [OF eng g]
    have "wf_get t k (eng_db s) = (Inr doc, eng_db s)" using Some get by simp
    then have k: "k \<in> workflow_ids (eng_db s)" by (rule wf_get_Inr(2) [OF wf])
    have status: "doc_status doc = ''completed'' \<or> doc_status doc \<in> set [''planned'', ''recovered'', ''running'']"
      using stored(1) by (auto simp: doc_ok_def)
    have x: "doc_ok (execute_doc now k doc)" "doc_checkpoint (execute_doc now k doc) = k"
      using stored by (simp_all add: execute_doc_ok)
    have r: "doc_ok (recover_doc now doc)" "doc_checkpoint (recover_doc now doc) = k"
      using stored by (simp_all add: recover_doc_ok) (simp add: recover_doc_def)
    note xs = rewrite_documents [OF inv x k, of ?env] and rs = rewrite_documents [OF inv r k, of ?env]
    have "good_call w t (Rq_execute now k) (s, n)"
      using status Some same xs g by (auto simp: good_call_def execute_eq Let_def)
    moreover have "good_call w t (Rq_recover now k) (s, n)"
      using Some same rs g by (simp add: good_call_def recover_eq' Let_def)
    ultimately show ?thesis by simp
  qed
  then show "good_call w t (Rq_execute now k) (s, n)" and "good_call w t (Rq_recover now k) (s, n)" by simp_all
qed

lemma lease_step_tasks:
  assumes "reorders scan" and "db_ok d"
  obtains f where "lease_step scan op d = with_tasks f d"
proof -
  have id: "d = with_tasks (\<lambda>ts. ts) d" by (simp add: with_tasks_def)
  show ?thesis
  proof (cases op)
    case (Lease t w a s n)
    from assms show ?thesis
      by (cases rule: lease_cases [where t = t and w = w and a = a and s = s and n = n])
        (use Lease id that in \<open>auto\<close>)
  next
    case (Mark t tid a n)
    show ?thesis
    proof (cases "snd (mark_task_succeeded t tid a n d) = d")
      case True
      with Mark id show ?thesis by (intro that [of "\<lambda>ts. ts"]) simp
    next
      case False
      then have "snd (mark_task_succeeded t tid a n d) = with_tasks (update_by wt_id tid (succeed n)) d"
        by (auto simp: mark_eq split: option.splits if_splits)
      with Mark show ?thesis by (intro that) simp
    qed
  next
    case (Sweep t n)
    with that show ?thesis by (simp add: recover_eq [OF assms])
  qed
qed

lemma good_work:
  assumes "engine_machine_inv w t (s, n)"
  shows "good_call w t (Rq_work op) (s, n)"
proof -
  have "reorders (ew_tasks w)" "db_ok (eng_db s)"
    using assms by (simp_all add: engine_machine_inv_def engine_world_ok_def eng_inv_def wf_inv_def)
  then obtain f where f: "lease_step (ew_tasks w) op (eng_db s) = with_tasks f (eng_db s)" by (rule lease_step_tasks)
  have "eng_inv t (s\<lparr>eng_db := lease_step (ew_tasks w) op (eng_db s)\<rparr>)"
    using assms by (intro work_inv) (simp add: engine_machine_inv_def)
  then show ?thesis
    using assms events_drawn_Suc
    by (simp add: good_call_def engine_machine_inv_def f abs_documents_def) (simp add: with_tasks_def events_drawn_def)
qed

lemma good_calls: "engine_machine_inv w t s \<Longrightarrow> good_call w t rq s"
  by (cases rq; cases s) (simp_all add: good_plan good_rewrites good_work)

interpretation documents: simulation "engine_machine w t" spec_workflow abs_documents "engine_machine_inv w t" "\<lambda>_. True" for w t
  using good_calls by unfold_locales (simp_all add: good_call_def)


text \<open>
  C9: Refinement: from the start of an engine, every sequence of plans, executions, recoveries and reads,
  with leases, marks and sweeps by any workers in between, gets exactly the answers of the
  abstract list of documents, and the checkpoint table then holds exactly that list. So every plan succeeds under
  the next number, a document is executed once and stays completed until it is recovered, and nothing a worker does changes a
  document.
\<close>

theorem engine_refines_documents:
  assumes "reorders (ew_checkpoints w)" and "reorders (ew_tasks w)" and "inj (ew_event w)"
  shows "outcomes spec_workflow rqs [] =
    map_prod id abs_documents (outcomes (engine_machine w t) rqs (new_engine t now, 0))"
proof -
  have e: "ensure_tenant t None now empty_db = (fst (ensure_tenant t None now empty_db), snd (ensure_tenant t None now empty_db))"
    by simp
  have "workflow_events (eng_db (new_engine t now)) = []" "workflow_checkpoints (eng_db (new_engine t now)) = []"
    using ensure_tenant_frame [OF e] by (simp_all add: new_engine_def empty_db_def)
  then have "engine_machine_inv w t (new_engine t now, 0)" and "abs_documents (new_engine t now, 0) = []"
    using assms new_engine_inv by (simp_all add: engine_machine_inv_def engine_world_ok_def events_drawn_def abs_documents_def)
  with documents.run_refines [of w t "(new_engine t now, 0)" rqs] show ?thesis by (simp add: list_all_iff)
qed

definition documents_example :: "wf_request list" where
  "documents_example = [Rq_plan 10 ''ship'' (Some [''architect'']), Rq_work (Lease ''legacy'' ''checkpoint-1'' ''w'' 30 11),
     Rq_execute 12 ''checkpoint-1'', Rq_execute 13 ''checkpoint-1'', Rq_get ''checkpoint-1'', Rq_get ''checkpoint-2'']"

definition documents_example_world :: engine_world where
  "documents_example_world = \<lparr>ew_checkpoints = (\<lambda>rows. rows), ew_tasks = (\<lambda>rows. rows), ew_event = (\<lambda>n. replicate n CHR ''e'')\<rparr>"

theorem engine_refines_documents_witness:
  "map (map_option (map_sum (\<lambda>e. ()) (\<lambda>doc. (doc_status doc, doc_updated_at doc))))
     (fst (outcomes (engine_machine documents_example_world ''legacy'') documents_example (new_engine ''legacy'' 0, 0))) =
   [Some (Inr (''planned'', 10)), None, Some (Inr (''completed'', 12)), Some (Inr (''completed'', 12)),
    Some (Inr (''completed'', 12)), Some (Inl ())]"
proof -
  let ?w = documents_example_world
  have "inj (\<lambda>n. replicate n CHR ''e'')" by (rule injI) (metis length_replicate)
  then have "reorders (ew_checkpoints ?w)" "reorders (ew_tasks ?w)" "inj (ew_event ?w)"
    by (simp_all add: documents_example_world_def reorders_def)
  from engine_refines_documents [OF this, of documents_example "''legacy''" 0]
  have "fst (outcomes (engine_machine ?w ''legacy'') documents_example (new_engine ''legacy'' 0, 0)) =
      fst (outcomes spec_workflow documents_example [])" by simp
  moreover have "map (map_option (map_sum (\<lambda>e. ()) (\<lambda>doc. (doc_status doc, doc_updated_at doc))))
     (fst (outcomes spec_workflow documents_example [])) =
   [Some (Inr (''planned'', 10)), None, Some (Inr (''completed'', 12)), Some (Inr (''completed'', 12)),
    Some (Inr (''completed'', 12)), Some (Inl ())]" by code_simp
  ultimately show ?thesis by simp
qed

end
