(* ===== verification/Api_Keys.thy ===== *)
theory Api_Keys
  imports Access_Control
begin

section \<open>API keys, authentication and route permissions (security.py)\<close>

text \<open>
  \<^verbatim>\<open>parse_api_keys\<close>, \<^verbatim>\<open>authenticate_request\<close>, \<^verbatim>\<open>route_permission\<close>, the public paths and
  the response headers of \<^verbatim>\<open>agi_platform/security.py\<close>. SHA-256 is the argument \<open>hash\<close>
  (\<^verbatim>\<open>hash_api_key\<close>): every theorem holds for any digest function. \<open>loads\<close> is
  \<^verbatim>\<open>json.loads\<close> and \<open>rep\<close> the \<^verbatim>\<open>str\<close> of the JSON values that are neither strings,
  integers, booleans nor null.
\<close>

subsection \<open>Keys\<close>

record APIKeyRecord =
  rec_key_hash :: string
  rec_subject :: string
  rec_tenant_id :: string
  rec_roles :: "json set"
  rec_permissions :: "string set"
  rec_key_id :: string
  rec_revoked :: bool
  rec_expires_at :: json
  rec_scopes :: "json set"

text \<open>\<^verbatim>\<open>self.expires_at > now\<close>: a comparison of numbers (a bool is one), a TypeError otherwise.\<close>

fun later_than :: "json \<Rightarrow> int \<Rightarrow> bool result" where
  "later_than (JInt e) now = Inr (now < e)"
| "later_than (JFloat e) now = Inr (of_int now < e)"
| "later_than (JBool b) now = Inr (now < of_bool b)"
| "later_than v now = Inl (TypeError ''expires_at'')"

definition active :: "APIKeyRecord \<Rightarrow> int \<Rightarrow> bool result" where
  "active r now =
     (if rec_revoked r then Inr False
      else if rec_expires_at r = JNull then Inr True
      else later_than (rec_expires_at r) now)"

text \<open>One entry of the JSON list.\<close>

definition parse_item ::
    "(string \<Rightarrow> string) \<Rightarrow> (json \<Rightarrow> string) \<Rightarrow> nat \<Rightarrow> json \<Rightarrow> APIKeyRecord result" where
  "parse_item hash rep index v =
    (case v of
       JObj item \<Rightarrow>
         (let plaintext = item_get item ''key'';
              key_hash = py_str rep (py_or (item_get item ''key_hash'') (JStr (hash (py_str rep plaintext))))
          in if key_hash = [] \<or> key_hash = hash ''None'' then
               Inl (ValueError ''API keys require key_hash or bootstrap key'')
             else case py_iter (dict_get_default item ''permissions'' (JList [])) of
               Inl e \<Rightarrow> Inl e
             | Inr ps \<Rightarrow>
                (case dict_get item ''tenant_id'' of
                   None \<Rightarrow> Inl (KeyError ''tenant_id'')
                 | Some tenant \<Rightarrow>
                    (case py_frozenset (dict_get_default item ''roles'' (JList [JStr ''service''])) of
                       Inl e \<Rightarrow> Inl e
                     | Inr rs \<Rightarrow>
                        (case py_frozenset (dict_get_default item ''scopes'' (JList [])) of
                           Inl e \<Rightarrow> Inl e
                         | Inr scopes \<Rightarrow> Inr
                             \<lparr>rec_key_hash = key_hash,
                              rec_subject = py_str rep (py_or (item_get item ''subject'')
                                 (JStr (''service-account-'' @ str_of_nat index))),
                              rec_tenant_id = py_str rep tenant,
                              rec_roles = rs,
                              rec_permissions = (\<lambda>p. normalize_permission (py_str rep p)) ` set ps,
                              rec_key_id = py_str rep (py_or (item_get item ''key_id'')
                                 (JStr (''key-'' @ str_of_nat index))),
                              rec_revoked = truthy (dict_get_default item ''revoked'' (JBool False)),
                              rec_expires_at = item_get item ''expires_at'',
                              rec_scopes = scopes\<rparr>))))
     | _ \<Rightarrow> Inl (AttributeError ''get''))"

fun parse_items ::
    "(string \<Rightarrow> string) \<Rightarrow> (json \<Rightarrow> string) \<Rightarrow> nat \<Rightarrow> json list \<Rightarrow>
     (string, APIKeyRecord) dict \<Rightarrow> (string, APIKeyRecord) dict result" where
  "parse_items hash rep index [] records = Inr records"
| "parse_items hash rep index (v # vs) records =
     (case parse_item hash rep index v of
        Inl e \<Rightarrow> Inl e
      | Inr r \<Rightarrow> parse_items hash rep (Suc index) vs (dict_set (rec_key_hash r) r records))"

definition legacy_record :: "(string \<Rightarrow> string) \<Rightarrow> string \<Rightarrow> APIKeyRecord" where
  "legacy_record hash key = \<lparr>rec_key_hash = hash key, rec_subject = ''legacy-api-key'',
     rec_tenant_id = ''legacy'', rec_roles = {JStr ''admin''}, rec_permissions = {''*''},
     rec_key_id = ''legacy'', rec_revoked = False, rec_expires_at = JNull, rec_scopes = {}\<rparr>"

definition parse_api_keys ::
    "(string \<Rightarrow> string) \<Rightarrow> (json \<Rightarrow> string) \<Rightarrow> (string \<Rightarrow> json result) \<Rightarrow>
     string option \<Rightarrow> string option \<Rightarrow> (string, APIKeyRecord) dict result" where
  "parse_api_keys hash rep loads raw legacy_key =
    (let parsed =
       (case raw of
          None \<Rightarrow> Inr []
        | Some s \<Rightarrow> if s = [] then Inr [] else
            (case loads s of
               Inl e \<Rightarrow> Inl e
             | Inr (JList data) \<Rightarrow> parse_items hash rep 0 data []
             | Inr v \<Rightarrow> Inl (ValueError ''AGI_API_KEYS must be a JSON list'')))
     in case parsed of
          Inl e \<Rightarrow> Inl e
        | Inr records \<Rightarrow>
            (case legacy_key of
               None \<Rightarrow> Inr records
             | Some k \<Rightarrow> if k = [] \<or> hash k \<in> set (dict_keys records) then Inr records
                 else Inr (dict_set (hash k) (legacy_record hash k) records)))"

subsection \<open>Authentication\<close>

text \<open>
  The headers a request carries. \<^verbatim>\<open>hmac.compare_digest\<close> on strings takes ASCII only and
  raises TypeError otherwise.
\<close>

record request_headers =
  hdr_api_key :: "string option"
  hdr_tenant_id :: "string option"
  hdr_request_id :: "string option"
  hdr_approval_id :: "string option"

definition is_ascii :: "string \<Rightarrow> bool" where
  "is_ascii s = list_all (\<lambda>c. (of_char c :: nat) < 128) s"

definition compare_digest :: "string \<Rightarrow> string \<Rightarrow> bool result" where
  "compare_digest a b = (if is_ascii a \<and> is_ascii b then Inr (a = b)
     else Inl (TypeError ''comparing strings with non-ASCII characters is not supported''))"

definition identity_of :: "APIKeyRecord \<Rightarrow> Identity" where
  "identity_of r = \<lparr>id_subject = rec_subject r, id_tenant_id = rec_tenant_id r,
     roles = rec_roles r, permissions = rec_permissions r, key_id = rec_key_id r,
     identity_type = ''service_account''\<rparr>"

definition authenticate_request ::
    "(string \<Rightarrow> string) \<Rightarrow> int \<Rightarrow> request_headers \<Rightarrow> (string, APIKeyRecord) dict \<Rightarrow>
     Identity option result" where
  "authenticate_request hash now h api_keys =
    (case hdr_api_key h of
       None \<Rightarrow> Inr None
     | Some raw_key \<Rightarrow> if raw_key = [] then Inr None else
        (case dict_get api_keys (hash raw_key) of
           None \<Rightarrow> Inr None
         | Some r \<Rightarrow>
            (case active r now of
               Inl e \<Rightarrow> Inl e
             | Inr False \<Rightarrow> Inr None
             | Inr True \<Rightarrow>
                (case hdr_tenant_id h of
                   None \<Rightarrow> Inr (Some (identity_of r))
                 | Some t \<Rightarrow> if t = [] then Inr (Some (identity_of r)) else
                    (case compare_digest t (rec_tenant_id r) of
                       Inl e \<Rightarrow> Inl e
                     | Inr same \<Rightarrow> Inr (if same then Some (identity_of r) else None))))))"

subsection \<open>Routes\<close>

definition PERMISSION_BY_ROUTE :: "(string \<times> string, string) dict" where
  "PERMISSION_BY_ROUTE =
    [((''POST'', ''/memory/store''), ''memory.write''), ((''POST'', ''/memory/search''), ''memory.read''),
     ((''POST'', ''/memory/retrieve''), ''memory.read''), ((''POST'', ''/memory/consolidate''), ''memory.write''),
     ((''POST'', ''/guardian/validate''), ''memory.write''), ((''POST'', ''/github/repositories''), ''github.index''),
     ((''POST'', ''/sandbox/execute''), ''sandbox.execute''), ((''POST'', ''/graph/entities''), ''graph.write''),
     ((''POST'', ''/graph/relationships''), ''graph.write''), ((''POST'', ''/graph/search''), ''graph.read''),
     ((''POST'', ''/orchestrate''), ''workflow.start''), ((''POST'', ''/governance/proposals''), ''governance.propose''),
     ((''POST'', ''/governance/reviews''), ''governance.approve''), ((''POST'', ''/evolution/evaluate''), ''evolution.propose''),
     ((''POST'', ''/evolution/proposals''), ''evolution.propose'')]"

definition DYNAMIC_PREFIX_PERMISSIONS :: "(string \<times> string \<times> string) list" where
  "DYNAMIC_PREFIX_PERMISSIONS =
    [(''GET'', ''/github/repositories/'', ''github.read''), (''POST'', ''/orchestrate/'', ''workflow.start'')]"

fun dynamic_permission :: "(string \<times> string \<times> string) list \<Rightarrow> string \<Rightarrow> string \<Rightarrow> string option" where
  "dynamic_permission [] http_method path = None"
| "dynamic_permission ((m, pre, perm) # rest) http_method path =
     (if http_method = m \<and> startswith path pre then Some perm
      else dynamic_permission rest http_method path)"

definition route_permission :: "string \<Rightarrow> string \<Rightarrow> string option" where
  "route_permission http_method path =
    (case dict_get PERMISSION_BY_ROUTE (http_method, path) of
       Some p \<Rightarrow> Some p
     | None \<Rightarrow> dynamic_permission DYNAMIC_PREFIX_PERMISSIONS http_method path)"

definition public_paths :: "string list" where
  "public_paths = [''/'', ''/health'', ''/live'', ''/ready'', ''/metrics'', ''/security/policy'',
     ''/architecture/levels'', ''/architecture/readiness'', ''/architecture/competitive-advantages'',
     ''/tools'', ''/mcp/manifest'', ''/docs'', ''/openapi.json'', ''/redoc'']"

definition is_public_path :: "string \<Rightarrow> bool" where
  "is_public_path path = (path \<in> set public_paths \<or> startswith path ''/architecture/levels/'')"

definition security_headers :: "(string, string) dict" where
  "security_headers = [(''X-Content-Type-Options'', ''nosniff''), (''X-Frame-Options'', ''DENY''),
     (''Referrer-Policy'', ''no-referrer''),
     (''Permissions-Policy'', ''geolocation=(), microphone=(), camera=()''),
     (''Cache-Control'', ''no-store'')]"


subsection \<open>Facts about parsing\<close>

lemma parse_item_InrD:
  assumes "parse_item hash rep n v = Inr r"
  shows "rec_key_hash r \<noteq> hash ''None''" and "rec_key_hash r \<noteq> []"
    and "\<forall>p \<in> rec_permissions r. normalize_permission p = p"
  using assms by (auto simp: parse_item_def Let_def split: json.splits if_splits sum.splits option.splits)

definition keys_ok :: "(string \<Rightarrow> string) \<Rightarrow> (string, APIKeyRecord) dict \<Rightarrow> bool" where
  "keys_ok hash recs \<longleftrightarrow> distinct (dict_keys recs) \<and>
     (\<forall>k r. (k, r) \<in> set recs \<longrightarrow> rec_key_hash r = k \<and> k \<noteq> hash ''None'' \<and>
        (\<forall>p \<in> rec_permissions r. normalize_permission p = p))"

lemma keys_ok_set:
  assumes "keys_ok hash recs" and "rec_key_hash r = k" and "k \<noteq> hash ''None''"
    and "\<forall>p \<in> rec_permissions r. normalize_permission p = p"
  shows "keys_ok hash (dict_set k r recs)"
  using assms by (auto simp: keys_ok_def distinct_dict_set set_dict_set)

lemma parse_items_ok:
  "parse_items hash rep n vs recs = Inr out \<Longrightarrow> keys_ok hash recs \<Longrightarrow> keys_ok hash out"
proof (induction hash rep n vs recs rule: parse_items.induct)
  case (1 hash rep n recs)
  then show ?case by simp
next
  case (2 hash rep n v vs recs)
  then show ?case
    by (auto split: sum.splits intro!: keys_ok_set dest: parse_item_InrD)
qed

lemma parse_items_snoc:
  "parse_items hash rep n (vs @ [v]) recs =
     (case parse_items hash rep n vs recs of
        Inl e \<Rightarrow> Inl e
      | Inr out \<Rightarrow> (case parse_item hash rep (n + length vs) v of
          Inl e \<Rightarrow> Inl e | Inr r \<Rightarrow> Inr (dict_set (rec_key_hash r) r out)))"
  by (induction vs arbitrary: n recs) (auto split: sum.splits)

lemma parse_api_keys_items:
  assumes "parse_api_keys hash rep loads (Some s) legacy = Inr recs" and "s \<noteq> []"
    and "loads s = Inr (JList data)"
  shows "\<exists>out. parse_items hash rep 0 data [] = Inr out \<and>
    (\<forall>k \<in> set (dict_keys out). dict_get recs k = dict_get out k)"
  using assms
  by (auto simp: parse_api_keys_def Let_def split: sum.splits option.splits if_splits)
    (metis fst_conv image_eqI)

subsection \<open>Facts about authentication\<close>

lemma authenticate_request_iff:
  "authenticate_request hash now h api_keys = Inr (Some i) \<longleftrightarrow>
   (\<exists>raw r. hdr_api_key h = Some raw \<and> raw \<noteq> [] \<and> dict_get api_keys (hash raw) = Some r \<and>
      active r now = Inr True \<and> i = identity_of r \<and>
      (hdr_tenant_id h \<in> {None, Some []} \<or>
       (hdr_tenant_id h = Some (rec_tenant_id r) \<and> is_ascii (rec_tenant_id r))))"
  by (auto simp: authenticate_request_def compare_digest_def
      split: option.splits sum.splits bool.splits if_splits)

subsection \<open>Properties\<close>

text \<open>
  C31: who is authenticated. A request is given an identity if and only if it presents a non-empty
  API key whose hash is configured, the key's record is neither revoked nor expired, and the
  tenant header is absent or names the record's own tenant; the identity is then the record's,
  so the header can narrow the tenant and never switch it.
\<close>
theorem authenticate_exact:
  "authenticate_request hash now h api_keys = Inr (Some i) \<longleftrightarrow>
   (\<exists>raw r. hdr_api_key h = Some raw \<and> raw \<noteq> [] \<and> dict_get api_keys (hash raw) = Some r \<and>
      \<not> rec_revoked r \<and>
      (rec_expires_at r = JNull \<or> later_than (rec_expires_at r) now = Inr True) \<and>
      (hdr_tenant_id h \<in> {None, Some []} \<or>
       (hdr_tenant_id h = Some (id_tenant_id i) \<and> is_ascii (id_tenant_id i))) \<and>
      i = identity_of r)"
  by (auto simp: authenticate_request_iff active_def identity_of_def split: if_splits)

text \<open>
  What the key table holds. Whenever the configuration parses, every record is stored under
  its own hash, the hashes are distinct, none of them is the hash of the placeholder
  \<^verbatim>\<open>"None"\<close> that a missing key would give, and every permission of a record is in its
  canonical spelling, so that \<^verbatim>\<open>Identity.can\<close> (which normalises what is asked for) grants
  every permission the record holds.
\<close>
lemma parse_api_keys_table:
  assumes "parse_api_keys hash rep loads raw None = Inr recs"
  shows "distinct (dict_keys recs) \<and>
    (\<forall>k r. dict_get recs k = Some r \<longrightarrow> rec_key_hash r = k \<and> k \<noteq> hash ''None'' \<and>
       (\<forall>p \<in> rec_permissions r. normalize_permission p = p \<and> can (identity_of r) p))"
proof -
  have "keys_ok hash []" by (simp add: keys_ok_def)
  with assms have "keys_ok hash recs"
    by (auto simp: parse_api_keys_def Let_def split: option.splits if_splits sum.splits json.splits
        dest: parse_items_ok)
  then show ?thesis
    by (auto simp: keys_ok_def can_def identity_of_def dest: map_of_SomeD)
qed

end
