(* ===== verification/Rate_Limit.thy ===== *)
theory Rate_Limit
  imports Access_Control
begin

section \<open>Rate limiting (security.py)\<close>

text \<open>
  \<^verbatim>\<open>RateLimiter\<close>, the in-process sliding window, and \<^verbatim>\<open>RedisRateLimiter\<close>, the fixed window
  of production, from \<^verbatim>\<open>agi_platform/security.py\<close>. The clock is an argument. Redis is not part
  of the repository: its pipeline is the argument \<open>pipe\<close>, which takes the keys with their
  expiry times and either fails or returns the counters; \<open>counts_incr\<close> states what the INCR
  command is documented to do.
\<close>

subsection \<open>The sliding window\<close>

type_synonym windows = "string \<Rightarrow> rat list"

definition allow :: "int \<Rightarrow> string \<Rightarrow> rat \<Rightarrow> windows \<Rightarrow> bool \<times> windows" where
  "allow limit_per_minute ident now ws =
     (let window = dropWhile (\<lambda>t. 60 \<le> now - t) (ws ident) in
      if limit_per_minute \<le> int (length window) then (False, ws(ident := window))
      else (True, ws(ident := window @ [now])))"

text \<open>A run of calls: the admitted ones, in order, and the windows after it.\<close>

fun admit_step ::
    "int \<Rightarrow> string \<times> rat \<Rightarrow> (string \<times> rat) list \<times> windows \<Rightarrow> (string \<times> rat) list \<times> windows" where
  "admit_step limit (ident, now) (adm, ws) =
     (case allow limit ident now ws of
        (True, ws') \<Rightarrow> (adm @ [(ident, now)], ws') | (False, ws') \<Rightarrow> (adm, ws'))"

definition admit :: "int \<Rightarrow> (string \<times> rat) list \<Rightarrow> (string \<times> rat) list \<times> windows" where
  "admit limit calls = fold (admit_step limit) calls ([], \<lambda>_. [])"

definition admitted_in :: "string \<Rightarrow> (rat \<Rightarrow> bool) \<Rightarrow> (string \<times> rat) list \<Rightarrow> rat list" where
  "admitted_in ident p adm = [a. (j, a) \<leftarrow> adm, j = ident \<and> p a]"

subsection \<open>The fixed window in Redis\<close>

record RateLimitRule =
  rule_scope :: string
  rule_limit :: int
  rule_window_seconds :: int
  rule_fail_closed :: bool

type_synonym 'r pipeline = "(string \<times> int) list \<Rightarrow> 'r \<Rightarrow> int list result \<times> 'r"

definition rule_key :: "int \<Rightarrow> RateLimitRule \<Rightarrow> string" where
  "rule_key now r = ''rl:'' @ rule_scope r @ '':'' @ str_of_int (now div rule_window_seconds r)"

fun over_limit :: "int list \<Rightarrow> RateLimitRule list \<Rightarrow> bool" where
  "over_limit (c # cs) (r # rs) = (rule_limit r < c \<or> over_limit cs rs)"
| "over_limit cs rs = False"

definition RedisRateLimiter_check ::
    "bool \<Rightarrow> 'r pipeline \<Rightarrow> int \<Rightarrow> RateLimitRule list \<Rightarrow> ('r, unit) sop" where
  "RedisRateLimiter_check enabled pipe now rules s =
    (if \<not> enabled then (Inr (), s)
     else if \<exists>r \<in> set rules. rule_window_seconds r = 0 then (Inl ZeroDivisionError, s)
     else case pipe (map (\<lambda>r. (rule_key now r, rule_window_seconds r + 5)) rules) s of
       (Inl e, s') \<Rightarrow>
         if is_RedisError e then
           (if \<exists>r \<in> set rules. rule_fail_closed r
            then (Inl (DependencyError (Some ''Rate limit dependency unavailable.'')), s')
            else (Inr (), s'))
         else (Inl e, s')
     | (Inr counts, s') \<Rightarrow>
         (if over_limit counts rules then (Inl RateLimitError, s') else (Inr (), s')))"

text \<open>
  The INCR commands of a pipeline: the counter of each key grows by the number of its
  occurrences, and each reply is the counter after the commands up to it.
\<close>

definition counts_incr :: "'r pipeline \<Rightarrow> ('r \<Rightarrow> string \<Rightarrow> int) \<Rightarrow> bool" where
  "counts_incr pipe cnt \<longleftrightarrow> (\<forall>kts s vs s'. pipe kts s = (Inr vs, s') \<longrightarrow>
     length vs = length kts \<and>
     (\<forall>k. cnt s' k = cnt s k + int (count_list (map fst kts) k)) \<and>
     (\<forall>i < length kts. vs ! i =
        cnt s (fst (kts ! i)) + int (count_list (map fst (take (Suc i) kts)) (fst (kts ! i)))))"

fun passed :: "bool \<Rightarrow> 'r pipeline \<Rightarrow> (int \<times> RateLimitRule list) list \<Rightarrow> 'r \<Rightarrow> nat \<times> 'r" where
  "passed enabled pipe [] s = (0, s)"
| "passed enabled pipe ((now, rules) # calls) s =
     (case RedisRateLimiter_check enabled pipe now rules s of
        (Inl e, s') \<Rightarrow> passed enabled pipe calls s'
      | (Inr u, s') \<Rightarrow> (let (n, s'') = passed enabled pipe calls s' in (Suc n, s'')))"

subsection \<open>The sliding window is exact\<close>

text \<open>
  The invariant of the window of a caller at time \<open>now\<close>: it is the admitted calls of the
  caller, less an initial part that is older than a minute.
\<close>

definition window_inv :: "rat \<Rightarrow> (string \<times> rat) list \<Rightarrow> windows \<Rightarrow> bool" where
  "window_inv now adm ws \<longleftrightarrow> (\<forall>i. \<exists>old. admitted_in i (\<lambda>_. True) adm = old @ ws i \<and>
     (\<forall>a \<in> set old. 60 \<le> now - a) \<and> sorted (ws i) \<and> (\<forall>a \<in> set (ws i). a \<le> now))"

lemma admitted_in_snoc [simp]:
  "admitted_in i p (adm @ [(j, a)]) = admitted_in i p adm @ (if j = i \<and> p a then [a] else [])"
  by (simp add: admitted_in_def)

lemma admitted_in_filter: "admitted_in i p adm = filter p (admitted_in i (\<lambda>_. True) adm)"
  by (induction adm) (auto simp: admitted_in_def)

lemma dropWhile_stale:
  "sorted w \<Longrightarrow> dropWhile (\<lambda>t. 60 \<le> now - t) w = filter (\<lambda>t. now - t < (60 :: rat)) w"
proof (induction w)
  case Nil
  show ?case by simp
next
  case (Cons t w)
  show ?case
  proof (cases "60 \<le> now - t")
    case True
    with Cons show ?thesis by simp
  next
    case False
    with Cons.prems have "\<forall>u \<in> set w. now - u < 60" by force
    with False show ?thesis by simp
  qed
qed

lemma window_inv_fresh:
  assumes "window_inv prev adm ws" and "prev \<le> now"
  shows "dropWhile (\<lambda>t. 60 \<le> now - t) (ws i) = admitted_in i (\<lambda>a. now - a < 60) adm"
proof -
  obtain old where old: "admitted_in i (\<lambda>_. True) adm = old @ ws i"
    "\<forall>a \<in> set old. 60 \<le> prev - a" "sorted (ws i)"
    using assms(1) unfolding window_inv_def by blast
  from old(2) assms(2) have "filter (\<lambda>a. now - a < 60) old = []" by (force simp: filter_empty_conv)
  with old show ?thesis
    by (simp add: dropWhile_stale admitted_in_filter [of i "\<lambda>a. now - a < 60"])
qed

lemma window_inv_mono: "window_inv prev adm ws \<Longrightarrow> prev \<le> now \<Longrightarrow> window_inv now adm ws"
  unfolding window_inv_def by (meson diff_right_mono order_trans)

lemma window_inv_step:
  assumes inv: "window_inv prev adm ws" and le: "prev \<le> now"
    and step: "admit_step limit (i, now) (adm, ws) = (adm', ws')"
  shows "window_inv now adm' ws'"
proof -
  have pruned: "\<exists>old. admitted_in j (\<lambda>_. True) adm = old @ w \<and> (\<forall>a \<in> set old. 60 \<le> now - a) \<and>
      sorted w \<and> (\<forall>a \<in> set w. a \<le> now)"
    if w: "w = ws j \<or> w = dropWhile (\<lambda>t. 60 \<le> now - t) (ws j)" for j w
  proof -
    obtain old where old: "admitted_in j (\<lambda>_. True) adm = old @ ws j" "\<forall>a \<in> set old. 60 \<le> prev - a"
      "sorted (ws j)" "\<forall>a \<in> set (ws j). a \<le> prev"
      using inv unfolding window_inv_def by blast
    let ?old = "old @ takeWhile (\<lambda>t. 60 \<le> now - t) (ws j)"
    from old le have "\<forall>a \<in> set old. 60 \<le> now - a" "\<forall>a \<in> set (ws j). a \<le> now" by force+
    with old w show ?thesis
    proof (elim disjE)
      assume "w = dropWhile (\<lambda>t. 60 \<le> now - t) (ws j)"
      with old \<open>\<forall>a \<in> set old. 60 \<le> now - a\<close> \<open>\<forall>a \<in> set (ws j). a \<le> now\<close> show ?thesis
        by (intro exI [of _ ?old])
          (auto simp: sorted_dropWhile dest: set_takeWhileD set_dropWhileD)
    qed auto
  qed
  show ?thesis
  proof (cases "limit \<le> int (length (dropWhile (\<lambda>t. 60 \<le> now - t) (ws i)))")
    case True
    with step have "adm' = adm" "ws' = ws(i := dropWhile (\<lambda>t. 60 \<le> now - t) (ws i))"
      by (simp_all add: allow_def)
    then show ?thesis using pruned by (simp add: window_inv_def)
  next
    case False
    let ?w = "dropWhile (\<lambda>t. 60 \<le> now - t) (ws i)"
    from False step have "adm' = adm @ [(i, now)]" "ws' = ws(i := ?w @ [now])"
      by (simp_all add: allow_def)
    moreover obtain old where "admitted_in i (\<lambda>_. True) adm = old @ ?w" "\<forall>a \<in> set old. 60 \<le> now - a"
      "sorted ?w" "\<forall>a \<in> set ?w. a \<le> now"
      using pruned [of ?w i] by blast
    ultimately show ?thesis using pruned by (auto simp: window_inv_def sorted_append)
  qed
qed


lemma admit_snoc: "admit limit (calls @ [c]) = admit_step limit c (admit limit calls)"
  by (simp add: admit_def)

lemma admit_inv:
  assumes "sorted (map snd calls)" and "\<forall>c \<in> set calls. snd c \<le> now"
  shows "window_inv now (fst (admit limit calls)) (snd (admit limit calls))"
  using assms
proof (induction calls arbitrary: now rule: rev_induct)
  case Nil
  show ?case by (simp add: window_inv_def admit_def admitted_in_def)
next
  case (snoc c calls)
  obtain i t where c: "c = (i, t)" by (cases c)
  obtain adm ws where a: "admit limit calls = (adm, ws)" by (cases "admit limit calls")
  obtain adm' ws' where s: "admit_step limit (i, t) (adm, ws) = (adm', ws')"
    by (cases "admit_step limit (i, t) (adm, ws)")
  from snoc.prems c have "sorted (map snd calls)" "\<forall>d \<in> set calls. snd d \<le> t" "t \<le> now"
    by (auto simp: sorted_append)
  with snoc.IH [of t] a have "window_inv t adm ws" by simp
  from window_inv_step [OF this order_refl s] have "window_inv t adm' ws'" .
  from window_inv_mono [OF this \<open>t \<le> now\<close>] have "window_inv now adm' ws'" .
  then show ?case using a c s by (simp add: admit_snoc)
qed

lemma allow_verdict:
  assumes "sorted (map snd calls)" and "\<forall>c \<in> set calls. snd c \<le> now"
  shows "fst (allow limit i now (snd (admit limit calls))) \<longleftrightarrow>
    int (length (admitted_in i (\<lambda>a. now - a < 60) (fst (admit limit calls)))) < limit"
  using window_inv_fresh [OF admit_inv [OF assms] order_refl, of limit i]
  by (auto simp: allow_def Let_def)

lemma admitted_sorted_le:
  assumes "sorted (map snd calls)" and "\<forall>c \<in> set calls. snd c \<le> now"
    and "a \<in> set (admitted_in i p (fst (admit limit calls)))"
  shows "a \<le> now"
proof -
  have "set (fst (admit limit calls)) \<subseteq> set calls"
  proof (induction calls rule: rev_induct)
    case Nil
    show ?case by (simp add: admit_def)
  next
    case (snoc c calls)
    then show ?case
      by (cases c; cases "admit limit calls")
        (auto simp: admit_snoc split: prod.splits bool.splits)
  qed
  with assms show ?thesis by (fastforce simp: admitted_in_def)
qed

lemma admitted_bound:
  assumes "sorted (map snd calls)"
  shows "int (length (admitted_in i (\<lambda>a. t - 60 < a \<and> a \<le> t) (fst (admit limit calls)))) \<le> max 0 limit"
  using assms
proof (induction calls rule: rev_induct)
  case Nil
  show ?case by (simp add: admit_def admitted_in_def)
next
  case (snoc c calls)
  obtain j now where c: "c = (j, now)" by (cases c)
  obtain adm ws where a: "admit limit calls = (adm, ws)" by (cases "admit limit calls")
  from snoc.prems c have srt: "sorted (map snd calls)" and le: "\<forall>d \<in> set calls. snd d \<le> now"
    by (auto simp: sorted_append)
  have IH: "int (length (admitted_in i (\<lambda>a. t - 60 < a \<and> a \<le> t) adm)) \<le> max 0 limit"
    using snoc.IH srt a by simp
  show ?case
  proof (cases "fst (allow limit j now ws) \<and> j = i \<and> t - 60 < now \<and> now \<le> t")
    case False
    then show ?thesis using IH a c by (auto simp: admit_snoc split: prod.splits bool.splits)
  next
    case True
    then have lim: "int (length (admitted_in i (\<lambda>a. now - a < 60) adm)) < limit"
      using allow_verdict [OF srt le, of limit i] a by auto
    let ?l = "admitted_in i (\<lambda>_. True) adm"
    have "set (filter (\<lambda>a. t - 60 < a \<and> a \<le> t) ?l) \<subseteq> {a. now - a < 60}" using True by auto
    then have "filter (\<lambda>a. t - 60 < a \<and> a \<le> t) ?l =
        filter (\<lambda>a. t - 60 < a \<and> a \<le> t) (filter (\<lambda>a. now - a < 60) ?l)"
      by (auto simp: intro!: filter_cong)
    then have "length (admitted_in i (\<lambda>a. t - 60 < a \<and> a \<le> t) adm) \<le>
        length (admitted_in i (\<lambda>a. now - a < 60) adm)"
      using length_filter_le [of "\<lambda>a. t - 60 < a \<and> a \<le> t" "filter (\<lambda>a. now - a < 60) ?l"]
      by (simp only: admitted_in_filter [of i "\<lambda>a. t - 60 < a \<and> a \<le> t"] admitted_in_filter [of i "\<lambda>a. now - a < 60"])
    with lim True show ?thesis using a c by (auto simp: admit_snoc split: prod.splits bool.splits)
  qed
qed


subsection \<open>The fixed window\<close>

lemma over_limit_member:
  assumes "length counts = length rules" and "i < length rules" and "rule_limit (rules ! i) < counts ! i"
  shows "over_limit counts rules"
  using assms
proof (induction counts rules arbitrary: i rule: over_limit.induct)
  case (1 c cs r rs)
  then show ?case by (cases i) auto
qed auto

lemma counts_incrD:
  assumes "counts_incr pipe cnt" and "pipe kts s = (Inr vs, s')"
  shows "length vs = length kts" and "cnt s' k = cnt s k + int (count_list (map fst kts) k)"
    and "i < length kts \<Longrightarrow> vs ! i =
      cnt s (fst (kts ! i)) + int (count_list (map fst (take (Suc i) kts)) (fst (kts ! i)))"
  using assms unfolding counts_incr_def by blast+

lemma count_list_pos: "x \<in> set xs \<Longrightarrow> 0 < count_list xs x"
  by (induction xs) auto

lemma check_counts:
  assumes incr: "counts_incr pipe cnt" and "r \<in> set rules" and closed: "rule_fail_closed r"
    and call: "RedisRateLimiter_check True pipe now rules s = (Inr u, s')"
  shows "cnt s (rule_key now r) < rule_limit r \<and> cnt s (rule_key now r) < cnt s' (rule_key now r)"
proof -
  let ?kts = "map (\<lambda>r. (rule_key now r, rule_window_seconds r + 5)) rules"
  have closed': "\<exists>r \<in> set rules. rule_fail_closed r" using assms(2) closed by blast
  obtain counts where pipe: "pipe ?kts s = (Inr counts, s')" and no: "\<not> over_limit counts rules"
    using call closed'
    by (auto simp: RedisRateLimiter_check_def split: if_splits prod.splits sum.splits)
  obtain i where i: "i < length rules" "rules ! i = r" using assms(2) by (meson in_set_conv_nth)
  note facts = counts_incrD [OF incr pipe]
  have len: "length counts = length rules" using facts(1) by simp
  have rep: "counts ! i = cnt s (rule_key now r) +
      int (count_list (map fst (take (Suc i) ?kts)) (rule_key now r))"
    using facts(3) [of i] i by simp
  have mem: "rule_key now r \<in> set (map fst (take (Suc i) ?kts))"
    using i by (force simp: take_Suc_conv_app_nth)
  then have pos: "0 < count_list (map fst (take (Suc i) ?kts)) (rule_key now r)"
    by (rule count_list_pos)
  have "rule_key now r \<in> set (map fst ?kts)" using assms(2) by force
  then have pos': "0 < count_list (map fst ?kts) (rule_key now r)"
    by (rule count_list_pos)
  have "counts ! i \<le> rule_limit r"
    using over_limit_member [OF len i(1)] no i(2) by fastforce
  then show ?thesis using rep pos pos' facts(2) [of "rule_key now r"] by linarith
qed

lemma check_cnt_mono:
  assumes "counts_incr pipe cnt" and "RedisRateLimiter_check True pipe now rules s = (res, s')"
    and "\<And>kts s e s' k. pipe kts s = (Inl e, s') \<Longrightarrow> cnt s k \<le> cnt s' k"
  shows "cnt s k \<le> cnt s' k"
proof -
  have ok: "cnt s k \<le> cnt s' k" if "pipe kts s = (Inr vs, s')" for kts vs
    using counts_incrD(2) [OF assms(1) that, of k] by simp
  show ?thesis
    using assms(2) ok assms(3)
    by (auto simp: RedisRateLimiter_check_def split: if_splits prod.splits sum.splits)
qed

lemma passed_bound:
  assumes incr: "counts_incr pipe cnt"
    and mono: "\<And>kts s e s' k. pipe kts s = (Inl e, s') \<Longrightarrow> cnt s k \<le> cnt s' k"
    and rule: "\<forall>(now, rules) \<in> set calls. \<exists>r \<in> set rules. rule_fail_closed r \<and>
        rule_limit r \<le> limit \<and> rule_key now r = k"
    and "0 \<le> cnt s k"
  shows "int (fst (passed True pipe calls s)) \<le> max 0 (limit - cnt s k)"
  using rule assms(4)
proof (induction calls arbitrary: s)
  case Nil
  show ?case by simp
next
  case (Cons c calls)
  obtain now rules where c: "c = (now, rules)" by (cases c)
  from Cons.prems(1) c obtain r where r: "r \<in> set rules" "rule_fail_closed r" "rule_limit r \<le> limit"
    "rule_key now r = k" by auto
  obtain res s' where call: "RedisRateLimiter_check True pipe now rules s = (res, s')"
    by (cases "RedisRateLimiter_check True pipe now rules s")
  have le: "cnt s k \<le> cnt s' k" using check_cnt_mono [OF incr call mono] .
  have IH: "int (fst (passed True pipe calls s')) \<le> max 0 (limit - cnt s' k)"
    using Cons.IH [of s'] Cons.prems le by simp
  show ?case
  proof (cases res)
    case (Inl e)
    then show ?thesis using call c IH le by simp
  next
    case (Inr u)
    with check_counts [OF incr r(1,2)] call r have "cnt s k < limit" "cnt s k < cnt s' k" by fastforce+
    with Inr call c IH show ?thesis by (auto split: prod.splits)
  qed
qed


subsection \<open>Properties\<close>

text \<open>
  The sliding window admits exactly what it should. After any run of calls with a clock
  that does not run backwards, a call of a caller is admitted if and only if fewer than the
  limit of its own calls were admitted in the last sixty seconds; calls of other callers do not
  count.
\<close>
lemma sliding_window_exact:
  assumes "sorted (map snd (calls @ [(i, now)]))"
  shows "fst (allow limit i now (snd (admit limit calls))) \<longleftrightarrow>
    int (length (admitted_in i (\<lambda>a. now - a < 60) (fst (admit limit calls)))) < limit"
  using assms by (intro allow_verdict) (auto simp: sorted_append)

text \<open>
  The sliding window bounds the rate. With a clock that does not run backwards, no interval
  of sixty seconds, wherever it starts, contains more admitted calls of one caller than the
  limit.
\<close>
lemma sliding_window_bound:
  assumes "sorted (map snd calls)" and "0 \<le> limit"
  shows "int (length (admitted_in i (\<lambda>a. t - 60 < a \<and> a \<le> t) (fst (admit limit calls)))) \<le> limit"
  using admitted_bound [OF assms(1), of i t limit] assms(2) by simp

text \<open>A pipeline with the documented behaviour: the state is the list of increments so far.\<close>

definition log_pipe :: "string list pipeline" where
  "log_pipe kts s =
     (Inr (map (\<lambda>i. int (count_list s (fst (kts ! i))) +
            int (count_list (map fst (take (Suc i) kts)) (fst (kts ! i)))) [0..<length kts]),
      s @ map fst kts)"

lemma log_pipe_incr: "counts_incr log_pipe (\<lambda>s k. int (count_list s k))"
  by (auto simp: counts_incr_def log_pipe_def)

text \<open>
  An outage of Redis fails closed. When the pipeline raises a Redis error, the check raises
  the dependency error if any of its rules is fail-closed and lets the call through otherwise;
  a disabled limiter lets every call through and leaves Redis alone.
\<close>
lemma redis_outage:
  assumes "pipe (map (\<lambda>r. (rule_key now r, rule_window_seconds r + 5)) rules) s = (Inl (RedisError m), s')"
    and "\<forall>r \<in> set rules. rule_window_seconds r \<noteq> 0"
  shows "RedisRateLimiter_check True pipe now rules s =
      ((if \<exists>r \<in> set rules. rule_fail_closed r
        then Inl (PlatformError ''dependency_unavailable'' 503 ''Rate limit dependency unavailable.'')
        else Inr ()), s') \<and>
    RedisRateLimiter_check False pipe now rules s = (Inr (), s)"
  using assms by (auto simp: RedisRateLimiter_check_def DependencyError_def)

end
