(* ===== verification/Ip_Address.thy ===== *)
theory Ip_Address
  imports Py_Core
begin

section \<open>IP addresses and URLs as the standard library reads them\<close>

text \<open>
  What \<^verbatim>\<open>agi_platform/outbound.py\<close> uses of the Python standard library (version 3.12.5, the one of
  the repository's Dockerfile): \<^verbatim>\<open>ipaddress.ip_address\<close> with the classification properties
  \<^verbatim>\<open>is_private\<close>, \<^verbatim>\<open>is_loopback\<close>, ..., and the scheme, host and port that
  \<^verbatim>\<open>urllib.parse.urlparse\<close> finds in a URL. An address is its number, a network its base address
  and prefix length.
\<close>

subsection \<open>Parsing addresses\<close>

text \<open>\<^verbatim>\<open>s.split(c)\<close> for a single character.\<close>

fun split_on :: "char \<Rightarrow> string \<Rightarrow> string list" where
  "split_on c [] = [[]]"
| "split_on c (x # xs) = (if x = c then [] # split_on c xs
     else (case split_on c xs of [] \<Rightarrow> [[x]] | w # ws \<Rightarrow> (x # w) # ws))"

datatype ip = V4 int | V6 int

definition parse_octet :: "string \<Rightarrow> int option" where
  "parse_octet s = (if s \<noteq> [] \<and> list_all is_digit s \<and> length s \<le> 3 \<and>
       (length s = 1 \<or> hd s \<noteq> CHR ''0'') \<and> int_of_digits s \<le> 255
     then Some (int_of_digits s) else None)"

definition v4 :: "int \<Rightarrow> int \<Rightarrow> int \<Rightarrow> int \<Rightarrow> int" where
  "v4 a b c d = ((a * 256 + b) * 256 + c) * 256 + d"

definition parse_ipv4 :: "string \<Rightarrow> int option" where
  "parse_ipv4 s = (case map parse_octet (split_on (CHR ''.'') s) of
     [Some a, Some b, Some c, Some d] \<Rightarrow> Some (v4 a b c d) | _ \<Rightarrow> None)"

definition hex_val :: "char \<Rightarrow> int option" where
  "hex_val c = (let n = (of_char c :: int) in
     if 48 \<le> n \<and> n \<le> 57 then Some (n - 48) else if 65 \<le> n \<and> n \<le> 70 then Some (n - 55)
     else if 97 \<le> n \<and> n \<le> 102 then Some (n - 87) else None)"

definition parse_hextet :: "string \<Rightarrow> int option" where
  "parse_hextet s = (if s \<noteq> [] \<and> length s \<le> 4 \<and> list_all (\<lambda>c. hex_val c \<noteq> None) s
     then Some (fold (\<lambda>c n. 16 * n + the (hex_val c)) s 0) else None)"

definition v6 :: "int list \<Rightarrow> int" where
  "v6 hs = fold (\<lambda>h n. 65536 * n + h) hs 0"

definition all_hextets :: "string list \<Rightarrow> int list option" where
  "all_hextets ps = (if list_all (\<lambda>p. parse_hextet p \<noteq> None) ps
     then Some (map (\<lambda>p. the (parse_hextet p)) ps) else None)"

text \<open>A dotted quad at the end stands for two groups.\<close>

definition v6_parts :: "string \<Rightarrow> (string list \<times> int list) option" where
  "v6_parts addr = (let ps = split_on (CHR '':'') addr in
     if length ps < 3 then None
     else if CHR ''.'' \<in> set (last ps) then
       (case parse_ipv4 (last ps) of None \<Rightarrow> None
        | Some v \<Rightarrow> Some (butlast ps, [v div 65536, v mod 65536]))
     else Some (ps, []))"

text \<open>
  The groups around the one \<^verbatim>\<open>::\<close>; \<open>tail\<close> are the groups of a dotted quad. A group is empty
  only where the \<^verbatim>\<open>::\<close> touches an end.
\<close>

definition v6_number :: "string list \<Rightarrow> int list \<Rightarrow> int option" where
  "v6_number ps tail =
     (let n = length ps + length tail;
          inner = (if tail = [] then [1..<length ps - 1] else [1..<length ps]);
          empties = filter (\<lambda>i. ps ! i = []) inner;
          last_empty = (tail = [] \<and> last ps = [])
      in if 9 < n then None else
      (case empties of
         [] \<Rightarrow> if n = 8 \<and> \<not> last_empty then
                 (case all_hextets ps of None \<Rightarrow> None | Some hs \<Rightarrow> Some (v6 (hs @ tail))) else None
       | [k] \<Rightarrow>
          (let hi = (if hd ps = [] then k - 1 else k);
               lo = (if last_empty then n - k - 2 else n - k - 1)
           in if (hd ps = [] \<and> hi \<noteq> 0) \<or> (last_empty \<and> lo \<noteq> 0) \<or> 8 < hi + lo + 1 then None
           else (case (all_hextets (take hi ps),
                       all_hextets (if last_empty then [] else drop (k + 1) ps)) of
                   (Some his, Some los) \<Rightarrow> Some (v6 (his @ replicate (8 - (hi + lo)) 0 @ los @ tail))
                 | _ \<Rightarrow> None))
       | _ \<Rightarrow> None))"

definition parse_ipv6 :: "string \<Rightarrow> int option" where
  "parse_ipv6 s = (if CHR ''/'' \<in> set s then None else
     let (addr, scope) = cut_at (\<lambda>c. c = CHR ''%'') s in
     if addr = [] \<or> (case scope of None \<Rightarrow> False | Some z \<Rightarrow> z = [] \<or> CHR ''%'' \<in> set z) then None
     else case v6_parts addr of None \<Rightarrow> None | Some (ps, tail) \<Rightarrow> v6_number ps tail)"

definition ip_address :: "string \<Rightarrow> ip result" where
  "ip_address s = (case parse_ipv4 s of Some n \<Rightarrow> Inr (V4 n)
     | None \<Rightarrow> (case parse_ipv6 s of Some n \<Rightarrow> Inr (V6 n)
         | None \<Rightarrow> Inl (ValueError ''does not appear to be an IPv4 or IPv6 address'')))"

subsection \<open>Classification\<close>

definition in_net :: "nat \<Rightarrow> int \<times> nat \<Rightarrow> int \<Rightarrow> bool" where
  "in_net width net a = (a div 2 ^ (width - snd net) = fst net div 2 ^ (width - snd net))"

definition v4_private_networks :: "(int \<times> nat) list" where
  "v4_private_networks = [(v4 0 0 0 0, 8), (v4 10 0 0 0, 8), (v4 127 0 0 0, 8), (v4 169 254 0 0, 16),
     (v4 172 16 0 0, 12), (v4 192 0 0 0, 24), (v4 192 0 0 170, 31), (v4 192 0 2 0, 24),
     (v4 192 168 0 0, 16), (v4 198 18 0 0, 15), (v4 198 51 100 0, 24), (v4 203 0 113 0, 24),
     (v4 240 0 0 0, 4), (v4 255 255 255 255, 32)]"

definition v4_private_exceptions :: "(int \<times> nat) list" where
  "v4_private_exceptions = [(v4 192 0 0 9, 32), (v4 192 0 0 10, 32)]"

definition v6_private_networks :: "(int \<times> nat) list" where
  "v6_private_networks = [(1, 128), (0, 128), (v6 [0, 0, 0, 0, 0, 0xffff, 0, 0], 96),
     (v6 [0x64, 0xff9b, 1, 0, 0, 0, 0, 0], 48), (v6 [0x100, 0, 0, 0, 0, 0, 0, 0], 64),
     (v6 [0x2001, 0, 0, 0, 0, 0, 0, 0], 23), (v6 [0x2001, 0xdb8, 0, 0, 0, 0, 0, 0], 32),
     (v6 [0x2002, 0, 0, 0, 0, 0, 0, 0], 16), (v6 [0xfc00, 0, 0, 0, 0, 0, 0, 0], 7),
     (v6 [0xfe80, 0, 0, 0, 0, 0, 0, 0], 10)]"

definition v6_private_exceptions :: "(int \<times> nat) list" where
  "v6_private_exceptions = [(v6 [0x2001, 1, 0, 0, 0, 0, 0, 1], 128), (v6 [0x2001, 1, 0, 0, 0, 0, 0, 2], 128),
     (v6 [0x2001, 3, 0, 0, 0, 0, 0, 0], 32), (v6 [0x2001, 4, 0x112, 0, 0, 0, 0, 0], 48),
     (v6 [0x2001, 0x20, 0, 0, 0, 0, 0, 0], 28), (v6 [0x2001, 0x30, 0, 0, 0, 0, 0, 0], 28)]"

definition v6_reserved_networks :: "(int \<times> nat) list" where
  "v6_reserved_networks = map (\<lambda>(h, l). (v6 [h, 0, 0, 0, 0, 0, 0, 0], l))
     [(0, 8), (0x100, 8), (0x200, 7), (0x400, 6), (0x800, 5), (0x1000, 4), (0x4000, 3), (0x6000, 3),
      (0x8000, 3), (0xa000, 3), (0xc000, 3), (0xe000, 4), (0xf000, 5), (0xf800, 6), (0xfe00, 9)]"

definition v4_is_private :: "int \<Rightarrow> bool" where
  "v4_is_private a = (list_ex (\<lambda>n. in_net 32 n a) v4_private_networks \<and>
     list_all (\<lambda>n. \<not> in_net 32 n a) v4_private_exceptions)"

text \<open>An IPv4-mapped IPv6 address is as private as the IPv4 address.\<close>

fun is_private :: "ip \<Rightarrow> bool" where
  "is_private (V4 a) = v4_is_private a"
| "is_private (V6 a) = (if a div 2 ^ 32 = 0xffff then v4_is_private (a mod 2 ^ 32)
     else list_ex (\<lambda>n. in_net 128 n a) v6_private_networks \<and>
          list_all (\<lambda>n. \<not> in_net 128 n a) v6_private_exceptions)"

fun is_loopback :: "ip \<Rightarrow> bool" where
  "is_loopback (V4 a) = in_net 32 (v4 127 0 0 0, 8) a"
| "is_loopback (V6 a) = (a = 1)"

fun is_link_local :: "ip \<Rightarrow> bool" where
  "is_link_local (V4 a) = in_net 32 (v4 169 254 0 0, 16) a"
| "is_link_local (V6 a) = in_net 128 (v6 [0xfe80, 0, 0, 0, 0, 0, 0, 0], 10) a"

fun is_multicast :: "ip \<Rightarrow> bool" where
  "is_multicast (V4 a) = in_net 32 (v4 224 0 0 0, 4) a"
| "is_multicast (V6 a) = in_net 128 (v6 [0xff00, 0, 0, 0, 0, 0, 0, 0], 8) a"

fun is_reserved :: "ip \<Rightarrow> bool" where
  "is_reserved (V4 a) = in_net 32 (v4 240 0 0 0, 4) a"
| "is_reserved (V6 a) = list_ex (\<lambda>n. in_net 128 n a) v6_reserved_networks"

fun is_unspecified :: "ip \<Rightarrow> bool" where
  "is_unspecified (V4 a) = (a = 0)"
| "is_unspecified (V6 a) = (a = 0)"

text \<open>
  A range of numbers is covered by a list of networks when they follow each other without a gap.
\<close>

fun covers :: "nat \<Rightarrow> int \<Rightarrow> int \<Rightarrow> (int \<times> nat) list \<Rightarrow> bool" where
  "covers width lo hi [] = (hi \<le> lo)"
| "covers width lo hi ((b, l) # nets) = (b mod 2 ^ (width - l) = 0 \<and> b \<le> lo \<and>
     covers width (b + 2 ^ (width - l)) hi nets)"

lemma in_netI:
  assumes "b mod 2 ^ (width - l) = 0" and "b \<le> a" and "a < b + 2 ^ (width - l)"
  shows "in_net width (b, l) a"
proof -
  let ?k = "2 ^ (width - l) :: int"
  obtain q where b: "b = ?k * q" using assms(1) by (auto simp: mod_0_imp_dvd elim: dvdE)
  have "a = ?k * q + (a - b)" using b by simp
  moreover have "0 \<le> a - b" "a - b < ?k" using assms by simp_all
  ultimately have "a div ?k = q" by (metis div_pos_pos_trivial add.right_neutral div_mult_self4 zero_neq_numeral power_not_zero)
  moreover have "b div ?k = q" using b by simp
  ultimately show ?thesis by (simp add: in_net_def)
qed

lemma covers_in_net: "covers width lo hi nets \<Longrightarrow> lo \<le> a \<Longrightarrow> a < hi \<Longrightarrow> \<exists>n \<in> set nets. in_net width n a"
proof (induction width lo hi nets rule: covers.induct)
  case (2 width lo hi b l nets)
  show ?case
  proof (cases "a < b + 2 ^ (width - l)")
    case True
    with 2 show ?thesis by (auto intro!: bexI [of _ "(b, l)"] in_netI)
  next
    case False
    with 2 show ?thesis by auto
  qed
qed simp

subsection \<open>URLs\<close>

record parsed_url =
  url_scheme :: string
  url_netloc :: string
  url_path :: string

definition is_alpha :: "char \<Rightarrow> bool" where
  "is_alpha c = (let n = (of_char c :: nat) in (65 \<le> n \<and> n \<le> 90) \<or> (97 \<le> n \<and> n \<le> 122))"

definition scheme_char :: "char \<Rightarrow> bool" where
  "scheme_char c = (is_alpha c \<or> is_digit c \<or> c \<in> set ''+-.'')"

definition clean_url :: "string \<Rightarrow> string" where
  "clean_url url = filter (\<lambda>c. (of_char c :: nat) \<notin> {9, 10, 13})
     (dropWhile (\<lambda>c. (of_char c :: nat) \<le> 32) url)"

definition cut_scheme :: "string \<Rightarrow> string \<times> string" where
  "cut_scheme url = (case cut_at (\<lambda>c. c = CHR '':'') url of
     (s, Some rest) \<Rightarrow> if s \<noteq> [] \<and> is_alpha (hd s) \<and> list_all scheme_char s then (lower s, rest) else ([], url)
   | (s, None) \<Rightarrow> ([], url))"

text \<open>What stands in brackets must be an IPv6 address or of the form \<^verbatim>\<open>v\<close>, hexadecimal, dot, rest.\<close>

definition bracketed_ok :: "string \<Rightarrow> bool" where
  "bracketed_ok h = (if h \<noteq> [] \<and> hd h = CHR ''v'' then
       (case cut_at (\<lambda>c. c = CHR ''.'') (tl h) of
          (v, Some rest) \<Rightarrow> v \<noteq> [] \<and> list_all (\<lambda>c. hex_val c \<noteq> None) v \<and> rest \<noteq> []
        | (v, None) \<Rightarrow> False)
     else parse_ipv4 h = None \<and> parse_ipv6 h \<noteq> None)"

text \<open>The path: up to query and fragment, with the parameters of the last segment cut off.\<close>

definition uses_params :: "string list" where
  "uses_params = [[], ''ftp'', ''hdl'', ''prospero'', ''http'', ''https'', ''shttp'', ''rtsp'', ''rtsps'', ''rtspu'', ''sip'',
     ''sips'', ''mms'', ''sftp'', ''tel'']"

definition path_of :: "string \<Rightarrow> string \<Rightarrow> string" where
  "path_of scheme rest = (let p = takeWhile (\<lambda>c. c \<notin> set ''?#'') rest in
     if scheme \<in> set uses_params
     then (let seg = rev (takeWhile (\<lambda>c. c \<noteq> CHR ''/'') (rev p))
           in take (length p - length seg) p @ takeWhile (\<lambda>c. c \<noteq> CHR '';'') seg)
     else p)"

definition urlparse :: "string \<Rightarrow> parsed_url result" where
  "urlparse url0 = (let (scheme, url) = cut_scheme (clean_url url0) in
     if prefix ''//'' url then
       (let netloc = takeWhile (\<lambda>c. c \<notin> set ''/?#'') (drop 2 url);
            opened = CHR ''['' \<in> set netloc; closed = CHR '']'' \<in> set netloc
        in if opened \<noteq> closed then Inl (ValueError ''Invalid IPv6 URL'')
        else if opened \<and> \<not> bracketed_ok (takeWhile (\<lambda>c. c \<noteq> CHR '']'')
               (tl (dropWhile (\<lambda>c. c \<noteq> CHR ''['') netloc)))
          then Inl (ValueError ''Invalid IPv6 URL'')
        else Inr \<lparr>url_scheme = scheme, url_netloc = netloc, url_path = path_of scheme (drop (2 + length netloc) url)\<rparr>)
     else Inr \<lparr>url_scheme = scheme, url_netloc = [], url_path = path_of scheme url\<rparr>)"

text \<open>The part of the netloc after the last \<^verbatim>\<open>@\<close>, cut into host and port text.\<close>

definition hostinfo :: "parsed_url \<Rightarrow> string \<times> string option" where
  "hostinfo p = (let h = rev (takeWhile (\<lambda>c. c \<noteq> CHR ''@'') (rev (url_netloc p)));
       (host, port) = (case cut_at (\<lambda>c. c = CHR ''['') h of
           (_, Some br) \<Rightarrow> (case cut_at (\<lambda>c. c = CHR '']'') br of
               (host, after) \<Rightarrow> (host, snd (cut_at (\<lambda>c. c = CHR '':'') (case after of None \<Rightarrow> [] | Some a \<Rightarrow> a))))
         | (_, None) \<Rightarrow> cut_at (\<lambda>c. c = CHR '':'') h)
     in (host, if port = Some [] then None else port))"

definition url_hostname :: "parsed_url \<Rightarrow> string option" where
  "url_hostname p = (let host = fst (hostinfo p) in
     if host = [] then None
     else Some (lower (takeWhile (\<lambda>c. c \<noteq> CHR ''%'') host) @ dropWhile (\<lambda>c. c \<noteq> CHR ''%'') host))"

definition url_port :: "parsed_url \<Rightarrow> int option result" where
  "url_port p = (case snd (hostinfo p) of None \<Rightarrow> Inr None
     | Some s \<Rightarrow> if \<not> list_all is_digit s then Inl (ValueError ''Port could not be cast to integer value'')
                 else if 65535 < int_of_digits s then Inl (ValueError ''Port out of range 0-65535'')
                 else Inr (Some (int_of_digits s)))"

end
