(* ===== verification/Outbound.thy ===== *)
theory Outbound
  imports Ip_Address
begin

section \<open>The outbound HTTP client (outbound.py)\<close>

text \<open>
  \<^verbatim>\<open>OutboundPolicy\<close>, \<^verbatim>\<open>DNSResolver\<close>, \<^verbatim>\<open>validate_outbound_url\<close> and \<^verbatim>\<open>SecureHTTPClient\<close> of
  \<^verbatim>\<open>agi_platform/outbound.py\<close>. The network is the record \<open>net\<close>: name resolution, the
  transport of httpx, \<^verbatim>\<open>httpx.URL.join\<close> and the monotonic clock; resolution and transport may
  answer differently after each request sent, so both take the list of requests sent so far, which
  is also the state of the client's operations.

  Shown: \<open>request\<close> always ends, sends at most one request more than the redirects the policy
  allows, and sends none whose URL has not just been validated; what is validated resolves to
  addresses outside of the blocked ranges only; what is returned is no redirect, of an allowed type and size. The
  headers, credentials included, go unchanged to every redirect target.
\<close>

subsection \<open>Policy\<close>

definition UNSAFE_SCHEMES :: "string list" where
  "UNSAFE_SCHEMES = [''file'', ''gopher'', ''ftp'', ''dict'', ''sftp'', ''tftp'']"

definition BLOCKED_HOSTS :: "string list" where
  "BLOCKED_HOSTS = [''localhost'', ''metadata.google.internal'']"

definition METADATA_IPS :: "string list" where
  "METADATA_IPS = [''169.254.169.254'', ''100.100.100.200'']"

record OutboundPolicy =
  allowed_schemes :: "string list"
  allowed_domains :: "string list"
  allowed_content_types :: "string list"
  max_redirects :: int
  max_response_bytes :: int
  connect_timeout :: rat
  read_timeout :: rat
  total_timeout :: rat

definition default_policy :: OutboundPolicy where
  "default_policy = \<lparr>allowed_schemes = [''http'', ''https''], allowed_domains = [],
     allowed_content_types = [''application/json'', ''text/plain'', ''text/html''], max_redirects = 3,
     max_response_bytes = 2 * 1024 * 1024, connect_timeout = 2, read_timeout = 5, total_timeout = 10\<rparr>"

definition allows_domain :: "OutboundPolicy \<Rightarrow> string \<Rightarrow> bool" where
  "allows_domain policy host = (if allowed_domains policy = [] then True
     else list_ex (\<lambda>domain. host = domain \<or> endswith host (''.'' @ domain)) (allowed_domains policy))"

subsection \<open>The network\<close>

record sent_request =
  sent_method :: string
  sent_url :: string
  sent_params :: "(string, string) dict"
  sent_headers :: "(string, string) dict"
  sent_json :: json

record http_response =
  status_code :: int
  location :: "string option"
  content_type :: "string option"
  content_length :: nat
  body_json :: "json result"

record net =
  getaddrinfo :: "sent_request list \<Rightarrow> string \<Rightarrow> int \<Rightarrow> string list result"
  transport :: "sent_request list \<Rightarrow> sent_request \<Rightarrow> http_response result"
  url_join :: "string \<Rightarrow> string \<Rightarrow> string result"
  monotonic :: "nat \<Rightarrow> rat"

text \<open>\<^verbatim>\<open>Response.is_redirect\<close> of httpx: a 3xx status.\<close>

definition is_redirect :: "http_response \<Rightarrow> bool" where
  "is_redirect r = (300 \<le> status_code r \<and> status_code r \<le> 399)"

definition resolve ::
    "net \<Rightarrow> (string, string list) dict \<Rightarrow> sent_request list \<Rightarrow> string \<Rightarrow> int \<Rightarrow> string list result" where
  "resolve n overrides sent host port = (case dict_get overrides host of
     Some as \<Rightarrow> Inr as | None \<Rightarrow> getaddrinfo n sent host port)"

subsection \<open>Validation\<close>

definition blocked_address :: "string \<Rightarrow> ip \<Rightarrow> bool" where
  "blocked_address address a = (address \<in> set METADATA_IPS \<or> is_private a \<or> is_loopback a \<or>
     is_link_local a \<or> is_multicast a \<or> is_reserved a \<or> is_unspecified a)"

fun check_addresses :: "string list \<Rightarrow> unit result" where
  "check_addresses [] = Inr ()"
| "check_addresses (address # rest) = (case ip_address address of
     Inl e \<Rightarrow> Inl e
   | Inr a \<Rightarrow> if blocked_address address a
              then Inl (OutboundSecurityError ''outbound URL resolves to a blocked network'')
              else check_addresses rest)"

definition normal_host :: "string \<Rightarrow> string" where
  "normal_host h = rstrip_char (CHR ''.'') (lower (strip h))"

definition validate_outbound_url ::
    "net \<Rightarrow> OutboundPolicy \<Rightarrow> (string, string list) dict \<Rightarrow> sent_request list \<Rightarrow> string \<Rightarrow> string result" where
  "validate_outbound_url n policy overrides sent url = (case urlparse url of
     Inl e \<Rightarrow> Inl e
   | Inr parsed \<Rightarrow>
      if url_scheme parsed \<in> set UNSAFE_SCHEMES \<or> url_scheme parsed \<notin> set (allowed_schemes policy)
      then Inl (OutboundSecurityError ''outbound URL scheme is not allowed'')
      else (case url_hostname parsed of
        None \<Rightarrow> Inl (OutboundSecurityError ''outbound URL host is required'')
      | Some h \<Rightarrow>
         (let host = normal_host h in
          if host \<in> set BLOCKED_HOSTS \<or> \<not> allows_domain policy host
          then Inl (OutboundSecurityError ''outbound URL host is blocked'')
          else (case url_port parsed of
            Inl e \<Rightarrow> Inl e
          | Inr p \<Rightarrow>
             (let default = (if url_scheme parsed = ''https'' then 443 else 80);
                  port = (case p of None \<Rightarrow> default | Some q \<Rightarrow> if q = 0 then default else q)
              in case resolve n overrides sent host port of
                Inl e \<Rightarrow> Inl e
              | Inr addresses \<Rightarrow>
                 (case check_addresses addresses of Inl e \<Rightarrow> Inl e | Inr _ \<Rightarrow> Inr url))))))"

subsection \<open>Requests\<close>

definition media_type :: "http_response \<Rightarrow> string" where
  "media_type r = lower (strip (takeWhile (\<lambda>c. c \<noteq> CHR '';'')
     (case content_type r of None \<Rightarrow> [] | Some t \<Rightarrow> t)))"

definition accept_response :: "OutboundPolicy \<Rightarrow> http_response \<Rightarrow> http_response result" where
  "accept_response policy r =
     (if allowed_content_types policy \<noteq> [] \<and> media_type r \<noteq> [] \<and>
         media_type r \<notin> set (allowed_content_types policy)
      then Inl (OutboundSecurityError ''response content type is not allowed'')
      else if max_response_bytes policy < int (content_length r)
      then Inl (OutboundSecurityError ''response exceeds maximum allowed size'')
      else Inr r)"

text \<open>
  The loop of \<^verbatim>\<open>SecureHTTPClient.request\<close>; the iteration after \<open>redirects\<close> redirects makes the
  clock reading number \<open>redirects + 1\<close>.
\<close>

function request_loop ::
    "net \<Rightarrow> OutboundPolicy \<Rightarrow> (string, string list) dict \<Rightarrow> rat \<Rightarrow> sent_request \<Rightarrow> nat \<Rightarrow>
     (sent_request list, http_response) sop" where
  "request_loop n policy overrides deadline req redirects sent =
    (if deadline < monotonic n (redirects + 1)
     then (Inl (TimeoutException ''secure outbound total timeout exceeded''), sent)
     else case transport n sent req of
       Inl e \<Rightarrow> (Inl e, sent @ [req])
     | Inr response \<Rightarrow>
        (let sent = sent @ [req] in
         if is_redirect response then
           if max_redirects policy < int redirects + 1
           then (Inl (OutboundSecurityError ''redirect limit exceeded''), sent)
           else (case location response of
             None \<Rightarrow> (Inl (OutboundSecurityError ''redirect missing location''), sent)
           | Some target \<Rightarrow>
              if target = [] then (Inl (OutboundSecurityError ''redirect missing location''), sent)
              else (case url_join n (sent_url req) target of
                Inl e \<Rightarrow> (Inl e, sent)
              | Inr joined \<Rightarrow>
                 (case validate_outbound_url n policy overrides sent joined of
                    Inl e \<Rightarrow> (Inl e, sent)
                  | Inr url \<Rightarrow> request_loop n policy overrides deadline (req\<lparr>sent_url := url\<rparr>)
                                (redirects + 1) sent)))
         else (accept_response policy response, sent)))"
  by pat_completeness auto

termination
  by (relation "measure (\<lambda>(n, policy, overrides, deadline, req, redirects, sent).
      nat (max_redirects policy + 1 - int redirects))") auto

declare request_loop.simps [simp del]

definition request ::
    "net \<Rightarrow> OutboundPolicy \<Rightarrow> (string, string list) dict \<Rightarrow> string \<Rightarrow> string \<Rightarrow> (string, string) dict \<Rightarrow>
     (string, string) dict \<Rightarrow> json \<Rightarrow> (sent_request list, http_response) sop" where
  "request n policy overrides method url params headers payload sent =
     (case validate_outbound_url n policy overrides sent url of
        Inl e \<Rightarrow> (Inl e, sent)
      | Inr current \<Rightarrow> request_loop n policy overrides (monotonic n 0 + total_timeout policy)
          \<lparr>sent_method = method, sent_url = current, sent_params = params, sent_headers = headers, sent_json = payload\<rparr> 0 sent)"

definition http_get where
  "http_get n policy overrides url params headers = request n policy overrides ''GET'' url params headers JNull"

definition http_post where
  "http_post n policy overrides url headers payload = request n policy overrides ''POST'' url [] headers payload"

text \<open>\<^verbatim>\<open>raise_for_status\<close> of httpx raises for every status but 2xx.\<close>

definition raise_for_status :: "http_response \<Rightarrow> http_response result" where
  "raise_for_status r = (if 200 \<le> status_code r \<and> status_code r \<le> 299 then Inr r
     else Inl (HTTPStatusError (status_code r)))"

subsection \<open>What passes validation\<close>

text \<open>
  Ranges of addresses that no validated URL resolves to: this host, RFC 1918, loopback,
  link-local, multicast and reserved for IPv4, and for IPv6 everything but \<^verbatim>\<open>2000::/3\<close> and the
  deprecated site-local \<^verbatim>\<open>fec0::/10\<close>. The shared range \<^verbatim>\<open>100.64.0.0/10\<close> and the site-local one are not
  among them, because the code lets them through (lemma \<open>shared_and_site_local_accepted\<close> below).
\<close>

definition internal_v4 :: "(int \<times> int) list" where
  "internal_v4 = [(v4 0 0 0 0, v4 0 255 255 255), (v4 10 0 0 0, v4 10 255 255 255),
     (v4 127 0 0 0, v4 127 255 255 255), (v4 169 254 0 0, v4 169 254 255 255),
     (v4 172 16 0 0, v4 172 31 255 255), (v4 192 168 0 0, v4 192 168 255 255),
     (v4 224 0 0 0, v4 255 255 255 255)]"

definition internal_v6 :: "(int \<times> int) list" where
  "internal_v6 = [(0, v6 [0x1fff, 0xffff, 0xffff, 0xffff, 0xffff, 0xffff, 0xffff, 0xffff]),
     (v6 [0x4000, 0, 0, 0, 0, 0, 0, 0], v6 [0xfebf, 0xffff, 0xffff, 0xffff, 0xffff, 0xffff, 0xffff, 0xffff]),
     (v6 [0xff00, 0, 0, 0, 0, 0, 0, 0], v6 [0xffff, 0xffff, 0xffff, 0xffff, 0xffff, 0xffff, 0xffff, 0xffff])]"

fun outside_ranges :: "ip \<Rightarrow> bool" where
  "outside_ranges (V4 a) = list_all (\<lambda>(lo, hi). a < lo \<or> hi < a) internal_v4"
| "outside_ranges (V6 a) = list_all (\<lambda>(lo, hi). a < lo \<or> hi < a) internal_v6"

text \<open>Each range is covered by networks the classification of the library blocks.\<close>

definition v4_cover :: "(int \<times> nat) list list" where
  "v4_cover = [[(v4 0 0 0 0, 8)], [(v4 10 0 0 0, 8)], [(v4 127 0 0 0, 8)], [(v4 169 254 0 0, 16)],
     [(v4 172 16 0 0, 12)], [(v4 192 168 0 0, 16)], [(v4 224 0 0 0, 4), (v4 240 0 0 0, 4)]]"

definition v6_cover :: "(int \<times> nat) list list" where
  "v6_cover = [take 6 v6_reserved_networks,
     take 8 (drop 6 v6_reserved_networks) @ [(v6 [0xfc00, 0, 0, 0, 0, 0, 0, 0], 7)] @ drop 14 v6_reserved_networks @
       [(v6 [0xfe80, 0, 0, 0, 0, 0, 0, 0], 10)],
     [(v6 [0xff00, 0, 0, 0, 0, 0, 0, 0], 8)]]"

lemma v4_covered: "list_all2 (\<lambda>(lo, hi) nets. covers 32 lo (hi + 1) nets) internal_v4 v4_cover"
  by code_simp

lemma v6_covered: "list_all2 (\<lambda>(lo, hi) nets. covers 128 lo (hi + 1) nets) internal_v6 v6_cover"
  by code_simp

lemma outside_covered:
  assumes "list_all2 (\<lambda>(lo, hi) nets. covers width lo (hi + 1) nets) rs cs"
    and "\<forall>nets \<in> set cs. \<forall>n \<in> set nets. \<not> in_net width n a"
  shows "list_all (\<lambda>(lo, hi). a < lo \<or> hi < a) rs"
  using assms
proof (induction rs cs rule: list_all2_induct)
  case (Cons r rs c cs)
  obtain lo hi where r: "r = (lo, hi)" by fastforce
  have "\<not> (lo \<le> a \<and> a < hi + 1)" using covers_in_net [of width lo "hi + 1" c a] Cons r by auto
  with Cons r show ?case by auto
qed simp

lemma in_net_host: "in_net 32 (b, 32) a \<longleftrightarrow> a = b"
  by (simp add: in_net_def)

lemma in_net_coarser:
  assumes "in_net width (b, l) a" and "m \<le> l" and "l \<le> width"
  shows "in_net width (b, m) a"
proof -
  have "(2 :: int) ^ (width - m) = 2 ^ (width - l) * 2 ^ (l - m)"
    using assms by (simp flip: power_add)
  with assms(1) show ?thesis by (simp add: in_net_def zdiv_zmult2_eq)
qed

lemma cover_tables:
  "list_all (\<lambda>nets. list_all (\<lambda>n. n \<in> set ((v4 224 0 0 0, 4) # v4_private_networks)) nets) v4_cover"
  "list_all (\<lambda>nets. list_all (\<lambda>n. n \<in> set ((v6 [0xff00, 0, 0, 0, 0, 0, 0, 0], 8) #
      (v6 [0xfe80, 0, 0, 0, 0, 0, 0, 0], 10) # (v6 [0xfc00, 0, 0, 0, 0, 0, 0, 0], 7) # v6_reserved_networks)) nets) v6_cover"
  "list_all (\<lambda>(b, l). outside_ranges (V4 b)) v4_private_exceptions"
  "list_all (\<lambda>(b, l). b div 2 ^ 121 \<noteq> v6 [0xfc00, 0, 0, 0, 0, 0, 0, 0] div 2 ^ 121 \<and> 7 \<le> l \<and> l \<le> 128) v6_private_exceptions"
  "list_all (\<lambda>n. n \<in> set v6_private_networks) [(v6 [0xfc00, 0, 0, 0, 0, 0, 0, 0], 7)]"
  "list_all (\<lambda>n. n \<in> set v6_reserved_networks) [(0, 8)]"
  "list_all (\<lambda>(b, l). l = 32) v4_private_exceptions"
  by code_simp+

lemma unblocked_v4:
  assumes "\<not> blocked_address address (V4 a)"
  shows "outside_ranges (V4 a)"
proof (cases "list_ex (\<lambda>n. in_net 32 n a) v4_private_exceptions")
  case True
  then obtain b l where "(b, l) \<in> set v4_private_exceptions" "in_net 32 (b, l) a" by (auto simp: list_ex_iff)
  moreover from this have "l = 32" using cover_tables(7) by (auto simp: list_all_iff)
  ultimately show ?thesis using cover_tables(3) by (auto simp: in_net_host list_all_iff simp del: outside_ranges.simps)
next
  case False
  then have "\<not> in_net 32 n a" if "n \<in> set ((v4 224 0 0 0, 4) # v4_private_networks)" for n
    using assms that by (auto simp: blocked_address_def v4_is_private_def list_ex_iff list_all_iff)
  then have "\<forall>nets \<in> set v4_cover. \<forall>n \<in> set nets. \<not> in_net 32 n a"
    using cover_tables(1) unfolding list_all_iff by blast
  then show ?thesis using outside_covered [OF v4_covered] by simp
qed

lemma unblocked_v6:
  assumes "\<not> blocked_address address (V6 a)"
  shows "outside_ranges (V6 a)"
proof -
  let ?fc = "v6 [0xfc00, 0, 0, 0, 0, 0, 0, 0]"
  have res: "\<forall>n \<in> set v6_reserved_networks. \<not> in_net 128 n a"
    using assms by (auto simp: blocked_address_def list_ex_iff)
  have unmapped: "a div 2 ^ 32 \<noteq> 0xffff"
  proof
    assume "a div 2 ^ 32 = 0xffff"
    then have "a div 2 ^ 120 = 0"
      using zdiv_zmult2_eq [of "2 ^ 88" a "2 ^ 32"] by simp
    then have "in_net 128 (0, 8) a" by (simp add: in_net_def)
    with res cover_tables(6) show False by (auto simp: list_all_iff)
  qed
  have "\<not> in_net 128 (?fc, 7) a"
  proof
    assume fc: "in_net 128 (?fc, 7) a"
    have "\<not> in_net 128 e a" if "e \<in> set v6_private_exceptions" for e
    proof
      assume "in_net 128 e a"
      moreover obtain b l where e: "e = (b, l)" by fastforce
      moreover have "b div 2 ^ 121 \<noteq> ?fc div 2 ^ 121" "7 \<le> l" "l \<le> 128"
        using that e cover_tables(4) by (auto simp: list_all_iff)
      ultimately show False using fc in_net_coarser [of 128 b l a 7] by (simp add: in_net_def)
    qed
    moreover have "(?fc, 7) \<in> set v6_private_networks" using cover_tables(5) by (simp add: list_all_iff)
    ultimately have "is_private (V6 a)"
      using fc unmapped by (auto simp: list_ex_iff list_all_iff)
    with assms show False by (simp add: blocked_address_def)
  qed
  with res assms have "\<not> in_net 128 n a" if "n \<in> set ((v6 [0xff00, 0, 0, 0, 0, 0, 0, 0], 8) #
      (v6 [0xfe80, 0, 0, 0, 0, 0, 0, 0], 10) # (?fc, 7) # v6_reserved_networks)" for n
    using that by (auto simp: blocked_address_def)
  then have "\<forall>nets \<in> set v6_cover. \<forall>n \<in> set nets. \<not> in_net 128 n a"
    using cover_tables(2) unfolding list_all_iff by blast
  then show ?thesis using outside_covered [OF v6_covered] by simp
qed

lemma check_addresses_Inr:
  "check_addresses as = Inr u \<Longrightarrow> a \<in> set as \<Longrightarrow> a \<notin> set METADATA_IPS \<and> (\<exists>x. ip_address a = Inr x \<and> outside_ranges x)"
proof (induction as)
  case (Cons b as)
  then obtain x where x: "ip_address b = Inr x" "\<not> blocked_address b x" and "check_addresses as = Inr u"
    by (auto split: sum.splits if_splits)
  moreover have "outside_ranges x" using x by (cases x) (auto intro: unblocked_v4 unblocked_v6 simp del: outside_ranges.simps)
  moreover have "b \<notin> set METADATA_IPS" using x by (auto simp: blocked_address_def)
  ultimately show ?case using Cons by (auto simp del: outside_ranges.simps)
qed simp

text \<open>The port of the URL, or that of its scheme.\<close>

definition port_of :: "parsed_url \<Rightarrow> int option \<Rightarrow> int" where
  "port_of p q = (if q = None \<or> q = Some 0 then if url_scheme p = ''https'' then 443 else 80 else the q)"

lemma validate_Inr:
  assumes "validate_outbound_url n policy ov sent url = Inr u"
  obtains p h q as where "u = url" and "urlparse url = Inr p" and "url_scheme p \<in> set (allowed_schemes policy)"
    and "url_scheme p \<notin> set UNSAFE_SCHEMES" and "url_hostname p = Some h"
    and "normal_host h \<notin> set BLOCKED_HOSTS" and "allows_domain policy (normal_host h)"
    and "url_port p = Inr q" and "resolve n ov sent (normal_host h) (port_of p q) = Inr as"
    and "check_addresses as = Inr ()"
  using assms
  by (auto simp: validate_outbound_url_def Let_def port_of_def split: sum.splits if_splits option.splits)

lemma validate_same: "validate_outbound_url n policy ov sent url = Inr u \<Longrightarrow> u = url"
  by (erule validate_Inr)

subsection \<open>The request loop\<close>

text \<open>Every request of the list was validated at the moment it was sent.\<close>

fun validated_chain ::
    "net \<Rightarrow> OutboundPolicy \<Rightarrow> (string, string list) dict \<Rightarrow> sent_request list \<Rightarrow> sent_request list \<Rightarrow> bool" where
  "validated_chain n policy ov sent [] = True"
| "validated_chain n policy ov sent (r # rs) =
     (validate_outbound_url n policy ov sent (sent_url r) = Inr (sent_url r) \<and>
      validated_chain n policy ov (sent @ [r]) rs)"

definition same_request :: "sent_request \<Rightarrow> sent_request \<Rightarrow> bool" where
  "same_request q r \<longleftrightarrow> sent_method r = sent_method q \<and> sent_params r = sent_params q \<and> sent_headers r = sent_headers q \<and> sent_json r = sent_json q"

lemma accept_response_Inr:
  "accept_response policy r = Inr r' \<longleftrightarrow> r' = r \<and> int (content_length r) \<le> max_response_bytes policy \<and>
     (allowed_content_types policy = [] \<or> media_type r = [] \<or> media_type r \<in> set (allowed_content_types policy))"
  by (auto simp: accept_response_def)

text \<open>One iteration: it follows a redirect to a validated target, or it ends.\<close>

definition follows ::
    "net \<Rightarrow> OutboundPolicy \<Rightarrow> (string, string list) dict \<Rightarrow> sent_request \<Rightarrow> nat \<Rightarrow> sent_request list \<Rightarrow>
     http_response \<Rightarrow> string \<Rightarrow> bool" where
  "follows n policy ov req k sent resp u \<longleftrightarrow> is_redirect resp \<and> int k + 1 \<le> max_redirects policy \<and>
     (\<exists>l. location resp = Some l \<and> l \<noteq> [] \<and> url_join n (sent_url req) l = Inr u) \<and>
     validate_outbound_url n policy ov (sent @ [req]) u = Inr u"

lemma redirect_refused:
  assumes "\<not> dl < monotonic n (k + 1)" and "transport n sent req = Inr resp" and "is_redirect resp"
    and "\<forall>u. \<not> follows n policy ov req k sent resp u"
  shows "\<exists>e. request_loop n policy ov dl req k sent = (Inl e, sent @ [req])"
proof -
  note unf = request_loop.simps [of n policy ov dl req k sent]
  consider (limit) "max_redirects policy < int k + 1"
    | (missing) "\<not> max_redirects policy < int k + 1" "location resp = None \<or> location resp = Some []"
    | (bad) l e where "\<not> max_redirects policy < int k + 1" "location resp = Some l" "l \<noteq> []"
        "url_join n (sent_url req) l = Inl e"
    | (target) l j where "\<not> max_redirects policy < int k + 1" "location resp = Some l" "l \<noteq> []"
        "url_join n (sent_url req) l = Inr j"
    by (cases "location resp"; cases "url_join n (sent_url req) (the (location resp))") auto
  then show ?thesis
  proof cases
    case (target l j)
    then obtain e where "validate_outbound_url n policy ov (sent @ [req]) j = Inl e"
      using assms(3,4) validate_same [of n policy ov "sent @ [req]" j]
      by (cases "validate_outbound_url n policy ov (sent @ [req]) j") (auto simp: follows_def)
    with target assms show ?thesis by (simp add: unf)
  qed (use assms in \<open>auto simp: unf Let_def\<close>)
qed

lemma request_loop_cases:
  obtains (stop) r new where "request_loop n policy ov dl req k sent = (r, sent @ new)"
      and "new = [] \<or> new = [req]"
      and "\<And>x. r = Inr x \<Longrightarrow> \<not> is_redirect x \<and> accept_response policy x = Inr x"
  | (follow) resp u where "\<not> dl < monotonic n (k + 1)" and "transport n sent req = Inr resp"
      and "follows n policy ov req k sent resp u"
      and "request_loop n policy ov dl req k sent =
             request_loop n policy ov dl (req\<lparr>sent_url := u\<rparr>) (k + 1) (sent @ [req])"
proof -
  note unf = request_loop.simps [of n policy ov dl req k sent]
  consider "dl < monotonic n (k + 1)" | e where "\<not> dl < monotonic n (k + 1)" "transport n sent req = Inl e"
    | resp where "\<not> dl < monotonic n (k + 1)" "transport n sent req = Inr resp" "\<not> is_redirect resp"
    | resp u where "\<not> dl < monotonic n (k + 1)" "transport n sent req = Inr resp" "follows n policy ov req k sent resp u"
    | resp where "\<not> dl < monotonic n (k + 1)" "transport n sent req = Inr resp" "is_redirect resp"
        "\<forall>u. \<not> follows n policy ov req k sent resp u"
    by (cases "transport n sent req") blast+
  then show ?thesis
  proof cases
    case 1
    then show ?thesis by (intro stop [of "Inl (TimeoutException ''secure outbound total timeout exceeded'')" "[]"]) (simp_all add: unf)
  next
    case (2 e)
    then show ?thesis by (intro stop [of "Inl e" "[req]"]) (simp_all add: unf)
  next
    case (3 resp)
    then show ?thesis by (intro stop [of "accept_response policy resp" "[req]"]) (auto simp: unf accept_response_Inr)
  next
    case (4 resp u)
    then show ?thesis by (intro follow [of resp u]) (auto simp: unf follows_def Let_def)
  next
    case (5 resp)
    then obtain e where "request_loop n policy ov dl req k sent = (Inl e, sent @ [req])"
      using redirect_refused by blast
    then show ?thesis by (intro stop [of "Inl e" "[req]"]) simp_all
  qed
qed

lemma request_loop_trace:
  assumes "validate_outbound_url n policy ov sent (sent_url req) = Inr (sent_url req)"
  shows "\<exists>new. snd (request_loop n policy ov dl req k sent) = sent @ new \<and>
    length new \<le> nat (max_redirects policy - int k) + 1 \<and> validated_chain n policy ov sent new \<and>
    list_all (same_request req) new \<and>
    (\<forall>r. fst (request_loop n policy ov dl req k sent) = Inr r \<longrightarrow>
       \<not> is_redirect r \<and> accept_response policy r = Inr r)"
  using assms
proof (induction "nat (max_redirects policy - int k)" arbitrary: req k sent rule: less_induct)
  case less
  let ?res = "request_loop n policy ov dl req k sent"
  have same: "same_request req req" by (simp add: same_request_def)
  show ?case
  proof (cases rule: request_loop_cases [of n policy ov dl req k sent])
    case (stop r new)
    then show ?thesis using less.prems same by (intro exI [of _ new]) auto
  next
    case (follow resp u)
    let ?req = "req\<lparr>sent_url := u\<rparr>"
    have step: "nat (max_redirects policy - int (k + 1)) < nat (max_redirects policy - int k)"
      and "validate_outbound_url n policy ov (sent @ [req]) (sent_url ?req) = Inr (sent_url ?req)"
      using follow(3) by (auto simp: follows_def)
    then obtain new where new: "snd ?res = (sent @ [req]) @ new"
        "length new \<le> nat (max_redirects policy - int (k + 1)) + 1"
        "validated_chain n policy ov (sent @ [req]) new" "list_all (same_request ?req) new"
        "\<forall>r. fst ?res = Inr r \<longrightarrow> \<not> is_redirect r \<and> accept_response policy r = Inr r"
      unfolding follow(4) using less.hyps by blast
    have "same_request ?req = same_request req" by (rule ext) (simp add: same_request_def)
    with new step less.prems same show ?thesis by (intro exI [of _ "req # new"]) auto
  qed
qed

definition allowed_host :: "OutboundPolicy \<Rightarrow> sent_request \<Rightarrow> bool" where
  "allowed_host policy r \<longleftrightarrow> (\<exists>p h. urlparse (sent_url r) = Inr p \<and> url_hostname p = Some h \<and>
     normal_host h \<notin> set BLOCKED_HOSTS \<and> allows_domain policy (normal_host h))"

lemma validated_chain_hosts: "validated_chain n policy ov sent rs \<Longrightarrow> list_all (allowed_host policy) rs"
proof (induction n policy ov sent rs rule: validated_chain.induct)
  case (2 n policy ov sent r rs)
  from "2.prems" have "validate_outbound_url n policy ov sent (sent_url r) = Inr (sent_url r)" by simp
  then have "allowed_host policy r" unfolding allowed_host_def by (elim validate_Inr) blast
  with 2 show ?case by simp
qed simp

lemma request_hosts:
  "\<exists>new. snd (request n policy ov method url params headers payload sent) = sent @ new \<and> list_all (allowed_host policy) new"
proof (cases "validate_outbound_url n policy ov sent url")
  case (Inl e)
  then show ?thesis by (simp add: request_def)
next
  case (Inr u)
  then have u: "u = url" by (rule validate_same)
  let ?req = "\<lparr>sent_method = method, sent_url = u, sent_params = params, sent_headers = headers, sent_json = payload\<rparr>"
  have "validate_outbound_url n policy ov sent (sent_url ?req) = Inr (sent_url ?req)" using Inr u by simp
  from request_loop_trace [OF this, of "monotonic n 0 + total_timeout policy" 0] show ?thesis
    using Inr by (auto simp: request_def dest: validated_chain_hosts)
qed

subsection \<open>Properties\<close>

text \<open>
  C21: The client never contacts what it has not just validated: all requests it sends, the redirects
  included, pass \<open>validate_outbound_url\<close> at the moment they are sent, there is at most one more
  of them than the policy allows redirects, and what it returns is no redirect and has an allowed
  type and size. Method, headers (credentials included) and body are the same in all of them.
\<close>

theorem outbound_requests_validated:
  "\<exists>new. snd (request n policy ov method url params headers payload sent) = sent @ new \<and>
     length new \<le> nat (max_redirects policy) + 1 \<and> validated_chain n policy ov sent new \<and>
     list_all (\<lambda>r. sent_method r = method \<and> sent_params r = params \<and> sent_headers r = headers \<and> sent_json r = payload) new \<and>
     (case fst (request n policy ov method url params headers payload sent) of
        Inl e \<Rightarrow> True
      | Inr r \<Rightarrow> \<not> is_redirect r \<and> int (content_length r) \<le> max_response_bytes policy \<and>
          (allowed_content_types policy = [] \<or> media_type r = [] \<or> media_type r \<in> set (allowed_content_types policy)))"
proof (cases "validate_outbound_url n policy ov sent url")
  case (Inl e)
  then show ?thesis by (intro exI [of _ "[]"]) (simp add: request_def)
next
  case (Inr u)
  then have u: "u = url" by (rule validate_same)
  let ?req = "\<lparr>sent_method = method, sent_url = u, sent_params = params, sent_headers = headers, sent_json = payload\<rparr>"
  have "validate_outbound_url n policy ov sent (sent_url ?req) = Inr (sent_url ?req)" using Inr u by simp
  note trace = request_loop_trace [OF this, of "monotonic n 0 + total_timeout policy" 0]
  have "same_request ?req = (\<lambda>r. sent_method r = method \<and> sent_params r = params \<and> sent_headers r = headers \<and> sent_json r = payload)"
    by (rule ext) (simp add: same_request_def)
  with trace Inr show ?thesis by (auto simp: request_def accept_response_Inr split: sum.split)
qed

text \<open>
  C22: A URL that passes validation has an allowed scheme and an allowed, unblocked host, and every
  address that the host resolves to at that moment, for the port of the URL, is a valid address that is no metadata
  address and lies outside of these ranges: for IPv4 \<^verbatim>\<open>0.0.0.0/8\<close>, RFC 1918, loopback, link-local, multicast and
  \<^verbatim>\<open>240.0.0.0/4\<close>; for IPv6 everything but \<^verbatim>\<open>2000::/3\<close> and \<^verbatim>\<open>fec0::/10\<close>. Not excluded are the shared range
  \<^verbatim>\<open>100.64.0.0/10\<close> and the site-local range \<^verbatim>\<open>fec0::/10\<close>.
\<close>

theorem validated_addresses_outside_ranges:
  assumes "validate_outbound_url n policy ov sent url = Inr u"
  shows "\<exists>p h q as. urlparse url = Inr p \<and> url_scheme p \<in> set (allowed_schemes policy) \<and>
    url_scheme p \<notin> set UNSAFE_SCHEMES \<and> url_hostname p = Some h \<and>
    normal_host h \<notin> set BLOCKED_HOSTS \<and> allows_domain policy (normal_host h) \<and> url_port p = Inr q \<and>
    resolve n ov sent (normal_host h) (port_of p q) = Inr as \<and>
    (\<forall>a \<in> set as. a \<notin> set METADATA_IPS \<and> (\<exists>x. ip_address a = Inr x \<and> outside_ranges x))"
  using assms by (elim validate_Inr) (blast dest: check_addresses_Inr)

definition example_net :: net where
  "example_net = \<lparr>getaddrinfo = (\<lambda>sent host port. Inr [''93.184.216.34'']),
     transport = (\<lambda>sent req. Inr \<lparr>status_code = 200, location = None, content_type = Some ''application/json'',
        content_length = 2, body_json = Inr (JObj [])\<rparr>),
     url_join = (\<lambda>base target. Inr target), monotonic = (\<lambda>i. 0)\<rparr>"

theorem validated_addresses_outside_ranges_witness:
  "\<exists>p h. urlparse ''https://Example.com/x'' = Inr p \<and> url_hostname p = Some h \<and>
     normal_host h \<notin> set BLOCKED_HOSTS"
proof -
  have "validate_outbound_url example_net default_policy [] [] ''https://Example.com/x'' = Inr ''https://Example.com/x''"
    by code_simp
  from validated_addresses_outside_ranges [OF this] show ?thesis by blast
qed

text \<open>
  The ranges that are let through: a URL whose host resolves to a shared or a site-local address
  passes validation.
\<close>

lemma shared_and_site_local_accepted:
  "list_all (\<lambda>a. validate_outbound_url (example_net\<lparr>getaddrinfo := \<lambda>sent host port. Inr [a]\<rparr>) default_policy [] []
     ''https://example.com/x'' = Inr ''https://example.com/x'') [''100.64.0.1'', ''fec0::1'']"
  by code_simp

end
