(* ===== verification/Llm_Gateway.thy ===== *)
theory Llm_Gateway
  imports Outbound
begin

section \<open>The LLM gateway (llm/core.py)\<close>

text \<open>
  \<^verbatim>\<open>Provider\<close>, \<^verbatim>\<open>ProviderHealth\<close>, \<^verbatim>\<open>RoutingPolicy\<close>, \<^verbatim>\<open>CostPolicy\<close>, \<^verbatim>\<open>ProviderAdapter\<close>,
  \<^verbatim>\<open>LLMGateway\<close> and \<^verbatim>\<open>LLMCore\<close> of \<^verbatim>\<open>agi_platform/llm/core.py\<close>, on top of the outbound client of
  theory \<^verbatim>\<open>Outbound\<close>. The world supplies the environment variables, the network seen by the n-th
  outbound call, and the successive readings of the clocks. The state holds what the objects keep: spent budgets, provider health, usage
  records, and for the statements also the requests sent, the number of outbound calls and clock
  readings, and the delays slept.

  Shown: a completion is charged exactly once and only when it is returned, budgets are never
  exceeded, only configured providers with a closed circuit are contacted, and the number of
  outbound calls is bounded; and what the circuit breaker does not see: a provider that keeps
  answering with server errors is never taken out of rotation.
\<close>

subsection \<open>Providers and policies\<close>

record Provider =
  p_name :: string
  p_models :: "string list"
  p_priority :: int
  p_base_url :: string
  p_api_key_env :: "string option"
  p_chat_path :: string
  p_embeddings_path :: string

definition api_key :: "(string \<Rightarrow> string option) \<Rightarrow> Provider \<Rightarrow> string option" where
  "api_key getenv p = (case p_api_key_env p of None \<Rightarrow> None | Some v \<Rightarrow> if v = [] then None else getenv v)"

definition configured :: "(string \<Rightarrow> string option) \<Rightarrow> Provider \<Rightarrow> bool" where
  "configured getenv p = (api_key getenv p \<noteq> None \<or>
     (p_name p \<in> set [''ollama'', ''vllm'', ''lm-studio''] \<and> p_base_url p \<noteq> []))"

record ProviderHealth =
  failures :: int
  circuit_open_until :: rat
  last_status :: string

definition fresh_health :: "string \<Rightarrow> ProviderHealth" where
  "fresh_health status = \<lparr>failures = 0, circuit_open_until = 0, last_status = status\<rparr>"

definition available :: "ProviderHealth \<Rightarrow> rat \<Rightarrow> bool" where
  "available h now = (circuit_open_until h \<le> now)"

record RoutingPolicy =
  max_retries :: int
  backoff_seconds :: rat
  circuit_breaker_failures :: int
  circuit_breaker_cooldown :: rat
  model_allowlist :: "string list"

definition default_routing :: RoutingPolicy where
  "default_routing = \<lparr>max_retries = 2, backoff_seconds = 5 / 100, circuit_breaker_failures = 3,
     circuit_breaker_cooldown = 30, model_allowlist = []\<rparr>"

record CostPolicy =
  max_tokens_per_request :: int
  tenant_budget_usd :: rat
  price_per_1k_tokens :: rat

definition default_cost :: CostPolicy where
  "default_cost = \<lparr>max_tokens_per_request = 8192, tenant_budget_usd = 1, price_per_1k_tokens = 1 / 1000\<rparr>"

definition estimate :: "CostPolicy \<Rightarrow> int \<Rightarrow> int \<Rightarrow> rat" where
  "estimate c tokens_in tokens_out = (of_int (tokens_in + tokens_out) / 1000) * price_per_1k_tokens c"

definition reserve :: "CostPolicy \<Rightarrow> (string, rat) dict \<Rightarrow> string \<Rightarrow> rat \<Rightarrow> unit result" where
  "reserve c spent tenant cost = (if tenant_budget_usd c < dict_get_default spent tenant 0 + cost
     then Inl (RuntimeError ''LLM cost budget exceeded'') else Inr ())"

definition commit :: "string \<Rightarrow> rat \<Rightarrow> (string, rat) dict \<Rightarrow> (string, rat) dict" where
  "commit tenant cost spent = dict_set tenant (dict_get_default spent tenant 0 + cost) spent"

subsection \<open>Provider answers\<close>

definition extract_chat_content :: "Provider \<Rightarrow> json \<Rightarrow> json result" where
  "extract_chat_content p body =
     (if p_name p = ''anthropic'' then
        and_then (json_get body ''content'' (JList [])) (\<lambda>parts.
        and_then (py_iter parts) (\<lambda>items.
        and_then (map_result (\<lambda>part. json_get part ''text'' (JStr [])) items) (\<lambda>texts.
        and_then (map_result as_str texts) (\<lambda>ss. Inr (JStr (concat ss))))))
      else if p_name p = ''ollama'' then
        and_then (json_get body ''message'' (JObj [])) (\<lambda>m. json_get m ''content'' (JStr []))
      else
        and_then (json_get body ''choices'' (JList [JObj []])) (\<lambda>choices.
        and_then (first_item choices) (\<lambda>c.
        and_then (json_get c ''message'' (JObj [])) (\<lambda>m. json_get m ''content'' (JStr [])))))"

definition count_words :: "string \<Rightarrow> int" where
  "count_words s = int (length (split_ws s))"

definition usage_count :: "json \<Rightarrow> string \<Rightarrow> string \<Rightarrow> string \<Rightarrow> int result" where
  "usage_count usage k1 k2 text =
     and_then (json_get usage k1 JNull) (\<lambda>a.
     and_then (if truthy a then Inr a else json_get usage k2 JNull) (\<lambda>b.
     py_int (if truthy b then b else JInt (count_words text))))"

definition extract_usage :: "json \<Rightarrow> string \<Rightarrow> string \<Rightarrow> (int \<times> int) result" where
  "extract_usage body prompt completion =
     and_then (json_get body ''usage'' (JObj [])) (\<lambda>usage.
     and_then (usage_count usage ''prompt_tokens'' ''input_tokens'' prompt) (\<lambda>i.
     and_then (usage_count usage ''completion_tokens'' ''output_tokens'' completion) (\<lambda>out.
     Inr (i, out))))"

subsection \<open>State and world\<close>

record llm_record =
  l_provider :: string
  l_model :: string
  l_request_id :: string
  l_tenant_id :: string
  l_response :: string
  l_streaming :: bool
  l_tool_calls :: json
  l_input_tokens :: int
  l_output_tokens :: int
  l_latency_ms :: rat
  l_cost :: rat
  l_errors :: nat
  l_raw :: json
  l_status :: string
  l_timestamp :: int

record world =
  getenv :: "string \<Rightarrow> string option"
  network :: "nat \<Rightarrow> net"
  clock :: "nat \<Rightarrow> rat"
  latency :: "nat \<Rightarrow> rat"
  wall_time :: "nat \<Rightarrow> int"

record gateway =
  gw_spent :: "(string, rat) dict"
  gw_health :: "(string, ProviderHealth) dict"
  gw_usage :: "llm_record list"
  gw_sent :: "sent_request list"
  gw_calls :: nat
  gw_ticks :: nat
  gw_slept :: "rat list"

record gateway_config =
  gc_providers :: "(string, Provider) dict"
  gc_routing :: RoutingPolicy
  gc_cost :: CostPolicy

definition new_gateway :: "gateway_config \<Rightarrow> gateway" where
  "new_gateway cfg = \<lparr>gw_spent = [], gw_health = map (\<lambda>(k, p). (k, fresh_health ''unknown'')) (gc_providers cfg),
     gw_usage = [], gw_sent = [], gw_calls = 0, gw_ticks = 0, gw_slept = []\<rparr>"

definition tick :: "world \<Rightarrow> (gateway, rat) sop" where
  "tick w s = (Inr (clock w (gw_ticks s)), s\<lparr>gw_ticks := gw_ticks s + 1\<rparr>)"

subsection \<open>The adapter\<close>

definition adapter_policy :: OutboundPolicy where
  "adapter_policy = default_policy\<lparr>allowed_content_types := [''application/json'']\<rparr>"

definition adapter_headers :: "(string \<Rightarrow> string option) \<Rightarrow> Provider \<Rightarrow> (string, string) dict" where
  "adapter_headers env p =
     [(''Content-Type'', ''application/json'')] @
     (case api_key env p of None \<Rightarrow> [] | Some k \<Rightarrow> if k = [] then [] else [(''Authorization'', ''Bearer '' @ k)]) @
     (if p_name p = ''anthropic'' then [(''anthropic-version'', ''2023-06-01'')] else [])"

definition chat_payload :: "Provider \<Rightarrow> string \<Rightarrow> string \<Rightarrow> bool \<Rightarrow> json" where
  "chat_payload p model message stream =
     (let messages = (''messages'', JList [JObj [(''role'', JStr ''user''), (''content'', JStr message)]]) in
      if p_name p = ''anthropic''
      then JObj [(''model'', JStr model), (''max_tokens'', JInt 1024), messages, (''stream'', JBool stream)]
      else JObj [(''model'', JStr model), messages, (''stream'', JBool stream)])"

definition adapter_post :: "world \<Rightarrow> Provider \<Rightarrow> string \<Rightarrow> json \<Rightarrow> (gateway, json) sop" where
  "adapter_post w p path payload s =
     (let url = rstrip_char (CHR ''/'') (p_base_url p) @ path;
          (r, sent) = http_post (network w (gw_calls s)) adapter_policy [] url (adapter_headers (getenv w) p)
                        payload (gw_sent s)
      in (and_then r (\<lambda>resp. and_then (raise_for_status resp) body_json),
          s\<lparr>gw_sent := sent, gw_calls := gw_calls s + 1\<rparr>))"

definition adapter_chat :: "world \<Rightarrow> Provider \<Rightarrow> string \<Rightarrow> string \<Rightarrow> bool \<Rightarrow> (gateway, json) sop" where
  "adapter_chat w p model message stream =
     adapter_post w p (p_chat_path p) (chat_payload p model message stream)"

definition adapter_embeddings :: "world \<Rightarrow> Provider \<Rightarrow> string \<Rightarrow> string \<Rightarrow> (gateway, json) sop" where
  "adapter_embeddings w p model text = adapter_post w p (p_embeddings_path p)
     (JObj [(''model'', JStr model), (if p_name p = ''ollama'' then ''prompt'' else ''input'', JStr text)])"

subsection \<open>Routing\<close>

definition health_of :: "gateway \<Rightarrow> string \<Rightarrow> ProviderHealth result" where
  "health_of s name = (case dict_get (gw_health s) name of None \<Rightarrow> Inl (KeyError name) | Some h \<Rightarrow> Inr h)"

text \<open>The providers that are configured and whose circuit is closed; each check reads the clock.\<close>

fun usable :: "world \<Rightarrow> Provider list \<Rightarrow> (gateway, Provider list) sop" where
  "usable w [] = op_return []"
| "usable w (p # ps) =
     (if \<not> configured (getenv w) p then usable w ps
      else op_bind (\<lambda>s. (health_of s (p_name p), s)) (\<lambda>h. op_bind (tick w) (\<lambda>now.
        op_bind (usable w ps) (\<lambda>rest. op_return (if available h now then p # rest else rest)))))"

definition candidate_providers ::
    "world \<Rightarrow> gateway_config \<Rightarrow> string option \<Rightarrow> (gateway, Provider list) sop" where
  "candidate_providers w cfg model =
     op_bind (usable w (dict_values (gc_providers cfg))) (\<lambda>ps.
     let sorted = sort_key p_priority ps;
         requested = (case model of None \<Rightarrow> [] | Some m \<Rightarrow> m)
     in if requested \<noteq> [] \<and> model_allowlist (gc_routing cfg) \<noteq> [] \<and>
           requested \<notin> set (model_allowlist (gc_routing cfg))
        then op_raise (RuntimeError ''model is not allowed'')
        else let chosen = (if requested = [] then sorted else filter (\<lambda>p. requested \<in> set (p_models p)) sorted)
          in if chosen = [] then op_raise (RuntimeError
               ''no LLM provider is configured; set an API key or local model endpoint'')
             else op_return chosen)"

definition record_failure :: "world \<Rightarrow> gateway_config \<Rightarrow> string \<Rightarrow> (gateway, unit) sop" where
  "record_failure w cfg name s =
     (case health_of s name of
        Inl e \<Rightarrow> (Inl e, s)
      | Inr h \<Rightarrow>
         (let n = failures h + 1;
              opened = circuit_breaker_failures (gc_routing cfg) \<le> n;
              h' = \<lparr>failures = n,
                    circuit_open_until = (if opened then clock w (gw_ticks s) + circuit_breaker_cooldown (gc_routing cfg)
                                          else circuit_open_until h),
                    last_status = ''unhealthy''\<rparr>
          in (Inr (), s\<lparr>gw_health := dict_set name h' (gw_health s),
                        gw_ticks := (if opened then gw_ticks s + 1 else gw_ticks s)\<rparr>)))"

definition sleep :: "gateway_config \<Rightarrow> nat \<Rightarrow> (gateway, unit) sop" where
  "sleep cfg attempt = op_modify (\<lambda>s. if int attempt < max_retries (gc_routing cfg)
     then s\<lparr>gw_slept := gw_slept s @ [backoff_seconds (gc_routing cfg) * 2 ^ attempt]\<rparr> else s)"

subsection \<open>Completion\<close>

record llm_call =
  c_message :: string
  c_model :: "string option"
  c_stream :: bool
  c_tenant :: string
  c_request_id :: string

definition chosen_model :: "string option \<Rightarrow> Provider \<Rightarrow> string result" where
  "chosen_model model p = (case model of
     Some m \<Rightarrow> if m = [] then (case p_models p of [] \<Rightarrow> Inl IndexError | x # _ \<Rightarrow> Inr x) else Inr m
   | None \<Rightarrow> (case p_models p of [] \<Rightarrow> Inl IndexError | x # _ \<Rightarrow> Inr x))"

text \<open>The body of the \<^verbatim>\<open>try\<close>: what was answered, checked, charged and recorded.\<close>

definition charge ::
    "world \<Rightarrow> gateway_config \<Rightarrow> llm_call \<Rightarrow> Provider \<Rightarrow> string \<Rightarrow> nat \<Rightarrow> json \<Rightarrow> string \<Rightarrow> int \<times> int \<Rightarrow>
     (gateway, llm_record) sop" where
  "charge w cfg c p model errors body content usage s =
     (let cost = estimate (gc_cost cfg) (fst usage) (snd usage) in
      case reserve (gc_cost cfg) (gw_spent s) (c_tenant c) cost of
        Inl e \<Rightarrow> (Inl e, s)
      | Inr _ \<Rightarrow>
         (let r = \<lparr>l_provider = p_name p, l_model = model, l_request_id = c_request_id c,
                   l_tenant_id = c_tenant c, l_response = content, l_streaming = c_stream c,
                   l_tool_calls = (case json_get body ''tool_calls'' (JList []) of Inl e \<Rightarrow> JNull | Inr v \<Rightarrow> v),
                   l_input_tokens = fst usage, l_output_tokens = snd usage,
                   l_latency_ms = latency w (gw_calls s), l_cost = cost, l_errors = errors, l_raw = body,
                   l_status = ''succeeded'', l_timestamp = wall_time w (gw_calls s)\<rparr>
          in (Inr r, s\<lparr>gw_spent := commit (c_tenant c) cost (gw_spent s),
                       gw_health := dict_set (p_name p) (fresh_health ''healthy'') (gw_health s),
                       gw_usage := gw_usage s @ [r]\<rparr>)))"

definition checked_content ::
    "world \<Rightarrow> gateway_config \<Rightarrow> llm_call \<Rightarrow> Provider \<Rightarrow> string \<Rightarrow> nat \<Rightarrow> json \<Rightarrow> json \<Rightarrow> (gateway, llm_record) sop" where
  "checked_content w cfg c p model errors body content =
     (case content of
       JStr str \<Rightarrow>
         if str = [] then op_raise (RuntimeError ''malformed LLM response'')
         else op_bind (lift (extract_usage body (c_message c) str)) (\<lambda>usage.
              charge w cfg c p model errors body str usage)
     | _ \<Rightarrow> op_raise (RuntimeError ''malformed LLM response''))"

definition attempt ::
    "world \<Rightarrow> gateway_config \<Rightarrow> llm_call \<Rightarrow> Provider \<Rightarrow> string \<Rightarrow> nat \<Rightarrow> (gateway, llm_record) sop" where
  "attempt w cfg c p model errors =
     op_bind (adapter_chat w p model (c_message c) (c_stream c)) (\<lambda>body.
     op_bind (lift (extract_chat_content p body)) (checked_content w cfg c p model errors body))"

text \<open>The second \<^verbatim>\<open>except\<close> clause.\<close>

definition caught :: "py_exn \<Rightarrow> bool" where
  "caught e = (is_RuntimeError e \<or> is_ValueError e \<or>
     (case e of TimeoutException m \<Rightarrow> True | TransportError m \<Rightarrow> True | _ \<Rightarrow> False))"

text \<open>
  The attempts at one provider: a record, or none after a failure that ends them, with the number
  of errors so far. An exception no clause catches escapes.
\<close>

fun attempts ::
    "world \<Rightarrow> gateway_config \<Rightarrow> llm_call \<Rightarrow> Provider \<Rightarrow> string \<Rightarrow> nat list \<Rightarrow> nat \<Rightarrow>
     (gateway, llm_record option \<times> nat) sop" where
  "attempts w cfg c p model [] errors s = (Inr (None, errors), s)"
| "attempts w cfg c p model (a # as) errors s =
     (case attempt w cfg c p model errors s of
        (Inr r, s') \<Rightarrow> (Inr (Some r, errors), s')
      | (Inl (HTTPStatusError code), s') \<Rightarrow>
          if code < 500 \<and> code \<noteq> 429
          then op_bind (record_failure w cfg (p_name p)) (\<lambda>_. op_return (None, errors + 1)) s'
          else attempts w cfg c p model as (errors + 1) (snd (sleep cfg a s'))
      | (Inl e, s') \<Rightarrow>
          if caught e then
            op_bind (record_failure w cfg (p_name p)) (\<lambda>_.
            op_bind (sleep cfg a) (\<lambda>_.
            op_bind (tick w) (\<lambda>now.
            op_bind (\<lambda>s. (health_of s (p_name p), s)) (\<lambda>h.
            if available h now then attempts w cfg c p model as (errors + 1)
            else op_return (None, errors + 1))))) s'
          else (Inl e, s'))"

fun try_providers ::
    "world \<Rightarrow> gateway_config \<Rightarrow> llm_call \<Rightarrow> Provider list \<Rightarrow> nat \<Rightarrow> (gateway, llm_record) sop" where
  "try_providers w cfg c [] errors s = (Inl (RuntimeError ''LLM provider unavailable''), s)"
| "try_providers w cfg c (p # ps) errors s =
     op_bind (lift (chosen_model (c_model c) p)) (\<lambda>model.
     op_bind (attempts w cfg c p model [0..<nat (max_retries (gc_routing cfg) + 1)] errors) (\<lambda>(r, errors').
     case r of Some rec \<Rightarrow> op_return rec | None \<Rightarrow> try_providers w cfg c ps errors')) s"

definition complete :: "world \<Rightarrow> gateway_config \<Rightarrow> llm_call \<Rightarrow> (gateway, llm_record) sop" where
  "complete w cfg c s =
     (let tokens_in = count_words (c_message c) in
      if max_tokens_per_request (gc_cost cfg) < tokens_in
      then (Inl (RuntimeError ''LLM token limit exceeded''), s)
      else case reserve (gc_cost cfg) (gw_spent s) (c_tenant c)
             (estimate (gc_cost cfg) tokens_in (max_tokens_per_request (gc_cost cfg))) of
        Inl e \<Rightarrow> (Inl e, s)
      | Inr _ \<Rightarrow> op_bind (candidate_providers w cfg (c_model c)) (\<lambda>ps. try_providers w cfg c ps 0) s)"

subsection \<open>Embeddings\<close>

record embedding_result =
  em_provider :: string
  em_model :: string
  em_embedding :: json
  em_dimensions :: nat

fun py_len :: "json \<Rightarrow> nat result" where
  "py_len (JList l) = Inr (length l)"
| "py_len (JStr s) = Inr (length s)"
| "py_len (JObj m) = Inr (length m)"
| "py_len v = Inl (TypeError ''object has no len()'')"

definition extract_embedding :: "json \<Rightarrow> json result" where
  "extract_embedding body = and_then (json_get body ''embedding'' JNull) (\<lambda>e.
     if truthy e then Inr e
     else and_then (json_get body ''data'' (JList [JObj []])) (\<lambda>data.
          and_then (first_item data) (\<lambda>d. json_get d ''embedding'' JNull)))"

definition embeddings :: "world \<Rightarrow> gateway_config \<Rightarrow> string \<Rightarrow> string option \<Rightarrow> (gateway, embedding_result) sop" where
  "embeddings w cfg text model =
     op_bind (candidate_providers w cfg model) (\<lambda>ps.
     let p = hd ps in
     op_bind (lift (chosen_model model p)) (\<lambda>m.
     op_bind (adapter_embeddings w p m text) (\<lambda>body.
     op_bind (lift (extract_embedding body)) (\<lambda>e.
     if e = JNull then op_raise (RuntimeError (''provider '' @ p_name p @ '' did not return an embedding''))
     else op_bind (lift (py_len e)) (\<lambda>n.
       op_return \<lparr>em_provider = p_name p, em_model = m, em_embedding = e, em_dimensions = n\<rparr>)))))"

subsection \<open>Core\<close>

text \<open>\<^verbatim>\<open>LLMCore\<close>: the default providers, and the calls it passes on for tenant \<^verbatim>\<open>legacy\<close>.\<close>

definition base_url :: "(string \<Rightarrow> string option) \<Rightarrow> string \<Rightarrow> string \<Rightarrow> string" where
  "base_url env v dflt = (case env v of None \<Rightarrow> dflt | Some u \<Rightarrow> u)"

definition provider ::
    "string \<Rightarrow> string list \<Rightarrow> int \<Rightarrow> string \<Rightarrow> string option \<Rightarrow> string \<times> Provider" where
  "provider name models priority url key = (name, \<lparr>p_name = name, p_models = models, p_priority = priority,
     p_base_url = url, p_api_key_env = key, p_chat_path = ''/v1/chat/completions'',
     p_embeddings_path = ''/v1/embeddings''\<rparr>)"

definition default_providers :: "(string \<Rightarrow> string option) \<Rightarrow> (string, Provider) dict" where
  "default_providers env =
    [provider ''openai'' [''gpt-4.1'', ''gpt-4.1-mini''] 10
       (base_url env ''OPENAI_BASE_URL'' ''https://api.openai.com'') (Some ''OPENAI_API_KEY''),
     map_prod id (\<lambda>p. p\<lparr>p_chat_path := ''/v1/messages''\<rparr>)
       (provider ''anthropic'' [''claude-3-5-sonnet-latest''] 20
         (base_url env ''ANTHROPIC_BASE_URL'' ''https://api.anthropic.com'') (Some ''ANTHROPIC_API_KEY'')),
     provider ''gemini'' [''gemini-1.5-pro''] 30
       (base_url env ''GEMINI_BASE_URL'' ''https://generativelanguage.googleapis.com'') (Some ''GEMINI_API_KEY''),
     provider ''openrouter'' [''openrouter/auto''] 40
       (base_url env ''OPENROUTER_BASE_URL'' ''https://openrouter.ai/api'') (Some ''OPENROUTER_API_KEY''),
     map_prod id (\<lambda>p. p\<lparr>p_chat_path := ''/api/chat'', p_embeddings_path := ''/api/embeddings''\<rparr>)
       (provider ''ollama'' [''llama3''] 50 (base_url env ''OLLAMA_BASE_URL'' []) None),
     provider ''vllm'' [''vllm-local''] 60 (base_url env ''VLLM_BASE_URL'' []) None,
     provider ''lm-studio'' [''lm-studio-local''] 70 (base_url env ''LM_STUDIO_BASE_URL'' []) None]"

definition default_gateway :: "(string \<Rightarrow> string option) \<Rightarrow> gateway_config" where
  "default_gateway env = \<lparr>gc_providers = default_providers env, gc_routing = default_routing, gc_cost = default_cost\<rparr>"

record model_info =
  mi_models :: "string list"
  mi_configured :: bool
  mi_base_url :: string
  mi_health :: string

definition core_models :: "world \<Rightarrow> gateway_config \<Rightarrow> gateway \<Rightarrow> (string, model_info) dict result" where
  "core_models w cfg s = map_result (\<lambda>(name, p). and_then (health_of s name) (\<lambda>h.
     Inr (name, \<lparr>mi_models = p_models p, mi_configured = configured (getenv w) p,
                 mi_base_url = p_base_url p, mi_health = last_status h\<rparr>))) (gc_providers cfg)"

definition core_route :: "world \<Rightarrow> gateway_config \<Rightarrow> string option \<Rightarrow> (gateway, Provider) sop" where
  "core_route w cfg model = op_bind (candidate_providers w cfg model) (\<lambda>ps. op_return (hd ps))"

definition core_complete :: "world \<Rightarrow> gateway_config \<Rightarrow> string \<Rightarrow> string option \<Rightarrow> bool \<Rightarrow> (gateway, llm_record) sop" where
  "core_complete w cfg message model stream = complete w cfg \<lparr>c_message = message, c_model = model,
     c_stream = stream, c_tenant = ''legacy'', c_request_id = []\<rparr>"

definition core_embeddings :: "world \<Rightarrow> gateway_config \<Rightarrow> string \<Rightarrow> string option \<Rightarrow> (gateway, embedding_result) sop" where
  "core_embeddings = embeddings"

subsection \<open>Accounting\<close>

text \<open>What a call does to the books: nothing, or one charge within the budget.\<close>

definition same_books :: "gateway \<Rightarrow> gateway \<Rightarrow> bool" where
  "same_books s s' \<longleftrightarrow> gw_spent s' = gw_spent s \<and> gw_usage s' = gw_usage s"

definition charged :: "gateway_config \<Rightarrow> llm_call \<Rightarrow> llm_record \<Rightarrow> gateway \<Rightarrow> gateway \<Rightarrow> bool" where
  "charged cfg c r s s' \<longleftrightarrow> gw_usage s' = gw_usage s @ [r] \<and> l_tenant_id r = c_tenant c \<and> l_response r \<noteq> [] \<and>
     l_cost r = estimate (gc_cost cfg) (l_input_tokens r) (l_output_tokens r) \<and>
     gw_spent s' = dict_set (c_tenant c) (dict_get_default (gw_spent s) (c_tenant c) 0 + l_cost r) (gw_spent s) \<and>
     dict_get_default (gw_spent s) (c_tenant c) 0 + l_cost r \<le> tenant_budget_usd (gc_cost cfg)"

lemma same_books_trans: "same_books s s' \<Longrightarrow> same_books s' s'' \<Longrightarrow> same_books s s''"
  by (simp add: same_books_def)

lemma charged_same: "same_books s s' \<Longrightarrow> charged cfg c r s' s'' \<Longrightarrow> charged cfg c r s s''"
  by (simp add: same_books_def charged_def)

lemma adapter_post_frame:
  "adapter_post w p path payload s = (r, s') \<Longrightarrow> same_books s s' \<and> gw_calls s' = gw_calls s + 1 \<and> gw_health s' = gw_health s"
  by (auto simp: adapter_post_def same_books_def split: prod.splits)

lemma record_failure_frame:
  "record_failure w cfg name s = (r, s') \<Longrightarrow> same_books s s' \<and> gw_calls s' = gw_calls s"
  by (auto simp: record_failure_def same_books_def Let_def split: sum.splits)

lemma sleep_frame: "same_books s (snd (sleep cfg a s)) \<and> gw_calls (snd (sleep cfg a s)) = gw_calls s"
  by (simp add: sleep_def same_books_def)

lemma tick_frame: "tick w s = (r, s') \<Longrightarrow> same_books s s' \<and> gw_calls s' = gw_calls s \<and> gw_health s' = gw_health s"
  by (auto simp: tick_def same_books_def)

lemma charge_outcome:
  assumes "charge w cfg c p model errors body text usage s = (r, s')" and "text \<noteq> []"
  shows "gw_calls s' = gw_calls s \<and> (case r of Inl e \<Rightarrow> s' = s | Inr rec \<Rightarrow> charged cfg c rec s s')"
  using assms
  by (auto simp: charge_def charged_def Let_def reserve_def commit_def split: sum.splits if_splits)

lemma checked_content_cases:
  assumes "checked_content w cfg c p model errors body content s = (r, s')"
  obtains (refused) e where "r = Inl e" "s' = s"
  | (charged) x usage where "x \<noteq> []" "charge w cfg c p model errors body x usage s = (r, s')"
proof (cases "\<exists>x. content = JStr x \<and> x \<noteq> []")
  case True
  then obtain x where x: "content = JStr x" "x \<noteq> []" by blast
  show ?thesis
  proof (cases "extract_usage body (c_message c) x")
    case (Inl e)
    with assms x show ?thesis by (intro refused [of e]) (auto simp: checked_content_def op_bind_def lift_def)
  next
    case (Inr usage)
    with assms x show ?thesis by (intro charged [of x usage]) (simp_all add: checked_content_def op_bind_def lift_def)
  qed
next
  case False
  with assms show ?thesis
    by (intro refused [of "RuntimeError ''malformed LLM response''"]) (cases content; simp add: checked_content_def)+
qed

lemma attempt_outcome:
  assumes "attempt w cfg c p model errors s = (r, s')"
  shows "gw_calls s' = gw_calls s + 1 \<and> (case r of Inl e \<Rightarrow> same_books s s' | Inr rec \<Rightarrow> charged cfg c rec s s')"
proof -
  obtain r1 s1 where chat: "adapter_chat w p model (c_message c) (c_stream c) s = (r1, s1)" by fastforce
  then have f: "same_books s s1" "gw_calls s1 = gw_calls s + 1"
    by (auto simp: adapter_chat_def dest: adapter_post_frame)
  show ?thesis
  proof (cases r1)
    case (Inl e)
    with assms chat f show ?thesis by (auto simp: attempt_def op_bind_def)
  next
    case (Inr body)
    with assms chat have body: "op_bind (lift (extract_chat_content p body)) (checked_content w cfg c p model errors body) s1 = (r, s')"
      by (simp add: attempt_def op_bind_Inr)
    show ?thesis
    proof (cases "extract_chat_content p body")
      case (Inl e)
      with body f show ?thesis by (auto simp: op_bind_def lift_def)
    next
      case (Inr content)
      with body have "checked_content w cfg c p model errors body content s1 = (r, s')"
        by (simp add: op_bind_def lift_def)
      then show ?thesis
      proof (cases rule: checked_content_cases)
        case refused
        with f show ?thesis by simp
      next
        case (charged x usage)
        from charge_outcome [OF this(2,1)] f show ?thesis
          by (auto split: sum.splits intro: charged_same)
      qed
    qed
  qed
qed

lemma failure_tail:
  assumes "op_bind (record_failure w cfg name) (\<lambda>_. op_bind (sleep cfg a) (\<lambda>_. op_bind (tick w) (\<lambda>now.
      op_bind (\<lambda>s. (health_of s name, s)) (\<lambda>h. if available h now then m else op_return (None, k))))) s = (r, s')"
  obtains (stop) "same_books s s'" "gw_calls s' = gw_calls s" "(\<exists>e. r = Inl e) \<or> r = Inr (None, k)"
  | (go) s1 where "same_books s s1" "gw_calls s1 = gw_calls s" "m s1 = (r, s')"
proof -
  obtain r1 s1 where f: "record_failure w cfg name s = (r1, s1)" by fastforce
  let ?s2 = "snd (sleep cfg a s1)"
  obtain now s3 where t: "tick w ?s2 = (Inr now, s3)" by (simp add: tick_def)
  have same: "same_books s s1" "gw_calls s1 = gw_calls s" "same_books s s3" "gw_calls s3 = gw_calls s"
    using record_failure_frame [OF f] sleep_frame [of s1 cfg a] tick_frame [OF t]
    by (auto simp: same_books_def)
  show ?thesis
  proof (cases r1)
    case (Inl e)
    with assms f same show ?thesis by (intro stop) (auto simp: op_bind_def)
  next
    case (Inr u)
    have sl: "sleep cfg a s1 = (Inr (), ?s2)" by (simp add: sleep_def)
    have res: "op_bind (\<lambda>s. (health_of s name, s)) (\<lambda>h. if available h now then m else op_return (None, k)) s3 = (r, s')"
      using assms unfolding op_bind_Inr [of "record_failure w cfg name", OF f [unfolded Inr]]
        op_bind_Inr [of "sleep cfg a", OF sl] op_bind_Inr [of "tick w", OF t] .
    show ?thesis
    proof (cases "health_of s3 name")
      case (Inl e)
      with res same show ?thesis by (intro stop) (auto simp: op_bind_def)
    next
      case (Inr h)
      with res same show ?thesis
        by (cases "available h now") (auto simp: op_bind_def intro: stop go)
    qed
  qed
qed

lemma attempts_outcome:
  "attempts w cfg c p model as errors s = (r, s') \<Longrightarrow> gw_calls s' \<le> gw_calls s + length as \<and>
     (case r of Inr (Some rec, k) \<Rightarrow> charged cfg c rec s s' | _ \<Rightarrow> same_books s s')"
proof (induction as arbitrary: errors s)
  case Nil
  then show ?case by (auto simp: same_books_def)
next
  case (Cons a as)
  obtain r1 s1 where at: "attempt w cfg c p model errors s = (r1, s1)" by fastforce
  note out = attempt_outcome [OF at]
  have chain: ?case if "attempts w cfg c p model as (errors + 1) s2 = (r, s')" "same_books s s2"
      "gw_calls s2 = gw_calls s + 1" for s2
    using Cons.IH [OF that(1)] that(2,3)
    by (auto split: sum.splits option.splits intro: charged_same same_books_trans)
  show ?case
  proof (cases r1)
    case (Inr rec)
    with Cons.prems at out show ?thesis by auto
  next
    case (Inl e)
    with out have books: "same_books s s1" "gw_calls s1 = gw_calls s + 1" by simp_all
    consider (final) code where "e = HTTPStatusError code" "code < 500 \<and> code \<noteq> 429"
      | (retry) code where "e = HTTPStatusError code" "\<not> (code < 500 \<and> code \<noteq> 429)"
      | (caught) "\<forall>code. e \<noteq> HTTPStatusError code" "caught e"
      | (escape) "\<forall>code. e \<noteq> HTTPStatusError code" "\<not> caught e"
      by blast
    then show ?thesis
    proof cases
      case (final code)
      then have "op_bind (record_failure w cfg (p_name p)) (\<lambda>_. op_return (None, errors + 1)) s1 = (r, s')"
        using Cons.prems at Inl by simp
      then show ?thesis using books
        by (cases "record_failure w cfg (p_name p) s1")
          (auto simp: op_bind_def same_books_def split: sum.splits dest!: record_failure_frame)
    next
      case (retry code)
      then have "attempts w cfg c p model as (errors + 1) (snd (sleep cfg a s1)) = (r, s')"
        using Cons.prems at Inl by (simp split: if_splits)
      then show ?thesis using books sleep_frame [of s1 cfg a]
        by (intro chain [of "snd (sleep cfg a s1)"]) (auto simp: same_books_def)
    next
      case caught
      then have tail: "op_bind (record_failure w cfg (p_name p)) (\<lambda>_. op_bind (sleep cfg a) (\<lambda>_. op_bind (tick w) (\<lambda>now.
          op_bind (\<lambda>s. (health_of s (p_name p), s)) (\<lambda>h. if available h now
            then attempts w cfg c p model as (errors + 1) else op_return (None, errors + 1))))) s1 = (r, s')"
        using Cons.prems at Inl by (cases e) simp_all
      then show ?thesis
      proof (cases rule: failure_tail)
        case stop
        then show ?thesis using books by (auto simp: same_books_def split: sum.splits)
      next
        case (go s2)
        then show ?thesis using books by (intro chain [of s2]) (auto simp: same_books_def)
      qed
    next
      case escape
      then have "r = Inl e" "s' = s1" using Cons.prems at Inl by (cases e; simp)+
      then show ?thesis using books by simp
    qed
  qed
qed

lemma try_providers_outcome:
  "try_providers w cfg c ps errors s = (r, s') \<Longrightarrow>
     gw_calls s' \<le> gw_calls s + length ps * nat (max_retries (gc_routing cfg) + 1) \<and>
     (case r of Inl e \<Rightarrow> same_books s s' | Inr rec \<Rightarrow> charged cfg c rec s s')"
proof (induction ps arbitrary: errors s)
  case Nil
  then show ?case by (auto simp: same_books_def)
next
  case (Cons p ps)
  let ?n = "nat (max_retries (gc_routing cfg) + 1)"
  show ?case
  proof (cases "chosen_model (c_model c) p")
    case (Inl e)
    with Cons.prems show ?thesis by (auto simp: op_bind_def lift_def same_books_def)
  next
    case (Inr model)
    obtain r1 s1 where at: "attempts w cfg c p model [0..<?n] errors s = (r1, s1)" by fastforce
    note out = attempts_outcome [OF at]
    consider (escape) e where "r1 = Inl e" | (got) rec k where "r1 = Inr (Some rec, k)"
      | (next_provider) k where "r1 = Inr (None, k)"
      by (metis option.exhaust sum.exhaust surj_pair)
    then show ?thesis
    proof cases
      case (next_provider k)
      with Cons.prems Inr at have rest: "try_providers w cfg c ps k s1 = (r, s')"
        by (simp add: op_bind_def lift_def)
      from Cons.IH [OF rest] out next_provider show ?thesis
        by (auto split: sum.splits intro: charged_same same_books_trans)
    qed (use Cons.prems Inr at out in \<open>auto simp: op_bind_def lift_def\<close>)
  qed
qed

text \<open>Choosing the providers reads the clock and nothing else.\<close>

lemma usable_frame:
  "usable w ps s = (r, s') \<Longrightarrow> \<exists>n. s' = s\<lparr>gw_ticks := gw_ticks s + n\<rparr> \<and> (case r of Inl _ \<Rightarrow> True | Inr qs \<Rightarrow> length qs \<le> length ps)"
proof (induction ps arbitrary: s r s')
  case Nil
  then show ?case by (auto intro: exI [of _ 0])
next
  case (Cons p ps)
  show ?case
  proof (cases "configured (getenv w) p")
    case False
    with Cons.prems Cons.IH [of s r s'] show ?thesis by (fastforce split: sum.splits)
  next
    case True
    show ?thesis
    proof (cases "health_of s (p_name p)")
      case (Inl e)
      with True Cons.prems show ?thesis by (auto simp: op_bind_def intro: exI [of _ 0])
    next
      case (Inr h)
      let ?s = "s\<lparr>gw_ticks := gw_ticks s + 1\<rparr>"
      obtain r1 s1 where rest: "usable w ps ?s = (r1, s1)" by fastforce
      from Cons.IH [OF this] obtain n where n: "s1 = s\<lparr>gw_ticks := gw_ticks s + (n + 1)\<rparr>"
          "case r1 of Inl _ \<Rightarrow> True | Inr qs \<Rightarrow> length qs \<le> length ps"
        by (auto simp: add.commute add.left_commute)
      from True Inr Cons.prems rest have "s' = s1 \<and> (case r of Inl _ \<Rightarrow> True | Inr qs \<Rightarrow> length qs \<le> Suc (length ps))"
        using n(2) by (auto simp: op_bind_def tick_def split: sum.splits)
      with n(1) show ?thesis by (intro exI [of _ "n + 1"]) (auto split: sum.splits)
    qed
  qed
qed

lemma candidate_providers_frame:
  assumes "candidate_providers w cfg model s = (r, s')"
  shows "same_books s s' \<and> gw_calls s' = gw_calls s \<and> gw_health s' = gw_health s \<and>
    (case r of Inl _ \<Rightarrow> True | Inr ps \<Rightarrow> length ps \<le> length (gc_providers cfg))"
proof -
  obtain r1 s1 where u: "usable w (dict_values (gc_providers cfg)) s = (r1, s1)" by fastforce
  from usable_frame [OF u] have "same_books s s1" "gw_calls s1 = gw_calls s" "gw_health s1 = gw_health s"
    by (auto simp: same_books_def)
  moreover have "s' = s1" using assms u
    by (cases r1) (auto simp: candidate_providers_def op_bind_def Let_def split: if_splits)
  moreover have "case r of Inl _ \<Rightarrow> True | Inr ps \<Rightarrow> length ps \<le> length (gc_providers cfg)"
  proof (cases r1)
    case (Inl e)
    with assms u show ?thesis by (auto simp: candidate_providers_def op_bind_def)
  next
    case (Inr qs)
    then have "length qs \<le> length (gc_providers cfg)"
      using usable_frame [OF u] by auto
    moreover have "r = Inr ps \<Longrightarrow> length ps \<le> length qs" for ps
      using assms u Inr
      by (auto simp: candidate_providers_def op_bind_def Let_def split: if_splits
          intro: order.trans [OF length_filter_le])
    ultimately show ?thesis by (fastforce split: sum.splits)
  qed
  ultimately show ?thesis by simp
qed

lemma complete_outcome:
  assumes "complete w cfg c s = (r, s')"
  shows "gw_calls s' \<le> gw_calls s + length (gc_providers cfg) * nat (max_retries (gc_routing cfg) + 1) \<and>
     (case r of Inl e \<Rightarrow> same_books s s' | Inr rec \<Rightarrow> charged cfg c rec s s')"
proof (cases "s' = s \<and> (\<exists>e. r = Inl e)")
  case True
  then show ?thesis by (auto simp: same_books_def)
next
  case False
  with assms have run: "op_bind (candidate_providers w cfg (c_model c)) (\<lambda>ps. try_providers w cfg c ps 0) s = (r, s')"
    by (auto simp: complete_def Let_def split: if_splits sum.splits)
  obtain r1 s1 where cand: "candidate_providers w cfg (c_model c) s = (r1, s1)" by fastforce
  note frame = candidate_providers_frame [OF cand]
  show ?thesis
  proof (cases r1)
    case (Inl e)
    with run cand frame show ?thesis by (auto simp: op_bind_def)
  next
    case (Inr ps)
    with run cand have tried: "try_providers w cfg c ps 0 s1 = (r, s')" by (simp add: op_bind_def)
    have "length ps * nat (max_retries (gc_routing cfg) + 1) \<le>
        length (gc_providers cfg) * nat (max_retries (gc_routing cfg) + 1)"
      using frame Inr by (intro mult_le_mono1) simp
    with try_providers_outcome [OF tried] frame
    have "gw_calls s' \<le> gw_calls s + length (gc_providers cfg) * nat (max_retries (gc_routing cfg) + 1)"
      by linarith
    with try_providers_outcome [OF tried] frame show ?thesis
      by (auto split: sum.splits intro: charged_same same_books_trans)
  qed
qed

subsection \<open>Budgets\<close>

definition tenant_costs :: "string \<Rightarrow> llm_record list \<Rightarrow> rat" where
  "tenant_costs t us = sum_list (map l_cost (filter (\<lambda>u. l_tenant_id u = t) us))"

definition books_ok :: "gateway_config \<Rightarrow> gateway \<Rightarrow> bool" where
  "books_ok cfg s \<longleftrightarrow> (\<forall>t. dict_get_default (gw_spent s) t 0 = tenant_costs t (gw_usage s) \<and>
     tenant_costs t (gw_usage s) \<le> max 0 (tenant_budget_usd (gc_cost cfg)))"

text \<open>One call, in the world as it is at that moment.\<close>

fun call_step :: "gateway_config \<Rightarrow> world \<times> llm_call \<Rightarrow> gateway \<Rightarrow> gateway" where
  "call_step cfg (w, c) s = snd (complete w cfg c s)"

lemma tenant_costs_snoc:
  "tenant_costs t (us @ [u]) = tenant_costs t us + (if l_tenant_id u = t then l_cost u else 0)"
  by (simp add: tenant_costs_def)

lemma call_step_books_ok: "books_ok cfg s \<Longrightarrow> books_ok cfg (call_step cfg wc s)"
proof (cases wc)
  case (Pair w c)
  assume ok: "books_ok cfg s"
  obtain r s' where run: "complete w cfg c s = (r, s')" by fastforce
  from complete_outcome [OF this] have "books_ok cfg s'"
  proof (cases r)
    case (Inr rec)
    with complete_outcome [OF run] have "charged cfg c rec s s'" by simp
    with ok show ?thesis
      by (auto simp: books_ok_def charged_def tenant_costs_snoc dict_get_default_def split: option.splits)
  qed (use ok in \<open>auto simp: books_ok_def same_books_def\<close>)
  with Pair run show ?thesis by simp
qed

interpretation llm_books: invariant_system "call_step cfg" "books_ok cfg" for cfg
  by unfold_locales (rule call_step_books_ok)

lemma new_gateway_books_ok: "books_ok cfg (new_gateway cfg)"
  by (simp add: books_ok_def new_gateway_def tenant_costs_def dict_get_default_def)

subsection \<open>Server errors\<close>

definition server_error :: "world \<Rightarrow> llm_call \<Rightarrow> Provider \<Rightarrow> bool" where
  "server_error w c p \<longleftrightarrow> (\<forall>model s. \<exists>code s'. adapter_chat w p model (c_message c) (c_stream c) s =
     (Inl (HTTPStatusError code), s') \<and> (500 \<le> code \<or> code = 429))"

lemma server_error_attempt:
  assumes "server_error w c p"
  obtains code s' where "attempt w cfg c p model errors s = (Inl (HTTPStatusError code), s')"
    "500 \<le> code \<or> code = 429" "gw_health s' = gw_health s"
proof -
  from assms obtain code s' where chat: "adapter_chat w p model (c_message c) (c_stream c) s = (Inl (HTTPStatusError code), s')"
    and code: "500 \<le> code \<or> code = 429" unfolding server_error_def by blast
  moreover have "gw_health s' = gw_health s"
    using chat by (auto simp: adapter_chat_def dest: adapter_post_frame)
  ultimately show ?thesis by (intro that [of code s']) (simp_all add: attempt_def op_bind_def)
qed

lemma server_error_attempts:
  assumes "server_error w c p"
  shows "\<exists>s'. attempts w cfg c p model as errors s = (Inr (None, errors + length as), s') \<and> gw_health s' = gw_health s"
proof (induction as arbitrary: errors s)
  case Nil
  show ?case by simp
next
  case (Cons a as)
  obtain code s1 where "attempt w cfg c p model errors s = (Inl (HTTPStatusError code), s1)"
    "500 \<le> code \<or> code = 429" "gw_health s1 = gw_health s"
    using server_error_attempt [OF assms] .
  moreover have "gw_health (snd (sleep cfg a s1)) = gw_health s1" by (simp add: sleep_def)
  ultimately show ?case using Cons.IH [of "errors + 1" "snd (sleep cfg a s1)"] by auto
qed

lemma server_error_providers:
  "\<forall>p \<in> set ps. server_error w c p \<Longrightarrow>
   \<exists>e s'. try_providers w cfg c ps errors s = (Inl e, s') \<and> gw_health s' = gw_health s"
proof (induction ps arbitrary: errors s)
  case Nil
  show ?case by simp
next
  case (Cons p ps)
  show ?case
  proof (cases "chosen_model (c_model c) p")
    case (Inl e)
    then show ?thesis by (simp add: op_bind_def lift_def)
  next
    case (Inr model)
    obtain k s1 where "attempts w cfg c p model [0..<nat (max_retries (gc_routing cfg) + 1)] errors s = (Inr (None, k), s1)"
      "gw_health s1 = gw_health s"
      using server_error_attempts [of w c p] Cons.prems by force
    with Inr Cons.IH [of k s1] Cons.prems show ?thesis by (simp add: op_bind_def lift_def)
  qed
qed

lemma usable_subset: "usable w ps s = (Inr qs, s') \<Longrightarrow> set qs \<subseteq> set ps"
proof (induction ps arbitrary: s qs)
  case (Cons p ps)
  then show ?case
    by (fastforce elim!: op_bind_InrE split: if_splits)
qed simp

lemma candidates_subset:
  "candidate_providers w cfg model s = (Inr ps, s') \<Longrightarrow> set ps \<subseteq> set (dict_values (gc_providers cfg))"
  unfolding candidate_providers_def
  by (elim op_bind_InrE) (fastforce simp: Let_def dest: usable_subset split: if_splits)

lemma server_error_call:
  assumes "\<forall>p \<in> set (dict_values (gc_providers cfg)). server_error w c p"
  shows "\<exists>e s'. complete w cfg c s = (Inl e, s') \<and> gw_health s' = gw_health s"
proof -
  obtain r1 s1 where cand: "candidate_providers w cfg (c_model c) s = (r1, s1)" by fastforce
  then have h: "gw_health s1 = gw_health s" using candidate_providers_frame by blast
  have "\<exists>e s'. op_bind (candidate_providers w cfg (c_model c)) (\<lambda>ps. try_providers w cfg c ps 0) s = (Inl e, s') \<and>
      gw_health s' = gw_health s"
  proof (cases r1)
    case (Inr ps)
    with cand candidates_subset assms have "\<forall>p \<in> set ps. server_error w c p" by blast
    from server_error_providers [OF this, of cfg 0 s1] cand Inr h show ?thesis by (auto simp: op_bind_def)
  qed (use cand h in \<open>simp add: op_bind_def\<close>)
  then show ?thesis by (auto simp: complete_def Let_def split: sum.splits)
qed

subsection \<open>Routing\<close>

definition offers :: "string option \<Rightarrow> Provider \<Rightarrow> bool" where
  "offers model p \<longleftrightarrow> (case model of None \<Rightarrow> True | Some m \<Rightarrow> m = [] \<or> m \<in> set (p_models p))"

definition allowed_model :: "gateway_config \<Rightarrow> string option \<Rightarrow> bool" where
  "allowed_model cfg model \<longleftrightarrow> (case model of None \<Rightarrow> True | Some m \<Rightarrow> m = [] \<or>
     model_allowlist (gc_routing cfg) = [] \<or> m \<in> set (model_allowlist (gc_routing cfg)))"

text \<open>Configured, by a key or as a local endpoint, with its circuit closed at a moment.\<close>

definition open_at :: "world \<Rightarrow> gateway \<Rightarrow> rat \<Rightarrow> Provider \<Rightarrow> bool" where
  "open_at w s now p \<longleftrightarrow> (api_key (getenv w) p \<noteq> None \<or> p_name p \<in> {''ollama'', ''vllm'', ''lm-studio''} \<and> p_base_url p \<noteq> []) \<and>
     (\<exists>h. health_of s (p_name p) = Inr h \<and> circuit_open_until h \<le> now)"

lemma open_at_eq:
  "open_at w s now p \<longleftrightarrow> configured (getenv w) p \<and> (\<exists>h. health_of s (p_name p) = Inr h \<and> available h now)"
  by (simp add: open_at_def configured_def available_def)

definition usable_at :: "world \<Rightarrow> gateway \<Rightarrow> rat \<Rightarrow> string option \<Rightarrow> Provider \<Rightarrow> bool" where
  "usable_at w s now model p \<longleftrightarrow> open_at w s now p \<and> offers model p"

lemma offers_simps [simp]:
  "offers None = (\<lambda>p. True)" "m \<noteq> [] \<Longrightarrow> offers (Some m) = (\<lambda>p. m \<in> set (p_models p))"
  "offers (Some []) = (\<lambda>p. True)"
  by (auto simp: offers_def fun_eq_iff)

lemma health_of_ticks [simp]: "health_of (s\<lparr>gw_ticks := n\<rparr>) name = health_of s name"
  by (simp add: health_of_def)

lemma open_at_mono: "open_at w s now p \<Longrightarrow> now \<le> now' \<Longrightarrow> open_at w s now' p"
  by (auto simp: open_at_eq available_def)

lemma open_at_ticks [simp]: "open_at w (s\<lparr>gw_ticks := n\<rparr>) now p = open_at w s now p"
  by (simp add: open_at_eq)

lemma usable_sandwich:
  "usable w ps s = (Inr qs, s') \<Longrightarrow> mono (clock w) \<Longrightarrow>
     {p \<in> set ps. open_at w s (clock w (gw_ticks s)) p} \<subseteq> set qs \<and>
     set qs \<subseteq> {p \<in> set ps. open_at w s (clock w (gw_ticks s')) p}"
proof (induction ps arbitrary: s qs)
  case Nil
  then show ?case by simp
next
  case (Cons p ps)
  show ?case
  proof (cases "configured (getenv w) p")
    case False
    with Cons.prems Cons.IH [of s qs] show ?thesis by (auto simp: open_at_eq)
  next
    case True
    let ?s = "s\<lparr>gw_ticks := gw_ticks s + 1\<rparr>" and ?now = "clock w (gw_ticks s)"
    from True Cons.prems(1) obtain h rest where h: "health_of s (p_name p) = Inr h"
      and rest: "usable w ps ?s = (Inr rest, s')" and qs: "qs = (if available h ?now then p # rest else rest)"
      by (auto simp: tick_def elim!: op_bind_InrE)
    from usable_frame [OF rest] have "gw_ticks s \<le> gw_ticks s'" by auto
    then have "?now \<le> clock w (gw_ticks s')" "?now \<le> clock w (gw_ticks s + 1)"
      using Cons.prems(2) by (auto simp: mono_def)
    moreover have "open_at w s now p = available h now" for now using True h by (simp add: open_at_eq)
    ultimately show ?thesis
      using Cons.IH [OF rest Cons.prems(2)] qs by (auto simp: available_def intro: open_at_mono)
  qed
qed

lemma candidates_Inr:
  assumes "candidate_providers w cfg model s = (Inr ps, s')"
  shows "\<exists>qs. usable w (dict_values (gc_providers cfg)) s = (Inr qs, s') \<and> ps \<noteq> [] \<and> allowed_model cfg model \<and>
    ps = filter (offers model) (sort_key p_priority qs)"
  using assms unfolding candidate_providers_def
  by (elim op_bind_InrE)
    (auto simp: Let_def allowed_model_def split: if_splits option.splits)

subsection \<open>Properties\<close>

text \<open>
  C23: A completion is charged exactly once, and only when it is returned: after a call that
  returns a record, that record is the newest usage record, its cost is the estimate for its token
  counts and was added to the calling tenant's spending without exceeding the tenant's budget;
  after a call that raises, spending and usage are what they were, whatever providers, retries and
  failures came in between. A call makes at most one outbound request per provider and attempt.
\<close>

theorem completion_charged_once:
  "case complete w cfg c s of (r, s') \<Rightarrow>
     gw_calls s' \<le> gw_calls s + length (gc_providers cfg) * nat (max_retries (gc_routing cfg) + 1) \<and>
     (case r of Inl e \<Rightarrow> same_books s s' | Inr rec \<Rightarrow> charged cfg c rec s s')"
  using complete_outcome [of w cfg c s] by (auto split: prod.splits)

text \<open>
  C24: Whatever calls are made, by whatever tenants, and whatever the providers answer, the
  spending booked for each tenant is the sum of the costs of that tenant's usage records, and it
  never exceeds the tenant's budget.
\<close>

theorem budget_never_exceeded:
  assumes "0 \<le> tenant_budget_usd (gc_cost cfg)"
  shows "let s = fold (call_step cfg) calls (new_gateway cfg) in
    dict_get_default (gw_spent s) t 0 = tenant_costs t (gw_usage s) \<and>
    tenant_costs t (gw_usage s) \<le> tenant_budget_usd (gc_cost cfg)"
  using llm_books.run_inv [OF new_gateway_books_ok, of cfg calls] assms
  by (auto simp: books_ok_def Let_def)

text \<open>A network whose providers all answer alike, and a world with one of them configured.\<close>

definition answering :: "int \<Rightarrow> json \<Rightarrow> net" where
  "answering code body = \<lparr>getaddrinfo = (\<lambda>sent host port. Inr [''93.184.216.34'']),
     transport = (\<lambda>sent req. Inr \<lparr>status_code = code, location = None, content_type = Some ''application/json'',
        content_length = 2, body_json = Inr body\<rparr>),
     url_join = (\<lambda>base target. Inr target), monotonic = (\<lambda>i. 0)\<rparr>"

definition example_world :: "net \<Rightarrow> world" where
  "example_world n = \<lparr>getenv = (\<lambda>v. if v = ''OPENAI_API_KEY'' then Some ''k'' else None), network = (\<lambda>i. n),
     clock = (\<lambda>i. of_nat i), latency = (\<lambda>i. 0), wall_time = (\<lambda>i. 0)\<rparr>"

definition example_answer :: json where
  "example_answer = JObj [(''choices'', JList [JObj [(''message'', JObj [(''content'', JStr ''hi there'')])]])]"

definition example_call :: llm_call where
  "example_call = \<lparr>c_message = ''hello'', c_model = None, c_stream = False, c_tenant = ''acme'', c_request_id = ''r1''\<rparr>"

definition example_config :: gateway_config where
  "example_config = default_gateway (\<lambda>v. None)"

lemma example_run: "tenant_costs ''acme'' (gw_usage (fold (call_step example_config)
    [(example_world (answering 200 example_answer), example_call)] (new_gateway example_config))) = 3 / 1000000"
  by code_simp

theorem budget_never_exceeded_witness:
  "dict_get_default (gw_spent (fold (call_step example_config)
    [(example_world (answering 200 example_answer), example_call)] (new_gateway example_config))) ''acme'' 0 = 3 / 1000000"
proof -
  have "0 \<le> tenant_budget_usd (gc_cost example_config)" by code_simp
  from budget_never_exceeded [OF this, of "[(example_world (answering 200 example_answer), example_call)]" "''acme''"]
  show ?thesis unfolding Let_def using example_run by simp
qed

definition example_provider :: Provider where
  "example_provider = snd (hd (default_providers (\<lambda>v. None)))"

lemma example_candidates: "candidate_providers (example_world (answering 200 JNull)) example_config
    (Some ''gpt-4.1'') (new_gateway example_config) =
    (Inr [example_provider], (new_gateway example_config)\<lparr>gw_ticks := 1\<rparr>)"
  by code_simp

text \<open>
  C29: Routing picks exactly the providers that may be used, in order of priority: when
  \<^verbatim>\<open>_candidate_providers\<close> returns, the list is not empty and sorted by priority, a requested model is
  on the allow list, if there is one, and offered by every provider in the list, and with a clock
  that never goes back the list holds every configured provider (with a key, or local with a base URL) offering the model whose circuit
  was closed when the call began, and none whose circuit was still open when it ended.
\<close>

theorem candidates_exact:
  assumes "candidate_providers w cfg model s = (Inr ps, s')"
    and "mono (clock w)"
  shows "ps \<noteq> [] \<and> sorted (map p_priority ps) \<and> allowed_model cfg model \<and>
    {p \<in> set (dict_values (gc_providers cfg)). usable_at w s (clock w (gw_ticks s)) model p} \<subseteq> set ps \<and>
    set ps \<subseteq> {p \<in> set (dict_values (gc_providers cfg)). usable_at w s (clock w (gw_ticks s')) model p}"
proof -
  from candidates_Inr [OF assms(1)] obtain qs where
      qs: "usable w (dict_values (gc_providers cfg)) s = (Inr qs, s')" and ps: "ps \<noteq> []" "allowed_model cfg model"
      "ps = filter (\<lambda>p. offers model p) (sort_key p_priority qs)"
    by blast
  have "sorted (map p_priority ps)" unfolding ps(3) by (rule sorted_filter) simp
  moreover note usable_sandwich [OF qs assms(2)]
  ultimately show ?thesis using ps by (auto simp: usable_at_def open_at_eq)
qed

theorem candidates_exact_witness:
  "usable_at (example_world (answering 200 JNull)) (new_gateway example_config) 1 (Some ''gpt-4.1'') example_provider"
proof -
  have "mono (clock (example_world (answering 200 JNull)))" by (simp add: example_world_def mono_def)
  from candidates_exact [OF example_candidates this] show ?thesis by (simp add: example_world_def)
qed

text \<open>
  A provider that keeps answering with server errors or \<^verbatim>\<open>429\<close> is never taken out of rotation:
  while all providers answer so, every call fails, however often it is repeated, and leaves every
  provider's failure count and circuit as they were, so the circuit breaker never opens.
\<close>

lemma server_errors_keep_circuit_closed:
  assumes "\<forall>p \<in> set (dict_values (gc_providers cfg)). server_error w c p"
  shows "gw_health (fold (call_step cfg) (replicate n (w, c)) s) = gw_health s \<and>
    (\<exists>e. fst (complete w cfg c (fold (call_step cfg) (replicate n (w, c)) s)) = Inl e)"
proof -
  have "gw_health (call_step cfg (w, c) s) = gw_health s" for s
    using server_error_call [OF assms, of s] by auto
  then have "gw_health (fold (call_step cfg) (replicate n (w, c)) s) = gw_health s"
    by (induction n arbitrary: s) simp_all
  with server_error_call [OF assms] show ?thesis by (metis fst_conv)
qed

lemma example_validated: "validate_outbound_url (answering 503 JNull) adapter_policy [] sent
    ''https://api.openai.com/v1/chat/completions'' = Inr ''https://api.openai.com/v1/chat/completions''"
  by code_simp

lemma example_down: "server_error (example_world (answering 503 JNull)) example_call example_provider"
proof -
  have url: "rstrip_char (CHR ''/'') (p_base_url example_provider) @ p_chat_path example_provider =
      ''https://api.openai.com/v1/chat/completions''" by code_simp
  have json: "lower (strip ''application/json'') = ''application/json''" by code_simp
  show ?thesis
    unfolding server_error_def adapter_chat_def adapter_post_def url http_post_def request_def
    by (simp add: example_world_def example_validated)
      (simp add: request_loop.simps answering_def is_redirect_def accept_response_def media_type_def
        adapter_policy_def default_policy_def raise_for_status_def and_then_def json)
qed

end
