(* ===== verification/Knowledge_Graph.thy ===== *)
theory Knowledge_Graph
  imports Access_Control
begin

section \<open>The knowledge graph (knowledge_graph/core.py)\<close>

text \<open>
  \<^verbatim>\<open>KnowledgeGraph\<close> of \<^verbatim>\<open>agi_platform/knowledge_graph/core.py\<close>: one dictionary of nodes and one
  list of edges for all tenants, with the tenant in the key \<^verbatim>\<open>f"{tenant}:{entity}"\<close> of a node and in
  a field of every node and edge. The specification gives each tenant a graph of its own. Shown:
  for tenants without a colon in their name the shared graph refines the separate graphs; with a
  colon in the name a tenant can overwrite another tenant's node.
\<close>

subsection \<open>The graph\<close>

record node =
  n_id :: string
  n_tenant_id :: string
  n_labels :: "string list"
  n_properties :: "(string, json) dict"

record edge =
  e_tenant_id :: string
  e_source :: string
  e_target :: string
  e_relationship :: string
  e_properties :: "(string, json) dict"

record graph =
  nodes :: "(string, node) dict"
  edges :: "edge list"

record graph_match =
  g_query :: string
  g_nodes :: "node list"
  g_relationships :: "edge list"

definition empty_graph :: graph where
  "empty_graph = \<lparr>nodes = [], edges = []\<rparr>"

text \<open>\<^verbatim>\<open>properties or {}\<close>.\<close>

definition or_empty :: "(string, json) dict option \<Rightarrow> (string, json) dict" where
  "or_empty p = (case p of None \<Rightarrow> [] | Some d \<Rightarrow> d)"

definition upsert_entity ::
    "TenantContext option \<Rightarrow> string \<Rightarrow> string list \<Rightarrow> (string, json) dict option \<Rightarrow> (graph, node) sop" where
  "upsert_entity context entity_id labels properties s = (case context of
     None \<Rightarrow> (Inl (PermissionError ''tenant context required''), s)
   | Some c \<Rightarrow>
      (let node = \<lparr>n_id = entity_id, n_tenant_id = ctx_tenant_id c, n_labels = labels, n_properties = or_empty properties\<rparr>
       in (Inr node, s\<lparr>nodes := dict_set (colon_key (ctx_tenant_id c) entity_id) node (nodes s)\<rparr>)))"

definition relate ::
    "TenantContext option \<Rightarrow> string \<Rightarrow> string \<Rightarrow> string \<Rightarrow> (string, json) dict option \<Rightarrow> (graph, edge) sop" where
  "relate context source target relationship properties s = (case context of
     None \<Rightarrow> (Inl (PermissionError ''tenant context required''), s)
   | Some c \<Rightarrow>
      (let skey = colon_key (ctx_tenant_id c) source;
           tkey = colon_key (ctx_tenant_id c) target
       in if skey \<notin> set (dict_keys (nodes s)) \<or> tkey \<notin> set (dict_keys (nodes s))
          then (Inl (KeyError ''both source and target nodes must exist in tenant''), s)
          else let edge = \<lparr>e_tenant_id = ctx_tenant_id c, e_source = source, e_target = target,
                            e_relationship = relationship, e_properties = or_empty properties\<rparr>
               in (Inr edge, s\<lparr>edges := edges s @ [edge]\<rparr>)))"

definition node_matches :: "string \<Rightarrow> node \<Rightarrow> bool" where
  "node_matches lowered n = (contains lowered (lower (n_id n)) \<or>
     list_ex (\<lambda>label. contains lowered (lower label)) (n_labels n))"

definition graph_search :: "TenantContext option \<Rightarrow> string \<Rightarrow> (graph, graph_match) sop" where
  "graph_search context query s = (case context of
     None \<Rightarrow> (Inl (PermissionError ''tenant context required''), s)
   | Some c \<Rightarrow>
      (let found = filter (\<lambda>n. n_tenant_id n = ctx_tenant_id c \<and> node_matches (lower query) n) (dict_values (nodes s));
           node_ids = map n_id found
       in (Inr \<lparr>g_query = query, g_nodes = found,
                g_relationships = filter (\<lambda>e. e_tenant_id e = ctx_tenant_id c \<and>
                  (e_source e \<in> set node_ids \<or> e_target e \<in> set node_ids)) (edges s)\<rparr>, s)))"

subsection \<open>Calls\<close>

datatype graph_call =
    Upsert_entity "TenantContext option" string "string list" "(string, json) dict option"
  | Relate "TenantContext option" string string string "(string, json) dict option"
  | Graph_search "TenantContext option" string

datatype graph_answer = A_node node | A_edge edge | A_match graph_match

definition answer :: "('a \<Rightarrow> 'b) \<Rightarrow> ('s, 'a) sop \<Rightarrow> 's \<Rightarrow> 'b result \<times> 's" where
  "answer f m s = (case m s of (r, s') \<Rightarrow> (map_sum id f r, s'))"

fun graph_step :: "graph_call \<Rightarrow> graph \<Rightarrow> graph_answer result \<times> graph" where
  "graph_step (Upsert_entity c e ls ps) = answer A_node (upsert_entity c e ls ps)"
| "graph_step (Relate c x y r ps) = answer A_edge (relate c x y r ps)"
| "graph_step (Graph_search c q) = answer A_match (graph_search c q)"

subsection \<open>Specification: a graph per tenant\<close>

text \<open>A tenant's own graph: its entities by name, in the order they were first stored, and its edges.\<close>

record tenant_graph =
  t_entities :: "(string, node) dict"
  t_edges :: "edge list"

definition tenant_upsert :: "string \<Rightarrow> string \<Rightarrow> string list \<Rightarrow> (string, json) dict \<Rightarrow> tenant_graph \<Rightarrow> node result \<times> tenant_graph" where
  "tenant_upsert t e ls ps g =
     (let n = \<lparr>n_id = e, n_tenant_id = t, n_labels = ls, n_properties = ps\<rparr>
      in (Inr n, g\<lparr>t_entities := dict_set e n (t_entities g)\<rparr>))"

definition tenant_relate :: "string \<Rightarrow> string \<Rightarrow> string \<Rightarrow> string \<Rightarrow> (string, json) dict \<Rightarrow> tenant_graph \<Rightarrow> edge result \<times> tenant_graph" where
  "tenant_relate t x y r ps g =
     (if {x, y} \<subseteq> set (dict_keys (t_entities g))
      then let ed = \<lparr>e_tenant_id = t, e_source = x, e_target = y, e_relationship = r, e_properties = ps\<rparr>
           in (Inr ed, g\<lparr>t_edges := t_edges g @ [ed]\<rparr>)
      else (Inl (KeyError ''both source and target nodes must exist in tenant''), g))"

definition tenant_search :: "string \<Rightarrow> tenant_graph \<Rightarrow> graph_match" where
  "tenant_search q g =
     (let found = filter (node_matches (lower q)) (dict_values (t_entities g))
      in \<lparr>g_query = q, g_nodes = found,
          g_relationships = filter (\<lambda>e. {e_source e, e_target e} \<inter> n_id ` set found \<noteq> {}) (t_edges g)\<rparr>)"

type_synonym graphs = "string \<Rightarrow> tenant_graph"

fun caller :: "graph_call \<Rightarrow> TenantContext option" where
  "caller (Upsert_entity c e ls ps) = c"
| "caller (Relate c x y r ps) = c"
| "caller (Graph_search c q) = c"

text \<open>A call without a context is refused; the others work on the graph of the context's tenant.\<close>

fun tenant_call :: "string \<Rightarrow> graph_call \<Rightarrow> tenant_graph \<Rightarrow> graph_answer result \<times> tenant_graph" where
  "tenant_call t (Upsert_entity c e ls ps) g = answer A_node (tenant_upsert t e ls (or_empty ps)) g"
| "tenant_call t (Relate c x y r ps) g = answer A_edge (tenant_relate t x y r (or_empty ps)) g"
| "tenant_call t (Graph_search c q) g = (Inr (A_match (tenant_search q g)), g)"

definition graphs_step :: "graph_call \<Rightarrow> graphs \<Rightarrow> graph_answer result \<times> graphs" where
  "graphs_step x gs = (case caller x of
     None \<Rightarrow> (Inl (PermissionError ''tenant context required''), gs)
   | Some c \<Rightarrow> (case tenant_call (ctx_tenant_id c) x (gs (ctx_tenant_id c)) of
       (r, g) \<Rightarrow> (r, gs(ctx_tenant_id c := g))))"

subsection \<open>Refinement\<close>

definition plain_tenant :: "graph_call \<Rightarrow> bool" where
  "plain_tenant x = (case caller x of None \<Rightarrow> True | Some c \<Rightarrow> CHR '':'' \<notin> set (ctx_tenant_id c))"

definition own_entities :: "string \<Rightarrow> (string, node) dict \<Rightarrow> (string, node) dict" where
  "own_entities t d = map (\<lambda>(k, n). (n_id n, n)) (filter (\<lambda>(k, n). n_tenant_id n = t) d)"

definition graph_abs :: "graph \<Rightarrow> graphs" where
  "graph_abs s t = \<lparr>t_entities = own_entities t (nodes s), t_edges = filter (\<lambda>e. e_tenant_id e = t) (edges s)\<rparr>"

definition keyed :: "string \<times> node \<Rightarrow> bool" where
  "keyed = (\<lambda>(k, n). k = colon_key (n_tenant_id n) (n_id n) \<and> CHR '':'' \<notin> set (n_tenant_id n))"

definition graph_inv :: "graph \<Rightarrow> bool" where
  "graph_inv s \<longleftrightarrow> list_all keyed (nodes s)"

lemma own_entities_simps [simp]:
  "own_entities t [] = []"
  "own_entities t ((k, n) # d) = (if n_tenant_id n = t then (n_id n, n) # own_entities t d else own_entities t d)"
  by (simp_all add: own_entities_def)

lemma own_entities_set:
  assumes "list_all keyed d" and "keyed (k, n)"
  shows "own_entities t (dict_set k n d) =
    (if n_tenant_id n = t then dict_set (n_id n) n (own_entities t d) else own_entities t d)"
  using assms by (induction d) (auto simp: keyed_def colon_key_inject)

lemma own_entities_keys:
  assumes "list_all keyed d" and "CHR '':'' \<notin> set t"
  shows "e \<in> fst ` set (own_entities t d) \<longleftrightarrow> colon_key t e \<in> fst ` set d"
  using assms(1)
proof (induction d)
  case (Cons x d)
  obtain k n where "x = (k, n)" by fastforce
  with Cons assms(2) show ?case
    by (cases "n_tenant_id n = t") (auto simp: keyed_def colon_key_inject)
qed simp

lemma own_entities_values: "dict_values (own_entities t d) = filter (\<lambda>n. n_tenant_id n = t) (dict_values d)"
  by (induction d) auto

lemma list_all_dict_set: "list_all P d \<Longrightarrow> P (k, v) \<Longrightarrow> list_all P (dict_set k v d)"
  by (induction k v d rule: dict_set.induct) auto

lemma graph_step_inv: "graph_inv s \<Longrightarrow> plain_tenant x \<Longrightarrow> graph_inv (snd (graph_step x s))"
  by (cases x)
    (auto simp: graph_inv_def plain_tenant_def answer_def upsert_entity_def relate_def graph_search_def
      Let_def keyed_def intro!: list_all_dict_set split: option.splits)

lemma upsert_refines:
  assumes "graph_inv s" and "plain_tenant (Upsert_entity (Some c) e ls ps)"
  shows "graphs_step (Upsert_entity (Some c) e ls ps) (graph_abs s) =
    map_prod id graph_abs (graph_step (Upsert_entity (Some c) e ls ps) s)"
  using assms
  by (auto simp: graph_inv_def plain_tenant_def answer_def upsert_entity_def graphs_step_def tenant_upsert_def
      graph_abs_def own_entities_set keyed_def Let_def fun_eq_iff)

lemma relate_refines:
  assumes "graph_inv s" and "plain_tenant (Relate (Some c) x y r ps)"
  shows "graphs_step (Relate (Some c) x y r ps) (graph_abs s) =
    map_prod id graph_abs (graph_step (Relate (Some c) x y r ps) s)"
proof -
  from assms have "{x, y} \<subseteq> set (dict_keys (own_entities (ctx_tenant_id c) (nodes s))) \<longleftrightarrow>
      \<not> (colon_key (ctx_tenant_id c) x \<notin> set (dict_keys (nodes s)) \<or> colon_key (ctx_tenant_id c) y \<notin> set (dict_keys (nodes s)))"
    unfolding graph_inv_def plain_tenant_def by (simp add: own_entities_keys)
  then show ?thesis
    by (simp add: answer_def relate_def graphs_step_def tenant_relate_def graph_abs_def Let_def fun_eq_iff del: insert_subset)
qed

lemma search_refines:
  "graphs_step (Graph_search (Some c) q) (graph_abs s) = map_prod id graph_abs (graph_step (Graph_search (Some c) q) s)"
  by (auto simp: answer_def graph_search_def graphs_step_def tenant_search_def graph_abs_def own_entities_values Let_def
      fun_eq_iff conj_commute intro: filter_cong)

interpretation graph: simulation graph_step graphs_step graph_abs graph_inv plain_tenant
proof unfold_locales
  fix s x
  assume ok: "graph_inv s" "plain_tenant x"
  then show "graph_inv (snd (graph_step x s))" by (rule graph_step_inv)
  show "graphs_step x (graph_abs s) = map_prod id graph_abs (graph_step x s)"
  proof (cases "caller x")
    case None
    then show ?thesis
      by (cases x) (simp_all add: graphs_step_def answer_def upsert_entity_def relate_def graph_search_def)
  next
    case (Some c)
    then show ?thesis using ok upsert_refines relate_refines search_refines by (cases x) simp_all
  qed
qed

text \<open>
  C16: The one graph shared by all tenants behaves like a separate graph per tenant. For every
  sequence of calls whose tenants have no colon in their name, each call returns exactly what it
  would return on the graph of the caller's tenant alone, errors included: no tenant ever sees,
  overwrites or links to an entity of another, and what is stored is found again.
\<close>

theorem graph_refines_tenant_graphs:
  assumes "list_all plain_tenant xs"
  shows "outcomes graphs_step xs (\<lambda>t. \<lparr>t_entities = [], t_edges = []\<rparr>) =
    map_prod id graph_abs (outcomes graph_step xs empty_graph)"
proof -
  have "graph_abs empty_graph = (\<lambda>t. \<lparr>t_entities = [], t_edges = []\<rparr>)" "graph_inv empty_graph"
    by (auto simp: graph_abs_def empty_graph_def graph_inv_def)
  with graph.run_refines [of empty_graph xs] assms show ?thesis by simp
qed

definition example_context :: "string \<Rightarrow> TenantContext" where
  "example_context t = \<lparr>ctx_tenant_id = t, ctx_identity = \<lparr>id_subject = ''u'', id_tenant_id = t, roles = {},
     permissions = {''*''}, key_id = ''k'', identity_type = ''user''\<rparr>, ctx_request_id = ''r''\<rparr>"

definition example_graph_calls :: "graph_call list" where
  "example_graph_calls =
    [Upsert_entity (Some (example_context ''acme'')) ''b'' [''Host''] None,
     Upsert_entity (Some (example_context ''evil'')) ''b'' [''Other''] None,
     Graph_search (Some (example_context ''acme'')) ''host'']"

theorem graph_refines_tenant_graphs_witness:
  "fst (outcomes graphs_step example_graph_calls (\<lambda>t. \<lparr>t_entities = [], t_edges = []\<rparr>)) =
   fst (outcomes graph_step example_graph_calls empty_graph)"
  using graph_refines_tenant_graphs [of example_graph_calls]
  by (simp add: example_graph_calls_def plain_tenant_def example_context_def del: outcomes.simps)

text \<open>
  Where tenant names may contain a colon, the refinement fails: the key of entity \<^verbatim>\<open>b:c\<close> of tenant
  \<^verbatim>\<open>a\<close> is the key of entity \<^verbatim>\<open>c\<close> of tenant \<^verbatim>\<open>a:b\<close>, so the second tenant's upsert
  deletes the first tenant's entity: a search by the first tenant that found it before finds
  nothing after.
\<close>

lemma graph_key_collision:
  "let a = Some (example_context ''a''); ab = Some (example_context ''a:b'');
       s1 = snd (upsert_entity a ''b:c'' [''Host''] None empty_graph);
       s2 = snd (upsert_entity ab ''c'' [''Host''] None s1)
   in (\<exists>m. fst (graph_search a ''host'' s1) = Inr m \<and> map n_id (g_nodes m) = [''b:c'']) \<and>
      (\<exists>m. fst (graph_search a ''host'' s2) = Inr m \<and> g_nodes m = [])"
proof -
  have low: "lower ''host'' = ''host''" "lower ''b:c'' = ''b:c''" "lower ''Host'' = ''host''" "lower ''c'' = ''c''"
    by code_simp+
  show ?thesis
    by (simp add: Let_def upsert_entity_def graph_search_def empty_graph_def example_context_def colon_key_def
        node_matches_def low)
qed

end
