(* ===== verification/Sandbox.thy ===== *)
theory Sandbox
  imports Py_Core
begin

section \<open>The sandbox (sandbox/core.py)\<close>

text \<open>
  \<^verbatim>\<open>SandboxIsolationProfile\<close>, \<^verbatim>\<open>SandboxPolicy\<close> and \<^verbatim>\<open>SandboxLab\<close> of
  \<^verbatim>\<open>agi_platform/sandbox/core.py\<close>, with \<^verbatim>\<open>shlex.join\<close> and \<^verbatim>\<open>shlex.quote\<close>. The operating system is
  the argument \<open>run\<close>: what came of a process that was started with given arguments, environment,
  limits and time limit, in a temporary directory that is removed afterwards (the directory itself is not modelled). The state holds the recorded runs and, for the statements, the processes
  started. Shown: every process that is ever started runs an allowed program, with no argument
  that contains a denied token, under the policy's limits, and what is recorded is bounded.
\<close>

subsection \<open>Tables\<close>

definition ALLOWED_COMMANDS :: "string list" where
  "ALLOWED_COMMANDS = [''python'', ''python3'', ''echo'']"

definition SAFE_ENV :: "(string, string) dict" where
  "SAFE_ENV = [(''LANG'', ''C.UTF-8''), (''LC_ALL'', ''C.UTF-8''), (''PATH'', ''/usr/bin:/bin'')]"

definition DENIED_TOKENS :: "string list" where
  "DENIED_TOKENS = [''/var/run/docker.sock'', ''docker.sock'', ''169.254.169.254'', ''metadata.google.internal'',
     ''100.100.100.200'', ''/etc/passwd'', ''/root'', ''/home'', ''/proc/sys'', ''/sys'', ''127.0.0.1'', ''10.0.0.1'',
     ''192.168.'', ''172.16.'', ''mount'', ''unshare'', ''nsenter'', ''curl'', ''wget'', ''nc'', ''nmap'', ''ssh'']"

subsection \<open>shlex\<close>

definition shell_safe :: "char \<Rightarrow> bool" where
  "shell_safe c = (let n = (of_char c :: nat) in
     (97 \<le> n \<and> n \<le> 122) \<or> (65 \<le> n \<and> n \<le> 90) \<or> (48 \<le> n \<and> n \<le> 57) \<or> c \<in> set ''_@%+=:,./-'')"

definition squote :: char where
  "squote = CHR 0x27"

definition escape_squote :: "char \<Rightarrow> string" where
  "escape_squote c = (if c = squote then [squote, CHR 0x22, squote, CHR 0x22, squote] else [c])"

definition shlex_quote :: "string \<Rightarrow> string" where
  "shlex_quote s = (if s = [] then [squote, squote] else if list_all shell_safe s then s
     else squote # concat (map escape_squote s) @ [squote])"

definition shlex_join :: "string list \<Rightarrow> string" where
  "shlex_join ws = join '' '' (map shlex_quote ws)"

subsection \<open>Policy\<close>

record SandboxIsolationProfile =
  isolation :: string
  non_root :: bool
  read_only_rootfs :: bool
  ephemeral_workspace :: bool
  no_host_mounts :: bool
  docker_socket :: string
  dropped_capabilities :: "string list"
  seccomp :: string
  apparmor :: string
  selinux :: string
  network_default :: string
  secret_mounts :: string

definition default_profile :: SandboxIsolationProfile where
  "default_profile = \<lparr>isolation = ''container-or-microvm-required'', non_root = True, read_only_rootfs = True,
     ephemeral_workspace = True, no_host_mounts = True, docker_socket = ''blocked'', dropped_capabilities = [''ALL''],
     seccomp = ''runtime-default'', apparmor = ''runtime-default-if-available'', selinux = ''enforcing-if-available'',
     network_default = ''disabled'', secret_mounts = ''none''\<rparr>"

definition profile_as_dict :: "SandboxIsolationProfile \<Rightarrow> (string, json) dict" where
  "profile_as_dict p = [(''isolation'', JStr (isolation p)), (''non_root'', JBool (non_root p)),
     (''read_only_rootfs'', JBool (read_only_rootfs p)), (''ephemeral_workspace'', JBool (ephemeral_workspace p)),
     (''no_host_mounts'', JBool (no_host_mounts p)), (''docker_socket'', JStr (docker_socket p)),
     (''dropped_capabilities'', JList (map JStr (dropped_capabilities p))), (''seccomp'', JStr (seccomp p)),
     (''apparmor'', JStr (apparmor p)), (''selinux'', JStr (selinux p)),
     (''network_default'', JStr (network_default p)), (''secret_mounts'', JStr (secret_mounts p))]"

record SandboxPolicy =
  allowed_commands :: "string list"
  timeout_seconds :: int
  max_timeout_seconds :: int
  cpu_seconds :: int
  memory_bytes :: int
  max_output_bytes :: int
  pid_limit :: int
  disk_bytes :: int
  network_mode :: string
  network_allowlist :: "string list"
  isolation_profile :: SandboxIsolationProfile

definition default_sandbox :: SandboxPolicy where
  "default_sandbox = \<lparr>allowed_commands = ALLOWED_COMMANDS, timeout_seconds = 5, max_timeout_seconds = 10, cpu_seconds = 2,
     memory_bytes = 128 * 1024 * 1024, max_output_bytes = 64 * 1024, pid_limit = 16, disk_bytes = 16 * 1024 * 1024,
     network_mode = ''host-disabled-by-policy'', network_allowlist = [], isolation_profile = default_profile\<rparr>"

definition validate :: "SandboxPolicy \<Rightarrow> string list \<Rightarrow> int \<Rightarrow> int result" where
  "validate policy command timeout =
     (if command = [] \<or> hd command \<notin> set (allowed_commands policy)
      then Inl (ValueError ''command is not allowed by sandbox policy'')
      else if list_ex (\<lambda>token. contains token (shlex_join command)) DENIED_TOKENS
      then Inl (ValueError ''command attempts to access blocked sandbox boundary'')
      else if timeout < 1 then Inl (ValueError ''timeout must be at least 1 second'')
      else Inr (min timeout (max_timeout_seconds policy)))"

definition policy_as_dict :: "SandboxPolicy \<Rightarrow> (string, json) dict" where
  "policy_as_dict p = [(''allowed_commands'', JList (map JStr (sorted_set (allowed_commands p)))),
     (''max_timeout_seconds'', JInt (max_timeout_seconds p)), (''cpu_seconds'', JInt (cpu_seconds p)),
     (''memory_bytes'', JInt (memory_bytes p)), (''max_output_bytes'', JInt (max_output_bytes p)),
     (''pid_limit'', JInt (pid_limit p)), (''disk_bytes'', JInt (disk_bytes p)), (''network'', JStr (network_mode p)),
     (''network_allowlist'', JList (map JStr (sorted_set (network_allowlist p)))),
     (''isolation_profile'', JObj (profile_as_dict (isolation_profile p)))]"

subsection \<open>Processes\<close>

datatype rlimit = RLIMIT_CPU | RLIMIT_AS | RLIMIT_FSIZE | RLIMIT_NOFILE | RLIMIT_NPROC

text \<open>What the child does before it runs the program: a session of its own, and its limits, soft and hard.\<close>

datatype preexec = Setsid | Setrlimit rlimit "int \<times> int"

definition apply_process_limits :: "SandboxPolicy \<Rightarrow> preexec list" where
  "apply_process_limits p = [Setsid, Setrlimit RLIMIT_CPU (cpu_seconds p, cpu_seconds p),
     Setrlimit RLIMIT_AS (memory_bytes p, memory_bytes p), Setrlimit RLIMIT_FSIZE (disk_bytes p, disk_bytes p),
     Setrlimit RLIMIT_NOFILE (32, 32), Setrlimit RLIMIT_NPROC (pid_limit p, pid_limit p)]"

record process =
  pr_command :: "string list"
  pr_timeout :: int
  pr_env :: "(string, string) dict"
  pr_preexec :: "preexec list"

text \<open>
  What was captured: text when the process completed, but on a timeout the exception carries the
  bytes read so far, or nothing.
\<close>

datatype captured = Text string | Bytes string

fun captured_length :: "captured \<Rightarrow> nat" where
  "captured_length (Text s) = length s"
| "captured_length (Bytes s) = length s"

datatype process_end =
    Completed int string string
  | TimeoutExpired "string option" "string option"
  | Failed py_exn

record sandbox_result =
  sr_command :: "string list"
  sr_returncode :: int
  sr_stdout :: captured
  sr_stderr :: captured
  sr_timed_out :: bool
  sr_workspace_cleaned :: bool
  sr_policy :: "(string, json) dict"
  sr_runtime_ms :: rat

record lab =
  lab_runs :: "sandbox_result list"
  lab_started :: "process list"

definition new_lab :: lab where
  "new_lab = \<lparr>lab_runs = [], lab_started = []\<rparr>"

text \<open>\<^verbatim>\<open>(exc.stdout or "")[:n]\<close>: no bytes and empty bytes are both false.\<close>

definition partial_output :: "SandboxPolicy \<Rightarrow> string option \<Rightarrow> captured" where
  "partial_output policy t = (case t of None \<Rightarrow> Text []
     | Some b \<Rightarrow> if b = [] then Text [] else Bytes (slice_to (max_output_bytes policy) b))"

definition result_of :: "SandboxPolicy \<Rightarrow> string list \<Rightarrow> rat \<Rightarrow> process_end \<Rightarrow> sandbox_result result" where
  "result_of policy command ms e = (case e of
     Completed rc out err \<Rightarrow> Inr \<lparr>sr_command = command, sr_returncode = rc,
       sr_stdout = Text (slice_to (max_output_bytes policy) out), sr_stderr = Text (slice_to (max_output_bytes policy) err),
       sr_timed_out = False, sr_workspace_cleaned = True, sr_policy = policy_as_dict policy, sr_runtime_ms = ms\<rparr>
   | TimeoutExpired out err \<Rightarrow> Inr \<lparr>sr_command = command, sr_returncode = 124,
       sr_stdout = partial_output policy out, sr_stderr = partial_output policy err,
       sr_timed_out = True, sr_workspace_cleaned = True, sr_policy = policy_as_dict policy, sr_runtime_ms = ms\<rparr>
   | Failed ex \<Rightarrow> Inl ex)"

definition sandbox_execute ::
    "SandboxPolicy \<Rightarrow> (process \<Rightarrow> process_end \<times> rat) \<Rightarrow> string list \<Rightarrow> int \<Rightarrow> (lab, sandbox_result) sop" where
  "sandbox_execute policy run command timeout s = (case validate policy command timeout of
     Inl e \<Rightarrow> (Inl e, s)
   | Inr limit \<Rightarrow>
      (let command = (if hd command = ''python'' then ''python3'' # tl command else command);
           p = \<lparr>pr_command = command, pr_timeout = limit, pr_env = SAFE_ENV, pr_preexec = apply_process_limits policy\<rparr>;
           s = s\<lparr>lab_started := lab_started s @ [p]\<rparr>;
           (e, ms) = run p
       in case result_of policy command ms e of
            Inl ex \<Rightarrow> (Inl ex, s)
          | Inr r \<Rightarrow> (Inr r, s\<lparr>lab_runs := lab_runs s @ [r]\<rparr>)))"

record capability =
  cap_status :: string
  cap_result :: sandbox_result
  cap_isolation :: "(string, json) dict"

definition capability_check ::
    "SandboxPolicy \<Rightarrow> (process \<Rightarrow> process_end \<times> rat) \<Rightarrow> (lab, capability) sop" where
  "capability_check policy run =
     op_bind (sandbox_execute policy run [''echo'', ''sandbox-ready''] 1) (\<lambda>r.
     op_return \<lparr>cap_status = (if sr_stdout r = Text (''sandbox-ready'' @ [CHR 0x0A]) then ''ready'' else ''not-ready''),
       cap_result = r, cap_isolation = profile_as_dict (isolation_profile policy)\<rparr>)"

subsection \<open>Denied tokens survive quoting\<close>

lemma contains_infix: "contains p (a @ p @ b)"
  by (auto simp: contains_iff_sublist)

lemma contains_middle: "contains p s \<Longrightarrow> contains p (a @ s)" "contains p s \<Longrightarrow> contains p (s @ b)"
  using contains_append [of p s a "[]"] contains_append [of p s "[]" b] by simp_all

lemma escape_squote_id: "squote \<notin> set s \<Longrightarrow> concat (map escape_squote s) = s"
  by (induction s) (auto simp: escape_squote_def)

lemma contains_shlex_quote:
  assumes "contains p s" and "squote \<notin> set p" and "p \<noteq> []"
  shows "contains p (shlex_quote s)"
proof -
  from assms(1) obtain a b where s: "s = a @ p @ b" by (auto simp: contains_iff_sublist)
  then have "concat (map escape_squote s) = concat (map escape_squote a) @ p @ concat (map escape_squote b)"
    by (simp add: escape_squote_id [OF assms(2)])
  then have "contains p (concat (map escape_squote s))" by (simp add: contains_infix)
  then have "contains p (squote # concat (map escape_squote s) @ [squote])"
    using contains_middle(1) [of p _ "[squote]"] contains_middle(2) by simp
  then show ?thesis using assms s by (auto simp: shlex_quote_def)
qed

lemma contains_join: "w \<in> set ws \<Longrightarrow> contains p w \<Longrightarrow> contains p (join sep ws)"
  by (induction sep ws rule: join.induct) (auto intro: contains_middle contains_append)

lemma contains_shlex_join:
  "w \<in> set ws \<Longrightarrow> contains p w \<Longrightarrow> squote \<notin> set p \<Longrightarrow> p \<noteq> [] \<Longrightarrow> contains p (shlex_join ws)"
  unfolding shlex_join_def by (rule contains_join [of "shlex_quote w"]) (auto intro: contains_shlex_quote)

lemma denied_tokens_check: "list_all (\<lambda>t. squote \<notin> set t \<and> t \<noteq> [] \<and> \<not> contains t ''python3'') DENIED_TOKENS"
  by code_simp

lemma denied_tokens_plain: "t \<in> set DENIED_TOKENS \<Longrightarrow> squote \<notin> set t \<and> t \<noteq> [] \<and> \<not> contains t ''python3''"
  using denied_tokens_check by (simp add: list_all_iff)

subsection \<open>Confinement\<close>

definition confined :: "SandboxPolicy \<Rightarrow> process \<Rightarrow> bool" where
  "confined policy p \<longleftrightarrow> pr_command p \<noteq> [] \<and>
     (hd (pr_command p) \<in> set (allowed_commands policy) \<or>
      hd (pr_command p) = ''python3'' \<and> ''python'' \<in> set (allowed_commands policy)) \<and>
     (\<forall>arg \<in> set (pr_command p). \<forall>t \<in> set DENIED_TOKENS. \<not> contains t arg) \<and>
     pr_timeout p \<le> max_timeout_seconds policy \<and> (1 \<le> max_timeout_seconds policy \<longrightarrow> 1 \<le> pr_timeout p) \<and>
     pr_env p = SAFE_ENV \<and>
     {Setsid, Setrlimit RLIMIT_CPU (cpu_seconds policy, cpu_seconds policy),
      Setrlimit RLIMIT_AS (memory_bytes policy, memory_bytes policy),
      Setrlimit RLIMIT_FSIZE (disk_bytes policy, disk_bytes policy), Setrlimit RLIMIT_NOFILE (32, 32),
      Setrlimit RLIMIT_NPROC (pid_limit policy, pid_limit policy)} \<subseteq> set (pr_preexec p)"

definition bounded_output :: "SandboxPolicy \<Rightarrow> sandbox_result \<Rightarrow> bool" where
  "bounded_output policy r \<longleftrightarrow> (0 \<le> max_output_bytes policy \<longrightarrow>
     int (captured_length (sr_stdout r)) \<le> max_output_bytes policy \<and>
     int (captured_length (sr_stderr r)) \<le> max_output_bytes policy)"

definition lab_ok :: "SandboxPolicy \<Rightarrow> lab \<Rightarrow> bool" where
  "lab_ok policy s \<longleftrightarrow> list_all (confined policy) (lab_started s) \<and>
     list_all (\<lambda>r. bounded_output policy r \<and> sr_command r \<in> pr_command ` set (lab_started s)) (lab_runs s)"

lemma policy_validate_Inr:
  "validate policy command timeout = Inr n \<longleftrightarrow> command \<noteq> [] \<and> hd command \<in> set (allowed_commands policy) \<and>
     (\<forall>t \<in> set DENIED_TOKENS. \<not> contains t (shlex_join command)) \<and> 1 \<le> timeout \<and>
     n = min timeout (max_timeout_seconds policy)"
  by (auto simp: validate_def list_ex_iff)

lemma validated_confined:
  assumes "validate policy command timeout = Inr n"
  shows "confined policy \<lparr>pr_command = (if hd command = ''python'' then ''python3'' # tl command else command),
    pr_timeout = n, pr_env = SAFE_ENV, pr_preexec = apply_process_limits policy\<rparr>"
proof -
  from assms have v: "command \<noteq> []" "hd command \<in> set (allowed_commands policy)" "1 \<le> timeout"
      "n = min timeout (max_timeout_seconds policy)" "\<forall>t \<in> set DENIED_TOKENS. \<not> contains t (shlex_join command)"
    by (simp_all add: policy_validate_Inr)
  have "\<not> contains t arg" if "arg \<in> set command" "t \<in> set DENIED_TOKENS" for arg t
    using v(5) that contains_shlex_join denied_tokens_plain by blast
  moreover have "set (tl command) \<subseteq> set command" by (cases command) auto
  ultimately show ?thesis
    using v denied_tokens_plain by (auto simp: confined_def apply_process_limits_def)
qed

lemma result_of_Inr:
  assumes "result_of policy command ms e = Inr r"
  shows "sr_command r = command \<and> bounded_output policy r"
  using assms by (auto simp: result_of_def bounded_output_def length_slice_to partial_output_def split: process_end.splits option.splits)

lemma sandbox_execute_cases:
  obtains (refused) e where "validate policy command timeout = Inl e" "sandbox_execute policy run command timeout s = (Inl e, s)"
  | (started) p where "confined policy p" "lab_started (snd (sandbox_execute policy run command timeout s)) = lab_started s @ [p]"
      "case fst (sandbox_execute policy run command timeout s) of
         Inl e \<Rightarrow> lab_runs (snd (sandbox_execute policy run command timeout s)) = lab_runs s
       | Inr r \<Rightarrow> lab_runs (snd (sandbox_execute policy run command timeout s)) = lab_runs s @ [r] \<and>
           sr_command r = pr_command p \<and> bounded_output policy r"
proof (cases "validate policy command timeout")
  case (Inl e)
  then show ?thesis by (intro refused [of e]) (simp_all add: sandbox_execute_def)
next
  case (Inr n)
  from validated_confined [OF this] show ?thesis
    by (rule started)
      (auto simp: sandbox_execute_def Inr Let_def split: prod.splits sum.splits dest: result_of_Inr)
qed

text \<open>One call, with the operating system as it behaves at that moment.\<close>

fun lab_step :: "SandboxPolicy \<Rightarrow> (process \<Rightarrow> process_end \<times> rat) \<times> string list \<times> int \<Rightarrow> lab \<Rightarrow> lab" where
  "lab_step policy (run, command, timeout) s = snd (sandbox_execute policy run command timeout s)"

lemma lab_step_ok: "lab_ok policy s \<Longrightarrow> lab_ok policy (lab_step policy x s)"
proof (cases x)
  case (fields run command timeout)
  assume ok: "lab_ok policy s"
  show ?thesis
  proof (cases rule: sandbox_execute_cases [where policy = policy and run = run and command = command
        and timeout = timeout and s = s])
    case (refused e)
    then show ?thesis using ok fields by simp
  next
    case (started p)
    then show ?thesis using ok fields
      by (auto simp: lab_ok_def list_all_iff split: sum.splits)
  qed
qed

lemma lab_step_runs: "prefix (lab_runs s) (lab_runs (lab_step policy x s))"
proof (cases x)
  case (fields run command timeout)
  show ?thesis
    by (cases rule: sandbox_execute_cases [where policy = policy and run = run and command = command
        and timeout = timeout and s = s]) (auto simp: fields split: sum.splits)
qed

interpretation lab: invariant_system "lab_step policy" "lab_ok policy" for policy
  by unfold_locales (rule lab_step_ok)

interpretation lab_history: append_only "lab_step policy" lab_runs for policy
  by unfold_locales (rule lab_step_runs)

text \<open>
  C25: Whatever commands are submitted and however the processes end, every process the sandbox
  ever starts is confined: an allowed program (\<^verbatim>\<open>python\<close> as \<^verbatim>\<open>python3\<close>), no argument with a denied token
  in it (quoting does not hide one), a time limit between one second and the policy's maximum, the
  fixed environment, a session of its own and the policy's limits on CPU time, memory, file size and processes, with 32 open
  files; every recorded run is of such a process, with
  output within the policy's bound, and no run that was recorded is ever changed or lost.
\<close>

theorem sandbox_processes_confined:
  "let s = fold (lab_step policy) xs new_lab; s' = fold (lab_step policy) ys s in
     list_all (confined policy) (lab_started s') \<and>
     list_all (\<lambda>r. bounded_output policy r \<and> sr_command r \<in> pr_command ` set (lab_started s')) (lab_runs s') \<and>
     prefix (lab_runs s) (lab_runs s')"
proof -
  have "lab_ok policy (fold (lab_step policy) (xs @ ys) new_lab)"
    by (rule lab.run_inv) (simp add: lab_ok_def new_lab_def)
  with lab_history.run_log show ?thesis by (simp add: Let_def lab_ok_def)
qed

end
