(* ===== verification/Catalog.thy ===== *)
theory Catalog
  imports Py_Core
begin

section \<open>The catalog of levels and tools (catalog.py, tool_registry.py)\<close>

text \<open>
  \<^verbatim>\<open>PLATFORM_LEVELS\<close> and \<^verbatim>\<open>get_level\<close> of \<^verbatim>\<open>agi_platform/catalog.py\<close>; \<^verbatim>\<open>TOOL_CONTRACTS\<close> and
  \<^verbatim>\<open>ToolRegistry\<close> of \<^verbatim>\<open>agi_platform/tool_registry.py\<close>, whose answers are built as JSON values.
\<close>

record PlatformLevel =
  pl_level :: int
  pl_name :: string
  pl_purpose :: string
  pl_modules :: "string list"
  pl_api :: "string list"
  pl_database :: "string list"
  pl_metrics :: "string list"
  pl_security :: "string list"

definition PLATFORM_LEVELS :: "PlatformLevel list" where
  "PLATFORM_LEVELS = [
    \<lparr>pl_level = 0,
     pl_name = ''LLM Core'',
     pl_purpose = ''Unified access to model providers with routing, failover, usage accounting, and validation.'',
     pl_modules = [''providers/'', ''router/'', ''registry/'', ''telemetry/''],
     pl_api = [''/chat'', ''/completion'', ''/embeddings'', ''/models''],
     pl_database = [''models'', ''providers'', ''usage'', ''costs''],
     pl_metrics = [''tokens_used'', ''cost'', ''latency'', ''errors''],
     pl_security = [''provider credential isolation'', ''request validation'', ''rate limiting'']\<rparr>,
    \<lparr>pl_level = 1,
     pl_name = ''Memory Layer'',
     pl_purpose = ''Enterprise memory storage, retrieval, ranking, consolidation, expiration, and search.'',
     pl_modules = [''working_memory/'', ''episodic_memory/'', ''semantic_memory/'', ''retrieval/'', ''consolidation/''],
     pl_api = [''/memory/store'', ''/memory/search'', ''/memory/retrieve''],
     pl_database = [''memories'', ''memory_embeddings'', ''memory_archives''],
     pl_metrics = [''memory_search_latency'', ''memories_stored''],
     pl_security = [''tenant scoping'', ''content classification'', ''retention policies'']\<rparr>,
    \<lparr>pl_level = 2,
     pl_name = ''Memory Guardian'',
     pl_purpose = ''Governance controls for memory quality, review, rollback, audit, and trust scoring.'',
     pl_modules = [''validator/'', ''deduplication/'', ''approval/'', ''audit/'', ''rollback/''],
     pl_api = [''/guardian/review'', ''/guardian/audit''],
     pl_database = [''memory_audit'', ''memory_versions'', ''memory_reviews''],
     pl_metrics = [''review_queue_depth'', ''memory_risk_score''],
     pl_security = [''human approval gates'', ''immutable audit trail'', ''rollback authorization'']\<rparr>,
    \<lparr>pl_level = 3,
     pl_name = ''Research Layer'',
     pl_purpose = ''Evidence collection, source validation, trust ranking, reporting, and threat extraction.'',
     pl_modules = [''collectors/'', ''extraction/'', ''ranking/'', ''reporting/''],
     pl_api = [''/research/query'', ''/research/report''],
     pl_database = [''research_sources'', ''evidence'', ''research_reports''],
     pl_metrics = [''source_trust'', ''report_latency''],
     pl_security = [''source allowlists'', ''evidence provenance'', ''malicious content isolation'']\<rparr>,
    \<lparr>pl_level = 4,
     pl_name = ''Chinese Research Hub'',
     pl_purpose = ''Chinese-language ingestion, translation, classification, NER, IOC extraction, and enrichment.'',
     pl_modules = [''ingestion/'', ''translation/'', ''classification/'', ''threat_extraction/'', ''enrichment/''],
     pl_api = [''/chinese/articles'', ''/chinese/analyze''],
     pl_database = [''chinese_articles'', ''translations'', ''extracted_iocs''],
     pl_metrics = [''translation_latency'', ''iocs_extracted''],
     pl_security = [''original-source preservation'', ''translation traceability'', ''content safety checks'']\<rparr>,
    \<lparr>pl_level = 5,
     pl_name = ''Analysis Layer'',
     pl_purpose = ''Static, dependency, architecture, security, and code-quality analysis.'',
     pl_modules = [''static_analysis/'', ''dependency_analysis/'', ''architecture_analysis/'', ''security_analysis/'', ''repository_analysis/''],
     pl_api = [''/analyze/code'', ''/analyze/repository''],
     pl_database = [''analysis_runs'', ''analysis_findings''],
     pl_metrics = [''findings_count'', ''analysis_runtime''],
     pl_security = [''sandboxed scanners'', ''repository allowlists'', ''secret redaction'']\<rparr>,
    \<lparr>pl_level = 6,
     pl_name = ''GitHub Intelligence'',
     pl_purpose = ''Repository indexing, commit/issue/PR analysis, contributor graphing, and knowledge extraction.'',
     pl_modules = [''repository_indexer/'', ''commit_analyzer/'', ''issue_analyzer/'', ''pr_analyzer/'', ''dependency_graph/'', ''knowledge_extractor/''],
     pl_api = [''/github/repositories'', ''/github/analyze''],
     pl_database = [''repositories'', ''commits'', ''issues'', ''pull_requests'', ''dependencies''],
     pl_metrics = [''repos_indexed'', ''github_api_errors''],
     pl_security = [''token least privilege'', ''webhook signature validation'', ''PII minimization'']\<rparr>,
    \<lparr>pl_level = 7,
     pl_name = ''Sandbox Lab'',
     pl_purpose = ''Secure execution with Docker isolation, artifacts, limits, policies, monitoring, and cleanup.'',
     pl_modules = [''runtime/'', ''isolation/'', ''monitoring/'', ''artifacts/'', ''cleanup/''],
     pl_api = [''/sandbox/execute'', ''/sandbox/artifacts''],
     pl_database = [''sandbox_runs'', ''sandbox_artifacts''],
     pl_metrics = [''cpu'', ''memory'', ''network'', ''runtime''],
     pl_security = [''network policies'', ''resource quotas'', ''workspace isolation'']\<rparr>,
    \<lparr>pl_level = 8,
     pl_name = ''Knowledge Graph'',
     pl_purpose = ''Neo4j-backed entity, memory, research, repository, threat, and agent graphs.'',
     pl_modules = [''entities/'', ''relationships/'', ''graph_store/'', ''graph_search/'', ''analytics/''],
     pl_api = [''/graph/search'', ''/graph/traverse''],
     pl_database = [''graph_entities'', ''graph_relationships''],
     pl_metrics = [''graph_query_latency'', ''relationships_discovered''],
     pl_security = [''relationship ACLs'', ''query limits'', ''tenant labels'']\<rparr>,
    \<lparr>pl_level = 9,
     pl_name = ''Orchestrator'',
     pl_purpose = ''LangGraph-ready workflow, routing, checkpointing, recovery, human-in-loop, retry, and context routing.'',
     pl_modules = [''workflow_engine/'', ''task_router/'', ''agent_router/'', ''checkpoint_manager/'', ''recovery_manager/'', ''planner/''],
     pl_api = [''/orchestrate'', ''/workflows''],
     pl_database = [''workflow_runs'', ''workflow_checkpoints''],
     pl_metrics = [''workflow_success_rate'', ''retry_count''],
     pl_security = [''workflow policy enforcement'', ''human approval checkpoints'', ''tool permissions'']\<rparr>,
    \<lparr>pl_level = 10,
     pl_name = ''Architecture Governance'',
     pl_purpose = ''Architecture proposal, decision, review, approval, risk, and version governance.'',
     pl_modules = [''proposals/'', ''decisions/'', ''reviews/'', ''risk_management/'', ''approvals/''],
     pl_api = [''/governance/proposals'', ''/governance/decisions''],
     pl_database = [''architecture_decisions'', ''architecture_reviews''],
     pl_metrics = [''approval_latency'', ''risk_score''],
     pl_security = [''segregation of duties'', ''ADR immutability'', ''risk acceptance records'']\<rparr>,
    \<lparr>pl_level = 11,
     pl_name = ''Self Improvement'',
     pl_purpose = ''Telemetry analysis, evaluation, pattern discovery, optimization suggestions, and improvement proposals.'',
     pl_modules = [''telemetry/'', ''evaluation/'', ''optimization/'', ''learning/'', ''pattern_discovery/'', ''improvement_engine/''],
     pl_api = [''/evolution/proposals'', ''/evolution/evaluate''],
     pl_database = [''improvement_proposals'', ''evaluation_runs''],
     pl_metrics = [''success_rate'', ''failure_rate'', ''tool_effectiveness'', ''agent_effectiveness''],
     pl_security = [''proposal approval gates'', ''experiment isolation'', ''regression checks'']\<rparr>]"

definition get_level :: "int \<Rightarrow> PlatformLevel result" where
  "get_level level = (case List.find (\<lambda>item. pl_level item = level) PLATFORM_LEVELS of
     Some item \<Rightarrow> Inr item | None \<Rightarrow> Inl (KeyError (''Unknown platform level: '' @ str_of_int level)))"

text \<open>\<^verbatim>\<open>asdict\<close> of a level.\<close>

definition level_as_dict :: "PlatformLevel \<Rightarrow> (string, json) dict" where
  "level_as_dict l = [(''level'', JInt (pl_level l)), (''name'', JStr (pl_name l)), (''purpose'', JStr (pl_purpose l)),
     (''modules'', JList (map JStr (pl_modules l))), (''api'', JList (map JStr (pl_api l))),
     (''database'', JList (map JStr (pl_database l))), (''metrics'', JList (map JStr (pl_metrics l))),
     (''security'', JList (map JStr (pl_security l)))]"

subsection \<open>Tools\<close>

record ToolContract =
  tc_name :: string
  tc_level :: int
  tc_purpose :: string
  tc_input_schema :: "(string, json) dict"
  tc_output_schema :: "(string, json) dict"
  tc_permissions :: "string list"
  tc_side_effects :: bool
  tc_risk :: string
  tc_mcp_kind :: string

definition TOOL_CONTRACTS :: "ToolContract list" where
  "TOOL_CONTRACTS = [
    \<lparr>tc_name = ''memory.search'', tc_level = 1,
     tc_purpose = ''Retrieve ranked platform memories for agentic RAG context assembly.'',
     tc_input_schema = [(''query'', JStr ''string''), (''limit'', JStr ''integer'')],
     tc_output_schema = [(''results'', JStr ''array'')],
     tc_permissions = [''memory:read''], tc_side_effects = False, tc_risk = ''low'', tc_mcp_kind = ''tool''\<rparr>,
    \<lparr>tc_name = ''research.report'', tc_level = 3,
     tc_purpose = ''Build evidence-backed research reports with source trust metadata.'',
     tc_input_schema = [(''query'', JStr ''string'')],
     tc_output_schema = [(''query'', JStr ''string''), (''evidence'', JStr ''array''), (''summary'', JStr ''string'')],
     tc_permissions = [''research:read'', ''network:restricted''], tc_side_effects = False, tc_risk = ''medium'', tc_mcp_kind = ''tool''\<rparr>,
    \<lparr>tc_name = ''analysis.code'', tc_level = 5,
     tc_purpose = ''Analyze source snippets for security and code-quality findings.'',
     tc_input_schema = [(''code'', JStr ''string'')],
     tc_output_schema = [(''findings'', JStr ''array''), (''summary'', JStr ''object'')],
     tc_permissions = [''analysis:run''], tc_side_effects = False, tc_risk = ''medium'', tc_mcp_kind = ''tool''\<rparr>,
    \<lparr>tc_name = ''sandbox.execute'', tc_level = 7,
     tc_purpose = ''Run approved commands inside a constrained sandbox profile.'',
     tc_input_schema = [(''command'', JStr ''array''), (''timeout_seconds'', JStr ''integer'')],
     tc_output_schema = [(''stdout'', JStr ''string''), (''stderr'', JStr ''string''), (''returncode'', JStr ''integer'')],
     tc_permissions = [''sandbox:execute''], tc_side_effects = True, tc_risk = ''high'', tc_mcp_kind = ''tool''\<rparr>,
    \<lparr>tc_name = ''governance.review'', tc_level = 10,
     tc_purpose = ''Record human approval decisions for risk-managed workflows.'',
     tc_input_schema = [(''decision_id'', JStr ''integer''), (''approver'', JStr ''string''), (''approved'', JStr ''boolean'')],
     tc_output_schema = [(''decision'', JStr ''object'')],
     tc_permissions = [''governance:approve''], tc_side_effects = True, tc_risk = ''critical'', tc_mcp_kind = ''tool''\<rparr>]"

type_synonym tool_registry = "(string, ToolContract) dict"

definition new_registry :: "ToolContract list \<Rightarrow> tool_registry" where
  "new_registry contracts = fold (\<lambda>c d. dict_set (tc_name c) c d) contracts []"

definition contract_as_dict :: "ToolContract \<Rightarrow> (string, json) dict" where
  "contract_as_dict c = [(''name'', JStr (tc_name c)), (''level'', JInt (tc_level c)), (''purpose'', JStr (tc_purpose c)),
     (''input_schema'', JObj (tc_input_schema c)), (''output_schema'', JObj (tc_output_schema c)),
     (''permissions'', JList (map JStr (tc_permissions c))), (''side_effects'', JBool (tc_side_effects c)),
     (''risk'', JStr (tc_risk c)), (''mcp_kind'', JStr (tc_mcp_kind c))]"

definition list_tools :: "tool_registry \<Rightarrow> (string, json) dict" where
  "list_tools reg = (let tools = map contract_as_dict (dict_values reg) in
     [(''count'', JInt (int (length tools))), (''tools'', JList (map JObj tools))])"

definition manifest_entry :: "ToolContract \<Rightarrow> (string, json) dict" where
  "manifest_entry c = [(''name'', JStr (tc_name c)), (''description'', JStr (tc_purpose c)),
     (''input_schema'', JObj (tc_input_schema c)),
     (''annotations'', JObj [(''level'', JInt (tc_level c)), (''permissions'', JList (map JStr (tc_permissions c))),
        (''side_effects'', JBool (tc_side_effects c)), (''risk'', JStr (tc_risk c))])]"

definition mcp_manifest :: "tool_registry \<Rightarrow> (string, json) dict" where
  "mcp_manifest reg = [(''protocol'', JStr ''mcp-compatible''),
     (''capabilities'', JObj [(''tools'', JBool True), (''resources'', JBool False), (''prompts'', JBool False)]),
     (''tools'', JList (map (\<lambda>c. JObj (manifest_entry c)) (dict_values reg)))]"

subsection \<open>Facts about the tables\<close>

lemma platform_levels_numbers: "map pl_level PLATFORM_LEVELS = [0, 1, 2, 3, 4, 5, 6, 7, 8, 9, 10, 11]"
  by (simp add: PLATFORM_LEVELS_def)

lemma platform_levels_declared:
  "list_all (\<lambda>l. pl_api l \<noteq> [] \<and> pl_database l \<noteq> [] \<and> pl_metrics l \<noteq> [] \<and> pl_security l \<noteq> []) PLATFORM_LEVELS"
  by (simp add: PLATFORM_LEVELS_def)

end
