(* ===== verification/Readiness.thy ===== *)
theory Readiness
  imports Catalog
begin

section \<open>Readiness (readiness.py)\<close>

text \<open>
  \<^verbatim>\<open>agi_platform/readiness.py\<close>: the implementation modules and the assessed controls of every level,
  the status of a level and of the platform. What importing a module does is the argument
  \<open>failure\<close>: nothing, or the message of an exception. The statuses are ordered by severity, as an
  instance of the linear orders, so that a level's status is the maximum over its criteria and
  controls, as long as its controls are critical, as all in the table are. Shown: what the report says of each level
  and of the platform, and that \<^verbatim>\<open>/ready\<close> answers \<^verbatim>\<open>not-ready\<close> whatever is deployed.
\<close>

subsection \<open>Statuses\<close>

datatype Status = GREEN | YELLOW | RED

fun severity :: "Status \<Rightarrow> nat" where
  "severity GREEN = 0"
| "severity YELLOW = 1"
| "severity RED = 2"

instantiation Status :: linorder
begin

definition less_eq_Status :: "Status \<Rightarrow> Status \<Rightarrow> bool" where
  "a \<le> b \<longleftrightarrow> severity a \<le> severity b"

definition less_Status :: "Status \<Rightarrow> Status \<Rightarrow> bool" where
  "a < b \<longleftrightarrow> severity a < severity b"

instance
proof
  fix a b :: Status
  show "a \<le> b \<Longrightarrow> b \<le> a \<Longrightarrow> a = b"
    by (cases a; cases b) (simp_all add: less_eq_Status_def)
qed (auto simp: less_eq_Status_def less_Status_def)

end

subsection \<open>Criteria and controls\<close>

record ReadinessCriterion =
  rc_name :: string
  rc_passed :: bool
  rc_detail :: string
  rc_critical :: bool

record ControlAssessment =
  ca_name :: string
  ca_status :: Status
  ca_evidence :: string
  ca_required_fix :: string
  ca_critical :: bool

definition IMPLEMENTATION_MODULES :: "(int, string) dict" where
  "IMPLEMENTATION_MODULES = [
    (0, ''agi_platform.llm.core''),
    (1, ''agi_platform.memory.core''),
    (2, ''agi_platform.guardian.core''),
    (3, ''agi_platform.research.core''),
    (4, ''agi_platform.chinese_hub.core''),
    (5, ''agi_platform.analysis.core''),
    (6, ''agi_platform.github_intel.core''),
    (7, ''agi_platform.sandbox.core''),
    (8, ''agi_platform.knowledge_graph.core''),
    (9, ''agi_platform.orchestration''),
    (10, ''agi_platform.governance.core''),
    (11, ''agi_platform.evolution.core'')]"

definition CRITICAL_CONTROLS :: "(int, ControlAssessment list) dict" where
  "CRITICAL_CONTROLS = [
    (0, [\<lparr>ca_name = ''provider_resilience'', ca_status = YELLOW,
       ca_evidence = ''LLMCore routes through LLMGateway with retry/backoff, circuit breaker, provider health, fallback, and budget enforcement; production tuning remains deployment-specific.'',
       ca_required_fix = ''Persist full LLM accounting to PostgreSQL and tune provider budgets per tenant.'', ca_critical = True\<rparr>,
      \<lparr>ca_name = ''durable_usage_accounting'', ca_status = RED,
       ca_evidence = ''LLMCore.usage is in-process memory.'',
       ca_required_fix = ''Persist usage/cost records transactionally.'', ca_critical = True\<rparr>]),
    (1, [\<lparr>ca_name = ''durable_memory'', ca_status = YELLOW,
       ca_evidence = ''MemoryLayer persists canonical metadata through SQLAlchemy/PostgreSQL-compatible tables; Qdrant remains an optional vector dependency.'',
       ca_required_fix = ''Add production Qdrant health enforcement and PostgreSQL RLS policies.'', ca_critical = True\<rparr>]),
    (2, [\<lparr>ca_name = ''immutable_memory_audit'', ca_status = RED,
       ca_evidence = ''MemoryGuardian audit/reviews/versions are in-process containers.'',
       ca_required_fix = ''Persist immutable audit events and guarded memory versions.'', ca_critical = True\<rparr>]),
    (3, [\<lparr>ca_name = ''safe_external_research'', ca_status = YELLOW,
       ca_evidence = ''ResearchLayer has timeouts but no SSRF/size/content-type policy.'',
       ca_required_fix = ''Add SSRF controls, response limits, source policy and evidence persistence.'', ca_critical = True\<rparr>]),
    (4, [\<lparr>ca_name = ''translation_provenance'', ca_status = YELLOW,
       ca_evidence = ''ChineseResearchHub keeps original/translated fields but no durable evidence/version model.'',
       ca_required_fix = ''Persist original/translation/evidence records with provider/version metadata.'', ca_critical = True\<rparr>]),
    (5, [\<lparr>ca_name = ''analysis_finding_model'', ca_status = YELLOW,
       ca_evidence = ''Analysis findings are deterministic but lack stable finding_id/fingerprint/status persistence.'',
       ca_required_fix = ''Add canonical finding schema, fingerprints, status lifecycle and persistence.'', ca_critical = True\<rparr>]),
    (6, [\<lparr>ca_name = ''bounded_repository_indexing'', ca_status = YELLOW,
       ca_evidence = ''GitHubIntelligence fetches repo/contributors with timeout but no pagination/rate-limit checkpointing.'',
       ca_required_fix = ''Add incremental indexing, pagination, content hashes and rate-limit handling.'', ca_critical = True\<rparr>]),
    (7, [\<lparr>ca_name = ''strong_sandbox_isolation'', ca_status = YELLOW,
       ca_evidence = ''Sandbox policy now declares container/microVM controls and fail-closed local deny rules; local subprocess fallback is still not a production isolation boundary.'',
       ca_required_fix = ''Run production workloads in non-root read-only container or microVM with seccomp/AppArmor and no host mounts.'', ca_critical = True\<rparr>]),
    (8, [\<lparr>ca_name = ''durable_graph'', ca_status = RED,
       ca_evidence = ''KnowledgeGraph.nodes/edges are in-process containers.'',
       ca_required_fix = ''Persist graph entities/relationships in Neo4j with tenant constraints and traversal limits.'', ca_critical = True\<rparr>]),
    (9, [\<lparr>ca_name = ''durable_workflow_engine'', ca_status = YELLOW,
       ca_evidence = ''WorkflowStateStore persists runs/tasks/checkpoints/events in SQL with leases and idempotency keys; full worker side-effect execution is still a later phase.'',
       ca_required_fix = ''Add production worker scheduler and external side-effect execution records.'', ca_critical = True\<rparr>]),
    (10, [\<lparr>ca_name = ''approval_governance'', ca_status = RED,
       ca_evidence = ''ArchitectureGovernance decisions/reviews are in-process and low-risk auto-approval lacks scoped approval records.'',
       ca_required_fix = ''Persist ADR records and enforce explicit approval gates for high-risk actions.'', ca_critical = True\<rparr>]),
    (11, [\<lparr>ca_name = ''self_improvement_gate'', ca_status = YELLOW,
       ca_evidence = ''SelfImprovementEngine only proposes; no mutation path exists, but no formal approval lifecycle is enforced.'',
       ca_required_fix = ''Model proposal/benchmark/approval/deploy/rollback lifecycle with policy gates.'', ca_critical = True\<rparr>])]"

definition module_imports :: "(string \<Rightarrow> string option) \<Rightarrow> string \<Rightarrow> ReadinessCriterion" where
  "module_imports failure module_name = (case failure module_name of
     Some message \<Rightarrow> \<lparr>rc_name = ''implementation_import'', rc_passed = False, rc_detail = message, rc_critical = True\<rparr>
   | None \<Rightarrow> \<lparr>rc_name = ''implementation_import'', rc_passed = True, rc_detail = module_name, rc_critical = True\<rparr>)"

definition level_status :: "ReadinessCriterion list \<Rightarrow> ControlAssessment list \<Rightarrow> Status" where
  "level_status criteria controls =
     (if list_ex (\<lambda>item. \<not> rc_passed item \<and> rc_critical item) criteria then RED
      else if list_ex (\<lambda>control. ca_status control = RED \<and> ca_critical control) controls then RED
      else if list_ex (\<lambda>item. \<not> rc_passed item) criteria \<or> list_ex (\<lambda>control. ca_status control = YELLOW) controls
      then YELLOW else GREEN)"

record level_report =
  lr_level :: int
  lr_name :: string
  lr_status :: Status
  lr_criteria :: "ReadinessCriterion list"
  lr_controls :: "ControlAssessment list"

definition declared :: "string \<Rightarrow> string list \<Rightarrow> ReadinessCriterion" where
  "declared name items = \<lparr>rc_name = name, rc_passed = (items \<noteq> []), rc_detail = join '', '' items, rc_critical = False\<rparr>"

definition level_criteria :: "(string \<Rightarrow> string option) \<Rightarrow> PlatformLevel \<Rightarrow> string \<Rightarrow> ReadinessCriterion list" where
  "level_criteria failure l module_name =
     [module_imports failure module_name, declared ''api_surface'' (pl_api l),
      declared ''database_schema_declared'' (pl_database l), declared ''observability_declared'' (pl_metrics l),
      declared ''security_controls_declared'' (pl_security l)]"

definition level_report_of :: "(string \<Rightarrow> string option) \<Rightarrow> PlatformLevel \<Rightarrow> level_report result" where
  "level_report_of failure l = (case dict_get IMPLEMENTATION_MODULES (pl_level l) of
     None \<Rightarrow> Inl (KeyError (str_of_int (pl_level l)))
   | Some module_name \<Rightarrow>
      (let criteria = level_criteria failure l module_name in
       case dict_get CRITICAL_CONTROLS (pl_level l) of
         None \<Rightarrow> Inl (KeyError (str_of_int (pl_level l)))
       | Some controls \<Rightarrow> Inr \<lparr>lr_level = pl_level l, lr_name = pl_name l, lr_status = level_status criteria controls,
           lr_criteria = criteria, lr_controls = controls\<rparr>))"

fun reports :: "(string \<Rightarrow> string option) \<Rightarrow> PlatformLevel list \<Rightarrow> level_report list result" where
  "reports failure [] = Inr []"
| "reports failure (l # ls) = (case level_report_of failure l of Inl e \<Rightarrow> Inl e
     | Inr r \<Rightarrow> (case reports failure ls of Inl e \<Rightarrow> Inl e | Inr rs \<Rightarrow> Inr (r # rs)))"

definition level_readiness :: "(string \<Rightarrow> string option) \<Rightarrow> level_report list result" where
  "level_readiness failure = reports failure PLATFORM_LEVELS"

definition platform_ready :: "(string \<Rightarrow> string option) \<Rightarrow> (string \<times> level_report list) result" where
  "platform_ready failure = (case level_readiness failure of Inl e \<Rightarrow> Inl e
     | Inr levels \<Rightarrow> Inr (if list_ex (\<lambda>l. lr_status l = RED) levels then ''not-ready''
         else if list_ex (\<lambda>l. lr_status l = YELLOW) levels then ''degraded'' else ''ready'', levels))"

subsection \<open>Severity\<close>

text \<open>What a criterion counts for; a control counts for its status.\<close>

definition criterion_severity :: "ReadinessCriterion \<Rightarrow> Status" where
  "criterion_severity c = (if rc_passed c then GREEN else if rc_critical c then RED else YELLOW)"

definition worst :: "Status list \<Rightarrow> Status" where
  "worst ss = foldr max ss GREEN"

fun platform_word :: "Status \<Rightarrow> string" where
  "platform_word RED = ''not-ready''"
| "platform_word YELLOW = ''degraded''"
| "platform_word GREEN = ''ready''"

lemma status_bounds [simp]: "GREEN \<le> s" "s \<le> RED" "s \<le> GREEN \<longleftrightarrow> s = GREEN" "RED \<le> s \<longleftrightarrow> s = RED"
  by (cases s; simp add: less_eq_Status_def)+

lemma max_Status_simps [simp]:
  "max RED s = RED" "max s RED = RED" "max GREEN s = s" "max s GREEN = s" "max YELLOW YELLOW = YELLOW"
  by (cases s; simp add: max_def less_eq_Status_def)+

lemma worst_simps [simp]: "worst [] = GREEN" "worst (s # ss) = max s (worst ss)"
  by (simp_all add: worst_def)

lemma worst_RED: "worst ss = RED \<longleftrightarrow> RED \<in> set ss"
proof (induction ss)
  case (Cons s ss)
  then show ?case by (cases s; cases "worst ss") simp_all
qed simp

lemma worst_GREEN: "worst ss = GREEN \<longleftrightarrow> set ss \<subseteq> {GREEN}"
proof (induction ss)
  case (Cons s ss)
  then show ?case by (cases s; cases "worst ss") simp_all
qed simp

lemma worst_eq: "worst ss = (if RED \<in> set ss then RED else if YELLOW \<in> set ss then YELLOW else GREEN)"
proof -
  have "set ss \<subseteq> {GREEN} \<longleftrightarrow> RED \<notin> set ss \<and> YELLOW \<notin> set ss"
    using severity.cases by blast
  then show ?thesis using worst_RED [of ss] worst_GREEN [of ss] by (cases "worst ss") auto
qed

lemma severity_iffs:
  "criterion_severity c = RED \<longleftrightarrow> \<not> rc_passed c \<and> rc_critical c"
  "criterion_severity c = YELLOW \<longleftrightarrow> \<not> rc_passed c \<and> \<not> rc_critical c"
  by (auto simp: criterion_severity_def)

lemma in_map_iff: "y \<in> set (map f xs) \<longleftrightarrow> (\<exists>x \<in> set xs. f x = y)"
  by auto

lemma level_status_worst:
  assumes "\<forall>k \<in> set controls. ca_critical k"
  shows "level_status criteria controls = worst (map criterion_severity criteria @ map ca_status controls)"
  unfolding worst_eq set_append Un_iff in_map_iff severity_iffs level_status_def list_ex_iff using assms
  by (cases "\<exists>c \<in> set criteria. \<not> rc_passed c \<and> rc_critical c";
      cases "\<exists>k \<in> set controls. ca_status k = RED") auto

text \<open>
  Without that assumption it fails: a control that is red but not critical counts for nothing, while a
  yellow one degrades the level. The table has no such control.
\<close>

lemma red_noncritical_ignored:
  "level_status [] [\<lparr>ca_name = n, ca_status = RED, ca_evidence = e, ca_required_fix = f, ca_critical = False\<rparr>] = GREEN"
  "level_status [] [\<lparr>ca_name = n, ca_status = YELLOW, ca_evidence = e, ca_required_fix = f, ca_critical = False\<rparr>] = YELLOW"
  by (simp_all add: level_status_def)

subsection \<open>Reports\<close>

text \<open>
  What the tables have for each level of the catalog: a module, critical controls, and a declaration of every
  kind.
\<close>

definition level_complete :: "PlatformLevel \<Rightarrow> bool" where
  "level_complete l \<longleftrightarrow> dict_get IMPLEMENTATION_MODULES (pl_level l) \<noteq> None \<and>
     (case dict_get CRITICAL_CONTROLS (pl_level l) of None \<Rightarrow> False | Some ks \<Rightarrow> list_all ca_critical ks) \<and>
     pl_api l \<noteq> [] \<and> pl_database l \<noteq> [] \<and> pl_metrics l \<noteq> [] \<and> pl_security l \<noteq> []"

lemma levels_complete: "list_all level_complete PLATFORM_LEVELS"
  by code_simp

text \<open>The report of level \<open>l\<close>: five criteria, of which only the import can fail, and the controls of the table.\<close>

definition report_ok :: "(string \<Rightarrow> string option) \<Rightarrow> PlatformLevel \<Rightarrow> level_report \<Rightarrow> bool" where
  "report_ok failure l r \<longleftrightarrow> lr_level r = pl_level l \<and> lr_name r = pl_name l \<and>
     (\<exists>m. dict_get IMPLEMENTATION_MODULES (pl_level l) = Some m \<and>
       map (\<lambda>c. (rc_name c, rc_passed c, rc_critical c)) (lr_criteria r) =
         [(''implementation_import'', failure m = None, True), (''api_surface'', True, False),
          (''database_schema_declared'', True, False), (''observability_declared'', True, False),
          (''security_controls_declared'', True, False)] \<and>
       dict_get CRITICAL_CONTROLS (pl_level l) = Some (lr_controls r) \<and>
       lr_status r = worst ((if failure m = None then GREEN else RED) # map ca_status (lr_controls r)))"

lemma level_report_of_Inr:
  assumes "level_complete l"
  obtains r where "level_report_of failure l = Inr r" "report_ok failure l r"
proof -
  from assms obtain m ks where m: "dict_get IMPLEMENTATION_MODULES (pl_level l) = Some m"
    and ks: "dict_get CRITICAL_CONTROLS (pl_level l) = Some ks" and crit: "\<forall>k \<in> set ks. ca_critical k"
    by (auto simp: level_complete_def list_all_iff split: option.splits)
  let ?r = "\<lparr>lr_level = pl_level l, lr_name = pl_name l, lr_status = level_status (level_criteria failure l m) ks,
      lr_criteria = level_criteria failure l m, lr_controls = ks\<rparr>"
  have "level_report_of failure l = Inr ?r" using m ks by (simp add: level_report_of_def Let_def)
  moreover have "report_ok failure l ?r"
    using assms m ks
    by (simp add: report_ok_def level_status_worst [OF crit] level_criteria_def module_imports_def declared_def
        criterion_severity_def level_complete_def split: option.split)
  ultimately show ?thesis by (rule that)
qed

lemma reports_Inr:
  assumes "list_all level_complete ls"
  shows "\<exists>rs. reports failure ls = Inr rs \<and> list_all2 (report_ok failure) ls rs"
  using assms
proof (induction ls)
  case (Cons l ls)
  then obtain rs where rs: "reports failure ls = Inr rs" "list_all2 (report_ok failure) ls rs" by auto
  from Cons.prems have "level_complete l" by simp
  then obtain r where "level_report_of failure l = Inr r" "report_ok failure l r" by (rule level_report_of_Inr)
  with rs show ?case by simp
qed simp

lemma level_readiness_Inr:
  obtains rs where "level_readiness failure = Inr rs" "list_all2 (report_ok failure) PLATFORM_LEVELS rs"
  using reports_Inr [OF levels_complete] unfolding level_readiness_def by blast

lemma platform_ready_eq:
  "level_readiness failure = Inr rs \<Longrightarrow> platform_ready failure = Inr (platform_word (worst (map lr_status rs)), rs)"
  unfolding platform_ready_def worst_eq in_map_iff list_ex_iff by simp

text \<open>
  C38: The readiness report is complete and is the worst of its parts: it never fails and has one
  entry per level of the catalog, in order. The entry of a level has five criteria, of which the declarations
  are always met and the critical import criterion is met exactly when the level's module imports, and the
  controls of the table. The status of the level is RED when its module does not import, and otherwise the most severe of the
  statuses of its controls. The platform is not-ready, degraded or ready as the most severe level is.
\<close>

theorem readiness_is_worst:
  "\<exists>levels. platform_ready failure = Inr (platform_word (worst (map lr_status levels)), levels) \<and>
     list_all2 (\<lambda>l r. lr_level r = pl_level l \<and> lr_name r = pl_name l \<and>
       (\<exists>m. dict_get IMPLEMENTATION_MODULES (pl_level l) = Some m \<and>
         map (\<lambda>c. (rc_name c, rc_passed c, rc_critical c)) (lr_criteria r) =
           [(''implementation_import'', failure m = None, True), (''api_surface'', True, False),
            (''database_schema_declared'', True, False), (''observability_declared'', True, False),
            (''security_controls_declared'', True, False)] \<and>
         dict_get CRITICAL_CONTROLS (pl_level l) = Some (lr_controls r) \<and>
         lr_status r = worst ((if failure m = None then GREEN else RED) # map ca_status (lr_controls r))))
       PLATFORM_LEVELS levels"
proof (rule level_readiness_Inr [of failure])
  fix rs
  assume "level_readiness failure = Inr rs" and "list_all2 (report_ok failure) PLATFORM_LEVELS rs"
  then show ?thesis unfolding report_ok_def [abs_def] by (auto simp: platform_ready_eq)
qed

text \<open>
  The platform is never ready: whatever modules import or fail to, \<^verbatim>\<open>/ready\<close> reports \<^verbatim>\<open>not-ready\<close>,
  because red critical controls are written into the table.
\<close>

lemma platform_never_ready: "\<exists>levels. platform_ready failure = Inr (''not-ready'', levels)"
proof (rule level_readiness_Inr [of failure])
  fix rs
  assume rs: "level_readiness failure = Inr rs" "list_all2 (report_ok failure) PLATFORM_LEVELS rs"
  have "list_ex (\<lambda>l. case dict_get CRITICAL_CONTROLS (pl_level l) of None \<Rightarrow> False
      | Some ks \<Rightarrow> list_ex (\<lambda>k. ca_status k = RED) ks) PLATFORM_LEVELS" by code_simp
  then obtain l ks where l: "l \<in> set PLATFORM_LEVELS" "dict_get CRITICAL_CONTROLS (pl_level l) = Some ks"
      "\<exists>k \<in> set ks. ca_status k = RED" by (auto simp: list_ex_iff split: option.splits)
  from rs(2) l(1) obtain r where r: "r \<in> set rs" "report_ok failure l r" by (metis in_set_conv_nth list_all2_conv_all_nth)
  from l have "RED \<in> ca_status ` set ks" by force
  moreover from r(2) l(2) obtain x where "lr_status r = worst (x # map ca_status ks)" by (auto simp: report_ok_def)
  ultimately have "lr_status r = RED" by (simp add: worst_eq)
  with r(1) have "RED \<in> set (map lr_status rs)" by (metis image_eqI set_map)
  then show ?thesis using platform_ready_eq [OF rs(1)] by (simp add: worst_eq)
qed

end
