(* ===== verification/Sequence_Matcher.thy ===== *)
theory Sequence_Matcher
  imports Py_Core
begin

section \<open>Similarity of texts (difflib.SequenceMatcher)\<close>

text \<open>
  What the guardian uses of Python's \<^verbatim>\<open>difflib\<close>: \<^verbatim>\<open>SequenceMatcher(None, a, b).ratio()\<close>, with the
  heuristic that leaves popular characters of a long second text out of the search for the longest
  match. \<open>run_before\<close> is the table \<^verbatim>\<open>j2len\<close> of \<^verbatim>\<open>find_longest_match\<close>: the length of the common run that ends
  just before two positions. Shown: the recursion terminates, the ratio lies between 0 and 1, and a
  text compared with itself has ratio 1, popular characters or not.
\<close>

subsection \<open>The longest match\<close>

definition popular :: "string \<Rightarrow> char \<Rightarrow> bool" where
  "popular b c = (200 \<le> length b \<and> length b div 100 + 1 < count_list b c)"

fun run_before :: "(char \<Rightarrow> bool) \<Rightarrow> string \<Rightarrow> string \<Rightarrow> nat \<Rightarrow> nat \<Rightarrow> nat \<Rightarrow> nat \<Rightarrow> nat" where
  "run_before p a b alo blo 0 j = 0"
| "run_before p a b alo blo (Suc i) 0 = 0"
| "run_before p a b alo blo (Suc i) (Suc j) =
     (if alo \<le> i \<and> blo \<le> j \<and> p (b ! j) \<and> a ! i = b ! j then Suc (run_before p a b alo blo i j) else 0)"

definition longer :: "string \<Rightarrow> string \<Rightarrow> nat \<Rightarrow> nat \<Rightarrow> nat \<times> nat \<Rightarrow> nat \<times> nat \<times> nat \<Rightarrow> nat \<times> nat \<times> nat" where
  "longer a b alo blo ij best =
     (let k = run_before (\<lambda>c. \<not> popular b c) a b alo blo (Suc (fst ij)) (Suc (snd ij))
      in if snd (snd best) < k then (Suc (fst ij) - k, Suc (snd ij) - k, k) else best)"

definition cells :: "nat \<Rightarrow> nat \<Rightarrow> nat \<Rightarrow> nat \<Rightarrow> (nat \<times> nat) list" where
  "cells alo ahi blo bhi = List.product [alo..<ahi] [blo..<bhi]"

definition best_match :: "string \<Rightarrow> string \<Rightarrow> nat \<Rightarrow> nat \<Rightarrow> nat \<Rightarrow> nat \<Rightarrow> nat \<times> nat \<times> nat" where
  "best_match a b alo ahi blo bhi = fold (longer a b alo blo) (cells alo ahi blo bhi) (alo, blo, 0)"

function run_after :: "string \<Rightarrow> string \<Rightarrow> nat \<Rightarrow> nat \<Rightarrow> nat \<Rightarrow> nat \<Rightarrow> nat" where
  "run_after a b ahi bhi i j = (if i < ahi \<and> j < bhi \<and> a ! i = b ! j then Suc (run_after a b ahi bhi (Suc i) (Suc j)) else 0)"
  by pat_completeness auto

termination
  by (relation "measure (\<lambda>(a, b, ahi, bhi, i, j). ahi - i)") auto

declare run_after.simps [simp del]

definition find_longest_match :: "string \<Rightarrow> string \<Rightarrow> nat \<Rightarrow> nat \<Rightarrow> nat \<Rightarrow> nat \<Rightarrow> nat \<times> nat \<times> nat" where
  "find_longest_match a b alo ahi blo bhi =
     (case best_match a b alo ahi blo bhi of (i, j, k) \<Rightarrow>
        let e = run_before (\<lambda>c. True) a b alo blo i j;
            f = run_after a b ahi bhi (i + k) (j + k)
        in (i - e, j - e, e + k + f))"

subsection \<open>Bounds\<close>

lemma run_before_le: "run_before p a b alo blo i j \<le> i - alo \<and> run_before p a b alo blo i j \<le> j - blo"
  by (induction p a b alo blo i j rule: run_before.induct) (auto simp: Suc_diff_le)

lemma run_after_le: "i + run_after a b ahi bhi i j \<le> max i ahi \<and> j + run_after a b ahi bhi i j \<le> max j bhi"
proof (induction a b ahi bhi i j rule: run_after.induct)
  case (1 a b ahi bhi i j)
  then show ?case by (subst (1 2) run_after.simps) auto
qed

definition in_range :: "nat \<Rightarrow> nat \<Rightarrow> nat \<Rightarrow> nat \<Rightarrow> nat \<times> nat \<times> nat \<Rightarrow> bool" where
  "in_range alo ahi blo bhi = (\<lambda>(i, j, k). alo \<le> i \<and> blo \<le> j \<and> i + k \<le> max alo ahi \<and> j + k \<le> max blo bhi)"

lemma longer_in_range:
  assumes "in_range alo ahi blo bhi best" and "ij \<in> set (cells alo ahi blo bhi)"
  shows "in_range alo ahi blo bhi (longer a b alo blo ij best)"
  using assms run_before_le [of "\<lambda>c. \<not> popular b c" a b alo blo "Suc (fst ij)" "Suc (snd ij)"]
  by (auto simp: longer_def in_range_def cells_def Let_def simp del: run_before.simps)

lemma best_match_in_range: "in_range alo ahi blo bhi (best_match a b alo ahi blo bhi)"
proof -
  have "in_range alo ahi blo bhi (fold (longer a b alo blo) cs best)"
    if "in_range alo ahi blo bhi best" "set cs \<subseteq> set (cells alo ahi blo bhi)" for cs best
    using that by (induction cs arbitrary: best) (simp_all add: longer_in_range del: split_paired_All)
  moreover have "in_range alo ahi blo bhi (alo, blo, 0)" by (simp add: in_range_def)
  ultimately show ?thesis unfolding best_match_def by blast
qed

lemma find_longest_match_in_range: "in_range alo ahi blo bhi (find_longest_match a b alo ahi blo bhi)"
proof -
  obtain i j k where best: "best_match a b alo ahi blo bhi = (i, j, k)" by (metis prod_cases3)
  with best_match_in_range have "in_range alo ahi blo bhi (i, j, k)" by metis
  then show ?thesis
    using run_before_le [of "\<lambda>c. True" a b alo blo i j] run_after_le [of "i + k" a b ahi bhi "j + k"]
    by (auto simp: find_longest_match_def best in_range_def Let_def)
qed

lemma find_longest_match_bound:
  assumes "(i, j, k) = find_longest_match a b alo ahi blo bhi" and "k \<noteq> 0"
  shows "alo \<le> i \<and> blo \<le> j \<and> i + k \<le> ahi \<and> j + k \<le> bhi"
  using find_longest_match_in_range [of alo ahi blo bhi a b] assms(2)
  by (auto simp: assms(1) [symmetric] in_range_def max_def split: if_splits)

subsection \<open>Matching blocks and the ratio\<close>

function matches :: "string \<Rightarrow> string \<Rightarrow> nat \<Rightarrow> nat \<Rightarrow> nat \<Rightarrow> nat \<Rightarrow> nat" where
  "matches a b alo ahi blo bhi =
     (case find_longest_match a b alo ahi blo bhi of (i, j, k) \<Rightarrow>
        if k = 0 then 0
        else matches a b alo i blo j + k + matches a b (i + k) ahi (j + k) bhi)"
  by pat_completeness auto

termination
  by (relation "measure (\<lambda>(a, b, alo, ahi, blo, bhi). ahi - alo)") (auto dest!: find_longest_match_bound)

declare matches.simps [simp del]

definition ratio :: "string \<Rightarrow> string \<Rightarrow> rat" where
  "ratio a b = (let n = length a + length b; m = matches a b 0 (length a) 0 (length b)
     in if n = 0 then 1 else 2 * of_nat m / of_nat n)"

lemma matches_le: "matches a b alo ahi blo bhi \<le> ahi - alo \<and> matches a b alo ahi blo bhi \<le> bhi - blo"
proof (induction a b alo ahi blo bhi rule: matches.induct)
  case (1 a b alo ahi blo bhi)
  obtain i j k where m: "find_longest_match a b alo ahi blo bhi = (i, j, k)" by (metis prod_cases3)
  show ?case
  proof (cases "k = 0")
    case True
    then show ?thesis by (subst (1 2) matches.simps) (simp add: m)
  next
    case False
    note IH = 1 [OF m [symmetric] refl False]
    have "alo \<le> i" "blo \<le> j" "i + k \<le> ahi" "j + k \<le> bhi"
      using find_longest_match_bound [OF m [symmetric]] False by simp_all
    with IH m False show ?thesis by (subst (1 2) matches.simps) (simp, linarith)
  qed
qed

lemma ratio_nonneg: "0 \<le> ratio a b"
  by (simp add: ratio_def Let_def)

lemma ratio_le_1: "ratio a b \<le> 1"
proof -
  let ?m = "matches a b 0 (length a) 0 (length b)"
  have "2 * ?m \<le> length a + length b" using matches_le [of a b 0 "length a" 0 "length b"] by simp
  then have "2 * (of_nat ?m :: rat) \<le> of_nat (length a + length b)"
    by (metis of_nat_le_iff of_nat_mult of_nat_numeral)
  then show ?thesis unfolding ratio_def Let_def by (auto simp: divide_le_eq_1 simp del: of_nat_add)
qed

subsection \<open>A text compared with itself\<close>

text \<open>On the diagonal the runs are at least as long as anywhere in their row or column.\<close>

lemma run_before_diagonal:
  "run_before p a a lo lo i j \<le> run_before p a a lo lo i i" "run_before p a a lo lo i j \<le> run_before p a a lo lo j j"
proof -
  have "run_before p x y l1 l2 i j \<le> run_before p x y l1 l2 i i \<and> run_before p x y l1 l2 i j \<le> run_before p x y l1 l2 j j"
    if "x = a" "y = a" "l1 = lo" "l2 = lo" for x y l1 l2
    using that by (induction p x y l1 l2 i j rule: run_before.induct) (auto simp: Suc_diff_le)
  then show "run_before p a a lo lo i j \<le> run_before p a a lo lo i i" "run_before p a a lo lo i j \<le> run_before p a a lo lo j j"
    by blast+
qed

lemma run_before_self: "run_before (\<lambda>c. True) a a 0 0 i i = i"
  by (induction i) simp_all

lemma run_after_self: "i \<le> n \<Longrightarrow> run_after a a n n i i = n - i"
proof (induction "n - i" arbitrary: i)
  case 0
  then show ?case by (subst run_after.simps) simp
next
  case (Suc d)
  then have "run_after a a n n (Suc i) (Suc i) = n - Suc i" by simp
  with Suc(2) show ?case by (subst run_after.simps) (simp add: Suc_diff_Suc)
qed

abbreviation cell_before :: "nat \<times> nat \<Rightarrow> nat \<times> nat \<Rightarrow> bool" where
  "cell_before x y \<equiv> fst x < fst y \<or> fst x = fst y \<and> snd x < snd y"

lemma sorted_product:
  assumes "sorted_wrt (<) xs" and "sorted_wrt (<) ys"
  shows "sorted_wrt cell_before (List.product xs (ys :: nat list))"
  using assms(1) by (induction xs) (auto simp: sorted_wrt_append sorted_wrt_map assms(2))

lemma diagonal_first:
  assumes "cells 0 n 0 n = ps @ (x, y) # qs"
  shows "y < x \<Longrightarrow> (y, y) \<in> set ps" and "x < y \<Longrightarrow> (x, x) \<in> set ps"
proof -
  have sorted: "sorted_wrt cell_before (ps @ (x, y) # qs)"
    unfolding assms [symmetric] cells_def by (intro sorted_product) simp_all
  have all: "set (ps @ (x, y) # qs) = {0..<n} \<times> {0..<n}"
    unfolding assms [symmetric] cells_def by simp
  moreover have "(x, y) \<in> set (ps @ (x, y) # qs)" by simp
  ultimately have xy: "x < n" "y < n" by (metis atLeastLessThan_iff mem_Sigma_iff)+
  show "(y, y) \<in> set ps" if "y < x"
  proof -
    from all xy have "(y, y) \<in> set (ps @ (x, y) # qs)" by auto
    with sorted that show ?thesis by (auto simp: sorted_wrt_append)
  qed
  show "(x, x) \<in> set ps" if "x < y"
  proof -
    from all xy have "(x, x) \<in> set (ps @ (x, y) # qs)" by auto
    with sorted that show ?thesis by (auto simp: sorted_wrt_append)
  qed
qed

definition diagonal_best :: "string \<Rightarrow> (nat \<times> nat) list \<Rightarrow> nat \<times> nat \<times> nat \<Rightarrow> bool" where
  "diagonal_best a ps = (\<lambda>(i, j, k). i = j \<and>
     (\<forall>(x, y) \<in> set ps. run_before (\<lambda>c. \<not> popular a c) a a 0 0 (Suc x) (Suc y) \<le> k))"

lemma longer_diagonal:
  assumes "diagonal_best a ps best" and "cells 0 n 0 n = ps @ (x, y) # qs"
  shows "diagonal_best a (ps @ [(x, y)]) (longer a a 0 0 (x, y) best)"
proof -
  obtain i k where best: "best = (i, i, k)" using assms(1) by (cases best) (auto simp: diagonal_best_def)
  let ?run = "\<lambda>x y. run_before (\<lambda>c. \<not> popular a c) a a 0 0 (Suc x) (Suc y)"
  have old: "?run u v \<le> k" if "(u, v) \<in> set ps" for u v
    using assms(1) that by (auto simp: best diagonal_best_def simp del: run_before.simps)
  have "x = y" if "k < ?run x y"
  proof (rule ccontr)
    assume "x \<noteq> y"
    then have "(y, y) \<in> set ps \<or> (x, x) \<in> set ps" using diagonal_first [OF assms(2)] by linarith
    then show False
      using old run_before_diagonal [of "\<lambda>c. \<not> popular a c" a 0 "Suc x" "Suc y"] that by fastforce
  qed
  then show ?thesis
    using old by (fastforce simp: diagonal_best_def longer_def best Let_def simp del: run_before.simps)
qed

lemma best_match_self:
  obtains i k where "best_match a a 0 n 0 n = (i, i, k)" "i + k \<le> n"
proof -
  have "diagonal_best a ps (fold (longer a a 0 0) ps (0, 0, 0))" if "cells 0 n 0 n = ps @ qs" for ps qs
    using that
  proof (induction ps arbitrary: qs rule: rev_induct)
    case Nil
    show ?case by (simp add: diagonal_best_def)
  next
    case (snoc c ps)
    obtain x y where c: "c = (x, y)" by fastforce
    with snoc.prems have cells: "cells 0 n 0 n = ps @ (x, y) # qs" by simp
    from longer_diagonal [OF snoc.IH [OF cells] cells] c show ?case by simp
  qed
  from this [of "cells 0 n 0 n" "[]"] have "diagonal_best a (cells 0 n 0 n) (best_match a a 0 n 0 n)"
    by (simp add: best_match_def)
  moreover note best_match_in_range [of 0 n 0 n a a]
  ultimately show ?thesis using that
    by (cases "best_match a a 0 n 0 n") (auto simp: diagonal_best_def in_range_def)
qed

lemma find_longest_match_self: "find_longest_match a a 0 n 0 n = (0, 0, n)"
proof -
  obtain i k where "best_match a a 0 n 0 n = (i, i, k)" "i + k \<le> n" by (rule best_match_self)
  then show ?thesis by (simp add: find_longest_match_def run_before_self run_after_self)
qed

lemma matches_self: "matches a a 0 n 0 n = n"
proof -
  have "matches a a l l m m = 0" for l m using matches_le [of a a l l m m] by simp
  then show ?thesis by (subst matches.simps) (simp add: find_longest_match_self)
qed

lemma ratio_self: "ratio a a = 1"
  by (simp add: ratio_def matches_self)

end
