(* ===== verification/Oversight.thy ===== *)
theory Oversight
  imports Memory_Store Sequence_Matcher
begin

section \<open>Guardian, governance and self improvement\<close>

text \<open>
  The three in-process record keepers: \<^verbatim>\<open>MemoryGuardian\<close> (\<^verbatim>\<open>guardian/core.py\<close>),
  \<^verbatim>\<open>ArchitectureGovernance\<close> (\<^verbatim>\<open>governance/core.py\<close>) and \<^verbatim>\<open>SelfImprovementEngine\<close>
  (\<^verbatim>\<open>evolution/core.py\<close>). The guardian is given memory records as \<^verbatim>\<open>MemoryLayer\<close> returns them, so
  their \<^verbatim>\<open>id\<close> and \<^verbatim>\<open>content\<close> are always present. Shown: the guardian gives back every version it
  recorded, whatever happens in between; the status of an architecture decision is that of its latest
  review, and of the risk score before any.
\<close>

subsection \<open>Guardian\<close>

record version_entry =
  ve_version :: int
  ve_memory :: memory_record

record guardian_audit =
  ga_memory_id :: string
  ga_action :: string
  ga_version :: int

record guardian_review =
  gr_candidate_id :: string
  gr_decision :: string
  gr_risk_score :: rat
  gr_duplicate_id :: "string option"

record guardian =
  g_versions :: "(string, version_entry list) dict"
  g_audit :: "guardian_audit list"
  g_reviews :: "guardian_review list"

definition new_guardian :: guardian where
  "new_guardian = \<lparr>g_versions = [], g_audit = [], g_reviews = []\<rparr>"

fun most_similar :: "string \<Rightarrow> memory_record list \<Rightarrow> memory_record option \<times> rat \<Rightarrow> memory_record option \<times> rat" where
  "most_similar content [] best = best"
| "most_similar content (r # rs) (dup, sim) =
     (let q = ratio content (r_content r) in most_similar content rs (if sim < q then (Some r, q) else (dup, sim)))"

definition guardian_validate :: "memory_record \<Rightarrow> memory_record list \<Rightarrow> (guardian, guardian_review) sop" where
  "guardian_validate candidate existing s =
     (let (duplicate, similarity) = most_similar (r_content candidate) existing (None, 0);
          risk_score = (if 9 / 10 < similarity then 8 / 10 else if 20 < length (r_content candidate) then 2 / 10 else 5 / 10);
          review = \<lparr>gr_candidate_id = r_id candidate, gr_decision = (if 5 / 10 \<le> risk_score then ''review'' else ''approve''),
                    gr_risk_score = risk_score,
                    gr_duplicate_id = (case duplicate of Some d \<Rightarrow> if 9 / 10 < similarity then Some (r_id d) else None
                                       | None \<Rightarrow> None)\<rparr>
      in (Inr review, s\<lparr>g_reviews := g_reviews s @ [review]\<rparr>))"

definition guardian_version :: "memory_record \<Rightarrow> (guardian, version_entry) sop" where
  "guardian_version memory s =
     (let history = dict_get_default (g_versions s) (r_id memory) [];
          entry = \<lparr>ve_version = int (length history) + 1, ve_memory = memory\<rparr>
      in (Inr entry, s\<lparr>g_versions := dict_set (r_id memory) (history @ [entry]) (g_versions s),
            g_audit := g_audit s @ [\<lparr>ga_memory_id = r_id memory, ga_action = ''versioned'', ga_version = ve_version entry\<rparr>]\<rparr>))"

definition guardian_rollback :: "string \<Rightarrow> int \<Rightarrow> (guardian, memory_record) sop" where
  "guardian_rollback memory_id version s =
     (case List.find (\<lambda>entry. ve_version entry = version) (dict_get_default (g_versions s) memory_id []) of
        Some entry \<Rightarrow> (Inr (ve_memory entry), s\<lparr>g_audit := g_audit s @
          [\<lparr>ga_memory_id = memory_id, ga_action = ''rollback'', ga_version = version\<rparr>]\<rparr>)
      | None \<Rightarrow> (Inl (KeyError (''version '' @ str_of_int version @ '' not found for memory '' @ memory_id)), s))"

datatype guardian_call =
    G_validate memory_record "memory_record list"
  | G_version memory_record
  | G_rollback string int

fun guardian_step :: "guardian_call \<Rightarrow> guardian \<Rightarrow> guardian" where
  "guardian_step (G_validate c rs) s = snd (guardian_validate c rs s)"
| "guardian_step (G_version m) s = snd (guardian_version m s)"
| "guardian_step (G_rollback i v) s = snd (guardian_rollback i v s)"

definition guardian_history_of :: "string \<Rightarrow> guardian \<Rightarrow> version_entry list" where
  "guardian_history_of i s = dict_get_default (g_versions s) i []"

text \<open>The histories are numbered from one without gaps.\<close>

definition numbered_histories :: "guardian \<Rightarrow> bool" where
  "numbered_histories s \<longleftrightarrow> (\<forall>i. map ve_version (guardian_history_of i s) = map (\<lambda>n. int n + 1) [0..<length (guardian_history_of i s)])"

lemma guardian_frames [simp]:
  "guardian_history_of i (snd (guardian_validate c rs s)) = guardian_history_of i s"
  "guardian_history_of i (snd (guardian_rollback j v s)) = guardian_history_of i s"
  "guardian_history_of i (snd (guardian_version m s)) = (if i = r_id m
     then guardian_history_of i s @ [\<lparr>ve_version = int (length (guardian_history_of i s)) + 1, ve_memory = m\<rparr>] else guardian_history_of i s)"
  by (auto simp: guardian_history_of_def guardian_validate_def guardian_rollback_def guardian_version_def dict_get_default_def
      Let_def split: prod.splits option.splits)

lemma guardian_step_numbered: "numbered_histories s \<Longrightarrow> numbered_histories (guardian_step x s)"
  by (cases x) (auto simp: numbered_histories_def)

lemma guardian_step_history: "prefix (guardian_history_of i s) (guardian_history_of i (guardian_step x s))"
  by (cases x) auto

lemma guardian_step_audit: "prefix (g_audit s) (g_audit (guardian_step x s))"
  by (cases x) (auto simp: guardian_validate_def guardian_rollback_def guardian_version_def Let_def
      split: prod.splits option.splits)

interpretation guardian_numbers: invariant_system guardian_step numbered_histories
  by unfold_locales (rule guardian_step_numbered)

interpretation guardian_history: append_only guardian_step "guardian_history_of i" for i
  by unfold_locales (rule guardian_step_history)

interpretation guardian_audit: append_only guardian_step g_audit
  by unfold_locales (rule guardian_step_audit)

lemma find_numbered:
  assumes "map ve_version es = map (\<lambda>n. int n + 1) [0..<length es]" and "n < length es"
  shows "List.find (\<lambda>e. ve_version e = int n + 1) es = Some (es ! n)"
proof -
  have v: "ve_version (es ! m) = int m + 1" if "m < length es" for m
    using arg_cong [OF assms(1), of "\<lambda>xs. xs ! m"] that by simp
  show ?thesis unfolding find_Some_iff
    by (rule exI [of _ n]) (use assms(2) in \<open>auto simp: v\<close>)
qed

lemma most_similar_grows: "snd best \<le> snd (most_similar content rs best)"
proof (induction content rs best rule: most_similar.induct)
  case (2 content r rs dup sim)
  then show ?case by (cases "sim < ratio content (r_content r)") (auto simp: Let_def)
qed simp

lemma most_similar_upper: "r \<in> set rs \<Longrightarrow> ratio content (r_content r) \<le> snd (most_similar content rs best)"
proof (induction content rs best rule: most_similar.induct)
  case (2 content r' rs dup sim)
  show ?case
  proof (cases "r = r'")
    case True
    have "ratio content (r_content r) \<le> snd (if sim < ratio content (r_content r) then (Some r, ratio content (r_content r)) else (dup, sim))"
      by simp
    also have "\<dots> \<le> snd (most_similar content (r' # rs) (dup, sim))"
      unfolding most_similar.simps Let_def True by (rule most_similar_grows)
    finally show ?thesis .
  next
    case False
    with 2 show ?thesis by (simp add: Let_def)
  qed
qed simp

text \<open>A text among the records it is compared with is always held back.\<close>

lemma validate_present:
  assumes "r \<in> set existing" and "r_content r = r_content candidate"
  obtains v where "fst (guardian_validate candidate existing s) = Inr v" "gr_decision v = ''review''" "gr_risk_score v = 8 / 10"
proof -
  obtain d q where m: "most_similar (r_content candidate) existing (None, 0) = (d, q)" by fastforce
  from most_similar_upper [OF assms(1), of "r_content candidate" "(None, 0)"] assms(2) m
  have "1 \<le> q" by (simp add: ratio_self)
  then have "9 / 10 < q" by simp
  with m have "\<exists>v. fst (guardian_validate candidate existing s) = Inr v \<and> gr_decision v = ''review'' \<and> gr_risk_score v = 8 / 10"
    by (simp add: guardian_validate_def Let_def)
  with that show ?thesis by blast
qed

subsection \<open>Governance\<close>

record decision =
  d_id :: int
  d_title :: string
  d_body :: string
  d_risk_score :: rat
  d_status :: string

record architecture_review =
  ar_decision_id :: int
  ar_approver :: string
  ar_approved :: bool

record governance =
  decisions :: "decision list"
  architecture_reviews :: "architecture_review list"

definition new_governance :: governance where
  "new_governance = \<lparr>decisions = [], architecture_reviews = []\<rparr>"

definition risk_status :: "rat \<Rightarrow> string" where
  "risk_status risk_score = (if 5 / 10 \<le> risk_score then ''needs-review'' else ''approved'')"

definition propose :: "string \<Rightarrow> string \<Rightarrow> rat \<Rightarrow> (governance, decision) sop" where
  "propose title body risk_score s =
     (let d = \<lparr>d_id = int (length (decisions s)) + 1, d_title = title, d_body = body, d_risk_score = risk_score,
               d_status = risk_status risk_score\<rparr>
      in (Inr d, s\<lparr>decisions := decisions s @ [d]\<rparr>))"

text \<open>The position a Python index denotes: negative ones count from the end.\<close>

definition py_index :: "int \<Rightarrow> 'a list \<Rightarrow> nat result" where
  "py_index i xs = (if 0 \<le> i \<and> i < int (length xs) then Inr (nat i)
     else if i < 0 \<and> - int (length xs) \<le> i then Inr (nat (int (length xs) + i)) else Inl IndexError)"

definition review_status :: "bool \<Rightarrow> string" where
  "review_status approved = (if approved then ''approved'' else ''rejected'')"

definition governance_review :: "int \<Rightarrow> string \<Rightarrow> bool \<Rightarrow> (governance, architecture_review) sop" where
  "governance_review decision_id approver approved s =
     (case py_index (decision_id - 1) (decisions s) of
        Inl e \<Rightarrow> (Inl e, s)
      | Inr n \<Rightarrow>
         (let r = \<lparr>ar_decision_id = decision_id, ar_approver = approver, ar_approved = approved\<rparr>
          in (Inr r, s\<lparr>decisions := (decisions s)[n := (decisions s ! n)\<lparr>d_status := review_status approved\<rparr>],
                       architecture_reviews := architecture_reviews s @ [r]\<rparr>)))"

text \<open>Calls as the API admits them: decisions are reviewed by a positive number.\<close>

datatype governance_call = Propose string string rat | Review nat string bool

fun governance_step :: "governance_call \<Rightarrow> governance \<Rightarrow> governance" where
  "governance_step (Propose t b r) s = snd (propose t b r s)"
| "governance_step (Review n who ok) s = snd (governance_review (int n + 1) who ok s)"

text \<open>The status a decision should have: that of its latest review, or of its risk score.\<close>

definition due_status :: "architecture_review list \<Rightarrow> decision \<Rightarrow> string" where
  "due_status rs d = (case List.find (\<lambda>r. ar_decision_id r = d_id d) (rev rs) of
     Some r \<Rightarrow> review_status (ar_approved r) | None \<Rightarrow> risk_status (d_risk_score d))"

definition governance_ok :: "governance \<Rightarrow> bool" where
  "governance_ok s \<longleftrightarrow> map d_id (decisions s) = map (\<lambda>n. int n + 1) [0..<length (decisions s)] \<and>
     list_all (\<lambda>d. d_status d = due_status (architecture_reviews s) d) (decisions s) \<and>
     list_all (\<lambda>r. 1 \<le> ar_decision_id r \<and> ar_decision_id r \<le> int (length (decisions s))) (architecture_reviews s)"

lemma decision_number:
  assumes "governance_ok s" and "n < length (decisions s)"
  shows "d_id (decisions s ! n) = int n + 1"
proof -
  have "map d_id (decisions s) ! n = map (\<lambda>n. int n + 1) [0..<length (decisions s)] ! n"
    using assms(1) unfolding governance_ok_def by metis
  with assms(2) show ?thesis by simp
qed

lemma propose_ok:
  assumes "governance_ok s"
  shows "governance_ok (snd (propose t b r s))"
proof -
  have "List.find (\<lambda>q. ar_decision_id q = int (length (decisions s)) + 1) (rev (architecture_reviews s)) = None"
    using assms by (auto simp: governance_ok_def find_None_iff list_all_iff)
  with assms show ?thesis
    by (auto simp: governance_ok_def propose_def Let_def due_status_def list_all_iff)
qed

lemma review_ok:
  assumes "governance_ok s"
  shows "governance_ok (snd (governance_review (int n + 1) who ok s))"
proof (cases "n < length (decisions s)")
  case False
  then show ?thesis using assms by (simp add: governance_review_def py_index_def)
next
  case True
  let ?d = "(decisions s ! n)\<lparr>d_status := review_status ok\<rparr>"
  let ?r = "\<lparr>ar_decision_id = int n + 1, ar_approver = who, ar_approved = ok\<rparr>"
  have s': "snd (governance_review (int n + 1) who ok s) =
      s\<lparr>decisions := (decisions s)[n := ?d], architecture_reviews := architecture_reviews s @ [?r]\<rparr>"
    using True by (simp add: governance_review_def py_index_def Let_def)
  have ids: "map d_id ((decisions s)[n := ?d]) = map d_id (decisions s)"
    using True by (simp add: map_update list_update_same_conv)
  have "d_status ((decisions s)[n := ?d] ! m) = due_status (architecture_reviews s @ [?r]) ((decisions s)[n := ?d] ! m)"
    if m: "m < length (decisions s)" for m
  proof (cases "m = n")
    case True
    then show ?thesis using m decision_number [OF assms m] by (simp add: due_status_def)
  next
    case False
    moreover have "d_status (decisions s ! m) = due_status (architecture_reviews s) (decisions s ! m)"
      using assms m by (auto simp: governance_ok_def list_all_iff)
    ultimately show ?thesis using decision_number [OF assms m] by (simp add: due_status_def)
  qed
  then have "list_all (\<lambda>d. d_status d = due_status (architecture_reviews s @ [?r]) d) ((decisions s)[n := ?d])"
    by (auto simp: list_all_length)
  with assms True ids show ?thesis unfolding s' by (auto simp: governance_ok_def list_all_iff)
qed

interpretation governance: invariant_system governance_step governance_ok
proof unfold_locales
  fix s x
  assume "governance_ok s"
  then show "governance_ok (governance_step x s)" by (cases x) (simp_all add: propose_ok review_ok)
qed

subsection \<open>Self improvement\<close>

record proposal =
  pp_title :: string
  pp_priority :: string
  pp_expected_metric :: string

record evaluation =
  ev_metrics :: "(string, rat) dict"
  ev_proposals :: "proposal list"
  ev_agent_effectiveness :: rat

definition evaluate :: "(string, rat) dict \<Rightarrow> (evaluation list, evaluation) sop" where
  "evaluate metrics evaluations =
     (let success_rate = dict_get_default metrics ''success_rate'' 1;
          failure_rate = dict_get_default metrics ''failure_rate'' (max 0 (1 - success_rate));
          proposals =
            (if 5 / 100 < failure_rate then [\<lparr>pp_title = ''Reduce workflow failure rate'', pp_priority = ''high'',
               pp_expected_metric = ''failure_rate''\<rparr>] else []) @
            (if dict_get_default metrics ''tool_effectiveness'' 1 < 8 / 10 then [\<lparr>pp_title = ''Re-rank low-performing tools'',
               pp_priority = ''medium'', pp_expected_metric = ''tool_effectiveness''\<rparr>] else []);
          result = \<lparr>ev_metrics = metrics, ev_proposals = proposals,
            ev_agent_effectiveness = dict_get_default metrics ''agent_effectiveness'' success_rate\<rparr>
      in (Inr result, evaluations @ [result]))"

definition evaluation_step :: "(string, rat) dict \<Rightarrow> evaluation list \<Rightarrow> evaluation list" where
  "evaluation_step m es = snd (evaluate m es)"

interpretation evaluations: append_only evaluation_step "\<lambda>es. es"
  by unfold_locales (simp add: evaluation_step_def evaluate_def Let_def)

subsection \<open>Properties\<close>

text \<open>
  C39: What the guardian recorded can be restored: a memory given to \<^verbatim>\<open>version\<close> is what \<^verbatim>\<open>rollback\<close>
  returns for the version number it got, whatever calls came before and whatever calls of any kind
  came in between.
\<close>

theorem guardian_restores:
  "let s = fold guardian_step xs new_guardian; s' = fold guardian_step ys (snd (guardian_version m s)) in
   \<exists>e. fst (guardian_version m s) = Inr e \<and> fst (guardian_rollback (r_id m) (ve_version e) s') = Inr m"
proof -
  define s where "s = fold guardian_step xs new_guardian"
  define s1 where "s1 = snd (guardian_version m s)"
  define s' where "s' = fold guardian_step ys s1"
  let ?n = "length (guardian_history_of (r_id m) s)"
  have "numbered_histories new_guardian"
    by (simp add: numbered_histories_def new_guardian_def guardian_history_of_def dict_get_default_def)
  then have "numbered_histories (fold guardian_step (xs @ G_version m # ys) new_guardian)"
    by (rule guardian_numbers.run_inv)
  then have "numbered_histories s'" by (simp add: s'_def s1_def s_def)
  moreover have h1: "guardian_history_of (r_id m) s1 ! ?n = \<lparr>ve_version = int ?n + 1, ve_memory = m\<rparr>"
      "?n < length (guardian_history_of (r_id m) s1)" by (simp_all add: s1_def)
  moreover have "guardian_history_of (r_id m) s' ! ?n = guardian_history_of (r_id m) s1 ! ?n"
    unfolding s'_def by (rule guardian_history.run_entry) (rule h1(2))
  moreover have "?n < length (guardian_history_of (r_id m) s')"
    using prefix_length_le [OF guardian_history.run_log [of "r_id m" s1 ys]] h1(2) by (simp add: s'_def)
  ultimately have "List.find (\<lambda>e. ve_version e = int ?n + 1) (guardian_history_of (r_id m) s') = Some \<lparr>ve_version = int ?n + 1, ve_memory = m\<rparr>"
    using find_numbered [of "guardian_history_of (r_id m) s'" ?n] by (simp add: numbered_histories_def)
  then have "fst (guardian_rollback (r_id m) (int ?n + 1) s') = Inr m"
    by (simp add: guardian_rollback_def guardian_history_of_def)
  then show ?thesis
    unfolding Let_def s_def [symmetric] s1_def [symmetric] s'_def [symmetric]
    by (simp add: guardian_version_def guardian_history_of_def Let_def)
qed

text \<open>
  The status of every architecture decision is accounted for: after any sequence of proposals
  and reviews the decisions are numbered from one without gaps, every review names an existing
  decision, and each decision has the status of its latest review, or, before any review,
  \<^verbatim>\<open>needs-review\<close> exactly when its risk score is at least one half.
\<close>

lemma governance_status_accounted:
  "let s = fold governance_step xs new_governance in
     map d_id (decisions s) = map (\<lambda>n. int n + 1) [0..<length (decisions s)] \<and>
     list_all (\<lambda>r. 1 \<le> ar_decision_id r \<and> ar_decision_id r \<le> int (length (decisions s))) (architecture_reviews s) \<and>
     list_all (\<lambda>d. d_status d = due_status (architecture_reviews s) d) (decisions s)"
  using governance.run_inv [of new_governance xs]
  by (simp add: governance_ok_def new_governance_def Let_def)

end
