(* ===== verification/Telemetry.thy ===== *)
theory Telemetry
  imports Py_Core
begin

section \<open>Telemetry (telemetry.py)\<close>

text \<open>
  \<^verbatim>\<open>TelemetryRegistry\<close> of \<^verbatim>\<open>agi_platform/telemetry.py\<close>: counters, histograms, the \<^verbatim>\<open>timer\<close> context
  manager and the text exposition. The timer is a combinator on operations of a larger state:
  \<open>upd\<close> changes the registry in that state, \<open>ms\<close> is the elapsed time the clock gives. How a float
  is printed is the argument \<open>float_repr\<close> of \<open>prometheus\<close>.
\<close>

record telemetry =
  counters :: "(string, rat) dict"
  histograms :: "(string, rat list) dict"

definition new_telemetry :: telemetry where
  "new_telemetry = \<lparr>counters = [], histograms = []\<rparr>"

definition label_text :: "(string, string) dict \<Rightarrow> string" where
  "label_text labels = join '','' (map (\<lambda>(k, v). k @ ''='' @ [CHR 0x22] @ v @ [CHR 0x22]) (sorted_items labels))"

definition metric_key :: "string \<Rightarrow> (string, string) dict \<Rightarrow> string" where
  "metric_key name labels = (if labels = [] then name else name @ ''{'' @ label_text labels @ ''}'')"

definition increment :: "string \<Rightarrow> rat \<Rightarrow> (string, string) dict \<Rightarrow> telemetry \<Rightarrow> telemetry" where
  "increment name value labels t = (let k = metric_key name labels in
     t\<lparr>counters := dict_set k (dict_get_default (counters t) k 0 + value) (counters t)\<rparr>)"

definition observe :: "string \<Rightarrow> rat \<Rightarrow> (string, string) dict \<Rightarrow> telemetry \<Rightarrow> telemetry" where
  "observe name value labels t = (let k = metric_key name labels in
     t\<lparr>histograms := dict_set k (dict_get_default (histograms t) k [] @ [value]) (histograms t)\<rparr>)"

definition timer ::
    "((telemetry \<Rightarrow> telemetry) \<Rightarrow> 's \<Rightarrow> 's) \<Rightarrow> rat \<Rightarrow> string \<Rightarrow> (string, string) dict \<Rightarrow> ('s, 'a) sop \<Rightarrow> ('s, 'a) sop" where
  "timer upd ms name labels m s = (case m s of
     (Inr a, s') \<Rightarrow> (Inr a, upd (observe (name @ ''_latency_ms'') ms labels)
                            (upd (increment (name @ ''_success_total'') 1 labels) s'))
   | (Inl e, s') \<Rightarrow> (Inl e, upd (observe (name @ ''_latency_ms'') ms labels)
                            (upd (increment (name @ ''_error_total'') 1 labels) s')))"

text \<open>\<^verbatim>\<open>round(x, 3)\<close>: to the nearest, ties to the even neighbour.\<close>

definition round3 :: "rat \<Rightarrow> rat" where
  "round3 x = (let y = x * 1000; f = floor y; d = y - of_int f in
     of_int (if d < 1 / 2 \<or> (d = 1 / 2 \<and> even f) then f else f + 1) / 1000)"

definition histogram_lines :: "(rat \<Rightarrow> string) \<Rightarrow> string \<times> rat list \<Rightarrow> string list" where
  "histogram_lines float_repr = (\<lambda>(k, vs). if vs = [] then [] else
     [k @ ''_count '' @ str_of_nat (length vs), k @ ''_sum '' @ float_repr (round3 (sum_list vs)),
      k @ ''_avg '' @ float_repr (round3 (sum_list vs / of_nat (length vs)))])"

definition prometheus :: "(rat \<Rightarrow> string) \<Rightarrow> telemetry \<Rightarrow> string" where
  "prometheus float_repr t =
     join [CHR 0x0A] (map (\<lambda>(k, v). k @ '' '' @ float_repr v) (sorted_items (counters t)) @
       concat (map (histogram_lines float_repr) (sorted_items (histograms t)))) @ [CHR 0x0A]"

subsection \<open>What a timed operation records\<close>

definition counter :: "string \<Rightarrow> (string, string) dict \<Rightarrow> telemetry \<Rightarrow> rat" where
  "counter name labels t = dict_get_default (counters t) (metric_key name labels) 0"

definition observations :: "string \<Rightarrow> (string, string) dict \<Rightarrow> telemetry \<Rightarrow> rat list" where
  "observations name labels t = dict_get_default (histograms t) (metric_key name labels) []"

lemma metric_key_same: "metric_key a labels = metric_key b labels \<longleftrightarrow> a = b"
  by (simp add: metric_key_def)

lemma counter_increment:
  "counter a labels (increment b v labels t) = (if a = b then counter a labels t + v else counter a labels t)"
  by (simp add: counter_def increment_def Let_def dict_get_default_def metric_key_same)

lemma counter_observe [simp]: "counter a labels (observe b v ls t) = counter a labels t"
  by (simp add: counter_def observe_def Let_def)

lemma observations_observe:
  "observations a labels (observe b v labels t) = (if a = b then observations a labels t @ [v] else observations a labels t)"
  by (simp add: observations_def observe_def Let_def dict_get_default_def metric_key_same)

lemma observations_increment [simp]: "observations a labels (increment b v ls t) = observations a labels t"
  by (simp add: observations_def increment_def Let_def)

text \<open>A part of the state that \<open>upd\<close> changes and \<open>get\<close> reads.\<close>

locale registry_in_state =
  fixes get :: "'s \<Rightarrow> telemetry"
    and upd :: "(telemetry \<Rightarrow> telemetry) \<Rightarrow> 's \<Rightarrow> 's"
  assumes get_upd: "get (upd f s) = f (get s)"
begin

lemma timer_records:
  assumes "m s = (r, s1)" and "timer upd ms name labels m s = (r', s')"
  shows "r' = r \<and>
    counter (name @ ''_success_total'') labels (get s') =
      counter (name @ ''_success_total'') labels (get s1) + (if isl r then 0 else 1) \<and>
    counter (name @ ''_error_total'') labels (get s') =
      counter (name @ ''_error_total'') labels (get s1) + (if isl r then 1 else 0) \<and>
    observations (name @ ''_latency_ms'') labels (get s') = observations (name @ ''_latency_ms'') labels (get s1) @ [ms]"
  using assms
  by (cases r) (auto simp: timer_def get_upd counter_increment observations_observe)

end

end
