(* ===== verification/Intelligence.thy ===== *)
theory Intelligence
  imports Telemetry Outbound
begin

section \<open>Research, repositories, articles and code analysis\<close>

text \<open>
  \<^verbatim>\<open>ResearchLayer\<close> (\<^verbatim>\<open>research/core.py\<close>), \<^verbatim>\<open>GitHubIntelligence\<close> (\<^verbatim>\<open>github_intel/core.py\<close>),
  \<^verbatim>\<open>ChineseResearchHub\<close> (\<^verbatim>\<open>chinese_hub/core.py\<close>) and \<^verbatim>\<open>AnalysisLayer\<close> (\<^verbatim>\<open>analysis/core.py\<close>). The
  regular expressions are matchers of their own. The world supplies the environment variables, the
  network as the n-th outbound call sees it, the text of exceptions and of JSON values, and what the
  Python parser says of a source text. The Chinese search terms are lists of code points; a text of
  the model has code points up to 255, so of these terms only \<^verbatim>\<open>CVE\<close> can occur in it.
  Shown: research and repository indexing contact the hosts of their allow list only, redirects
  included.
\<close>

subsection \<open>State and world\<close>

record evidence =
  ed_source :: string
  ed_title :: json
  ed_url :: json
  ed_trust_score :: rat
  ed_metadata :: json

record research_result =
  rs_query :: string
  rs_evidence :: "evidence list"
  rs_iocs :: "string list"
  rs_trust_score :: rat
  rs_errors :: "(string \<times> string) list"

record research_report =
  rp_summary :: string
  rp_result :: research_result

record repository =
  rr_full_name :: json
  rr_url :: json
  rr_description :: json
  rr_default_branch :: json
  rr_stars :: json
  rr_forks :: json
  rr_open_issues :: json
  rr_dependencies :: "string list"
  rr_contributors :: "json list"

record article =
  at_id :: int
  at_title :: string
  at_script :: string
  at_original :: string
  at_translated :: json
  at_translation_provider :: string
  at_translation_status :: string
  at_classification :: string
  at_iocs :: "string list"

record finding =
  fd_severity :: string
  fd_rule :: string
  fd_message :: string

record analysis =
  an_language :: string
  an_findings :: "finding list"
  an_lines :: nat
  an_findings_count :: nat

record intel =
  in_reports :: "research_report list"
  in_repositories :: "(string, repository) dict"
  in_articles :: "article list"
  in_runs :: "analysis list"
  in_sent :: "sent_request list"
  in_calls :: nat

definition new_intel :: intel where
  "new_intel = \<lparr>in_reports = [], in_repositories = [], in_articles = [], in_runs = [], in_sent = [], in_calls = 0\<rparr>"

record intel_world =
  iw_getenv :: "string \<Rightarrow> string option"
  iw_network :: "nat \<Rightarrow> net"
  iw_exn_str :: "py_exn \<Rightarrow> string"
  iw_repr :: "json \<Rightarrow> string"
  iw_ast_parse :: "string \<Rightarrow> string option result"

definition fetch :: "intel_world \<Rightarrow> (net \<Rightarrow> (sent_request list, http_response) sop) \<Rightarrow> (intel, http_response) sop" where
  "fetch w req s = (case req (iw_network w (in_calls s)) (in_sent s) of (r, sent) \<Rightarrow>
     (and_then r raise_for_status, s\<lparr>in_sent := sent, in_calls := in_calls s + 1\<rparr>))"

definition github_headers :: "intel_world \<Rightarrow> (string, string) dict" where
  "github_headers w = (''Accept'', ''application/vnd.github+json'') #
     (case iw_getenv w ''GITHUB_TOKEN'' of None \<Rightarrow> []
      | Some token \<Rightarrow> if token = [] then [] else [(''Authorization'', ''Bearer '' @ token)])"

text \<open>\<^verbatim>\<open>v[k]\<close> for a string \<^verbatim>\<open>k\<close>, and the slice \<^verbatim>\<open>v[:3]\<close>.\<close>

definition json_item :: "json \<Rightarrow> string \<Rightarrow> json result" where
  "json_item v k = (case v of JObj m \<Rightarrow> (case dict_get m k of None \<Rightarrow> Inl (KeyError k) | Some x \<Rightarrow> Inr x)
     | _ \<Rightarrow> Inl (TypeError ''indices must be integers or slices''))"

definition json_first3 :: "json \<Rightarrow> json result" where
  "json_first3 v = (case v of JList l \<Rightarrow> Inr (JList (take 3 l)) | JStr s \<Rightarrow> Inr (JStr (take 3 s))
     | _ \<Rightarrow> Inl (TypeError ''object is not subscriptable''))"

subsection \<open>Indicators of compromise\<close>

text \<open>
  The expression \<^verbatim>\<open>(?:\d{1,3}\.){3}\d{1,3}|[a-fA-F0-9]{32,64}|CVE-\d{4}-\d+\<close>, ignoring case: the length of its
  match at the start of a text, the alternatives tried in their order.
\<close>

definition digits :: "string \<Rightarrow> nat" where
  "digits t = length (takeWhile is_digit t)"

definition octet_dot :: "string \<Rightarrow> nat option" where
  "octet_dot t = (let n = digits t in
     if 1 \<le> n \<and> n \<le> 3 \<and> prefix ''.'' (drop n t) then Some (n + 1) else None)"

definition ip_at :: "string \<Rightarrow> nat option" where
  "ip_at t = (case octet_dot t of None \<Rightarrow> None | Some a \<Rightarrow>
     (case octet_dot (drop a t) of None \<Rightarrow> None | Some b \<Rightarrow>
     (case octet_dot (drop (a + b) t) of None \<Rightarrow> None | Some c \<Rightarrow>
       (let n = digits (drop (a + b + c) t) in if n = 0 then None else Some (a + b + c + min 3 n)))))"

definition hash_at :: "string \<Rightarrow> nat option" where
  "hash_at t = (let n = length (takeWhile (\<lambda>c. hex_val c \<noteq> None) t) in if 32 \<le> n then Some (min 64 n) else None)"

definition cve_at :: "string \<Rightarrow> nat option" where
  "cve_at t = (if lower (take 4 t) = ''cve-'' \<and> length (filter is_digit (take 4 (drop 4 t))) = 4 \<and> prefix ''-'' (drop 8 t) \<and>
     digits (drop 9 t) \<noteq> 0 then Some (9 + digits (drop 9 t)) else None)"

definition ioc_at :: "string \<Rightarrow> nat option" where
  "ioc_at t = (case ip_at t of Some n \<Rightarrow> Some n | None \<Rightarrow> (case hash_at t of Some n \<Rightarrow> Some n | None \<Rightarrow> cve_at t))"

text \<open>\<^verbatim>\<open>re.findall\<close>: \<open>skip\<close> characters belong to the last match.\<close>

fun find_iocs :: "nat \<Rightarrow> string \<Rightarrow> string list" where
  "find_iocs skip [] = []"
| "find_iocs (Suc k) (c # cs) = find_iocs k cs"
| "find_iocs 0 (c # cs) = (case ioc_at (c # cs) of
     Some n \<Rightarrow> take n (c # cs) # find_iocs (n - 1) cs | None \<Rightarrow> find_iocs 0 cs)"

subsection \<open>Research\<close>

definition research_policy :: OutboundPolicy where
  "research_policy = default_policy\<lparr>allowed_domains := [''api.github.com'', ''api.osv.dev'']\<rparr>"

definition github_evidence :: "json \<Rightarrow> evidence result" where
  "github_evidence item =
     and_then (json_item item ''full_name'') (\<lambda>title.
     and_then (json_item item ''html_url'') (\<lambda>url.
     and_then (json_get item ''stargazers_count'' (JInt 0)) (\<lambda>stars.
     and_then (json_get item ''description'' JNull) (\<lambda>description.
     Inr \<lparr>ed_source = ''github'', ed_title = title, ed_url = url, ed_trust_score = 7 / 10,
          ed_metadata = JObj [(''stars'', stars), (''description'', description)]\<rparr>))))"

definition osv_evidence :: "json \<Rightarrow> evidence result" where
  "osv_evidence vuln =
     and_then (json_get vuln ''id'' JNull) (\<lambda>title.
     and_then (json_get vuln ''database_specific'' (JObj [])) (\<lambda>specific.
     and_then (json_get specific ''url'' JNull) (\<lambda>url.
     Inr \<lparr>ed_source = ''osv'', ed_title = title, ed_url = url, ed_trust_score = 9 / 10, ed_metadata = vuln\<rparr>)))"

definition collect_source :: "intel_world \<Rightarrow> string \<Rightarrow> string \<Rightarrow> (intel, evidence list) sop" where
  "collect_source w source query =
     (if source = ''github'' then
        op_bind (fetch w (\<lambda>n. http_get n research_policy [] ''https://api.github.com/search/repositories''
          [(''q'', query), (''per_page'', ''3'')] (github_headers w))) (\<lambda>response.
        lift (and_then (body_json response) (\<lambda>body.
              and_then (json_get body ''items'' (JList [])) (\<lambda>items.
              and_then (py_iter items) (map_result github_evidence)))))
      else if source = ''osv'' then
        op_bind (fetch w (\<lambda>n. http_post n research_policy [] ''https://api.osv.dev/v1/query'' []
          (JObj [(''package'', JObj [(''name'', JStr query)])]))) (\<lambda>response.
        lift (and_then (body_json response) (\<lambda>body.
              and_then (json_get body ''vulns'' (JList [])) (\<lambda>vulns.
              and_then (json_first3 vulns) (\<lambda>firsts.
              and_then (py_iter firsts) (map_result osv_evidence))))))
      else op_raise (ValueError (''unsupported research source: '' @ source)))"

fun collect ::
    "intel_world \<Rightarrow> string \<Rightarrow> string list \<Rightarrow> evidence list \<times> (string \<times> string) list \<Rightarrow>
     (intel, evidence list \<times> (string \<times> string) list) sop" where
  "collect w query [] acc s = (Inr acc, s)"
| "collect w query (source # sources) (evidence, errors) s =
     (case collect_source w source query s of
        (Inr found, s') \<Rightarrow> collect w query sources (evidence @ found, errors) s'
      | (Inl e, s') \<Rightarrow> if is_HTTPError e \<or> is_ValueError e
          then collect w query sources (evidence, errors @ [(source, iw_exn_str w e)]) s' else (Inl e, s'))"

definition research_query :: "intel_world \<Rightarrow> string \<Rightarrow> string list option \<Rightarrow> (intel, research_result) sop" where
  "research_query w query sources =
     (let sources = (case sources of None \<Rightarrow> [''github'', ''osv''] | Some ss \<Rightarrow> if ss = [] then [''github'', ''osv''] else ss) in
      op_bind (collect w query sources ([], [])) (\<lambda>(evidence, errors).
      op_return \<lparr>rs_query = query, rs_evidence = evidence, rs_iocs = sorted_set (find_iocs 0 query),
        rs_trust_score = (if evidence = [] then 0
          else round3 (sum_list (map ed_trust_score evidence) / of_nat (length evidence))),
        rs_errors = errors\<rparr>))"

definition research_summary :: "research_result \<Rightarrow> string" where
  "research_summary r = (if rs_evidence r = [] then ''No evidence returned by configured live sources.''
     else ''Found '' @ str_of_nat (length (rs_evidence r)) @ '' evidence items from '' @
          join '', '' (sorted_set (map ed_source (rs_evidence r))) @ ''.'')"

definition report :: "intel_world \<Rightarrow> string \<Rightarrow> (intel, research_report) sop" where
  "report w query = op_bind (research_query w query None) (\<lambda>result.
     let rep = \<lparr>rp_summary = research_summary result, rp_result = result\<rparr> in
     op_bind (op_modify (\<lambda>s. s\<lparr>in_reports := in_reports s @ [rep]\<rparr>)) (\<lambda>_. op_return rep))"

subsection \<open>Repositories\<close>

definition github_policy :: OutboundPolicy where
  "github_policy = default_policy\<lparr>allowed_domains := [''api.github.com'']\<rparr>"

definition strip_slashes :: "string \<Rightarrow> string" where
  "strip_slashes p = rstrip_char (CHR ''/'') (dropWhile (\<lambda>c. c = CHR ''/'') p)"

definition removesuffix :: "string \<Rightarrow> string \<Rightarrow> string" where
  "removesuffix s suf = (if suf \<noteq> [] \<and> suffix suf s then take (length s - length suf) s else s)"

definition repository_record :: "json \<Rightarrow> string list \<Rightarrow> json result \<Rightarrow> repository result" where
  "repository_record repo dependencies contributors =
     and_then (json_item repo ''full_name'') (\<lambda>full_name.
     and_then (json_item repo ''html_url'') (\<lambda>url.
     and_then (json_get repo ''description'' JNull) (\<lambda>description.
     and_then (json_get repo ''default_branch'' JNull) (\<lambda>branch.
     and_then (json_get repo ''stargazers_count'' (JInt 0)) (\<lambda>stars.
     and_then (json_get repo ''forks_count'' (JInt 0)) (\<lambda>forks.
     and_then (json_get repo ''open_issues_count'' (JInt 0)) (\<lambda>issues.
     and_then contributors (\<lambda>cs.
     and_then (py_iter cs) (\<lambda>items.
     and_then (map_result (\<lambda>item. json_get item ''login'' JNull) items) (\<lambda>logins.
     Inr \<lparr>rr_full_name = full_name, rr_url = url, rr_description = description, rr_default_branch = branch,
          rr_stars = stars, rr_forks = forks, rr_open_issues = issues, rr_dependencies = dependencies,
          rr_contributors = logins\<rparr>))))))))))"

definition index_repository :: "intel_world \<Rightarrow> string \<Rightarrow> string list option \<Rightarrow> (intel, repository) sop" where
  "index_repository w url dependencies =
     op_bind (lift (urlparse url)) (\<lambda>parsed.
     let parts = split_on (CHR ''/'') (removesuffix (strip_slashes (url_path parsed)) ''.git'') in
     if url_netloc parsed \<notin> {''github.com'', ''www.github.com''} \<or> length parts < 2
     then op_raise (ValueError ''expected a GitHub repository URL'')
     else let full_name = parts ! 0 @ ''/'' @ parts ! 1;
              api = ''https://api.github.com/repos/'' @ full_name
          in op_bind (fetch w (\<lambda>n. http_get n github_policy [] api [] (github_headers w))) (\<lambda>repo_response.
             op_bind (fetch w (\<lambda>n. http_get n github_policy [] (api @ ''/contributors'') [(''per_page'', ''10'')]
               (github_headers w))) (\<lambda>contributors_response.
             op_bind (lift (and_then (body_json repo_response) (\<lambda>repo. repository_record repo
               (case dependencies of None \<Rightarrow> [] | Some ds \<Rightarrow> ds) (body_json contributors_response)))) (\<lambda>r.
             op_bind (op_modify (\<lambda>s. s\<lparr>in_repositories := dict_set full_name r (in_repositories s)\<rparr>)) (\<lambda>_.
             op_return r)))))"

record repository_analysis =
  ra_repository :: string
  ra_dependency_count :: nat
  ra_stars :: json
  ra_open_issues :: json
  ra_contributors :: "json list"
  ra_knowledge :: "string list"

definition analyze_indexed :: "intel_world \<Rightarrow> string \<Rightarrow> (intel, repository_analysis) sop" where
  "analyze_indexed w full_name s = (case dict_get (in_repositories s) full_name of
     None \<Rightarrow> (Inl (KeyError full_name), s)
   | Some repo \<Rightarrow> (Inr \<lparr>ra_repository = full_name, ra_dependency_count = length (rr_dependencies repo),
       ra_stars = rr_stars repo, ra_open_issues = rr_open_issues repo, ra_contributors = rr_contributors repo,
       ra_knowledge = [full_name @ '' default branch is '' @ py_str (iw_repr w) (rr_default_branch repo),
         full_name @ '' currently has '' @ py_str (iw_repr w) (rr_stars repo) @ '' stars and '' @
         py_str (iw_repr w) (rr_open_issues repo) @ '' open issues'']\<rparr>, s))"

subsection \<open>Articles\<close>

definition threat_terms :: "nat list list" where
  "threat_terms = [[23041, 32961], [28431, 27934], [25915, 20987], [26408, 39532], [24694, 24847, 36719, 20214],
     [21518, 38376], [21202, 32034], [67, 86, 69]]"

fun contains_points :: "nat list \<Rightarrow> nat list \<Rightarrow> bool" where
  "contains_points p [] = (p = [])"
| "contains_points p (c # cs) = (prefix p (c # cs) \<or> contains_points p cs)"

definition classify :: "string \<Rightarrow> string" where
  "classify text = (if list_ex (\<lambda>term. contains_points term (map of_char text)) threat_terms
     then ''threat-intelligence'' else ''general-research'')"

definition translate :: "intel_world \<Rightarrow> string \<Rightarrow> (intel, json \<times> string \<times> string) sop" where
  "translate w text = (case iw_getenv w ''LIBRETRANSLATE_URL'' of
     None \<Rightarrow> op_return (JStr text, ''none-configured'', ''untranslated'')
   | Some endpoint \<Rightarrow> if endpoint = [] then op_return (JStr text, ''none-configured'', ''untranslated'')
      else op_bind (fetch w (\<lambda>n. http_post n default_policy [] (rstrip_char (CHR ''/'') endpoint @ ''/translate'') []
             (JObj ([(''q'', JStr text), (''source'', JStr ''zh''), (''target'', JStr ''en''), (''format'', JStr ''text'')] @
               (case iw_getenv w ''LIBRETRANSLATE_API_KEY'' of None \<Rightarrow> []
                | Some k \<Rightarrow> if k = [] then [] else [(''api_key'', JStr k)]))))) (\<lambda>response.
           op_bind (lift (and_then (body_json response) (\<lambda>body. json_item body ''translatedText''))) (\<lambda>t.
           op_return (t, ''libretranslate'', ''translated''))))"

definition ingest :: "intel_world \<Rightarrow> string \<Rightarrow> string \<Rightarrow> string \<Rightarrow> (intel, article) sop" where
  "ingest w title body script = op_bind (translate w body) (\<lambda>(t, provider, status).
     op_bind (op_get in_articles) (\<lambda>articles.
     let a = \<lparr>at_id = int (length articles) + 1, at_title = title, at_script = script, at_original = body,
              at_translated = t, at_translation_provider = provider, at_translation_status = status,
              at_classification = classify body, at_iocs = find_iocs 0 body\<rparr>
     in op_bind (op_modify (\<lambda>s. s\<lparr>in_articles := in_articles s @ [a]\<rparr>)) (\<lambda>_. op_return a)))"

subsection \<open>Code analysis\<close>

text \<open>The three expressions: \<^verbatim>\<open>eval\(\<close>, \<^verbatim>\<open>subprocess\.Popen\(.*shell=True\<close> on one line, and a quoted password.\<close>

definition has_eval :: "string \<Rightarrow> bool" where
  "has_eval code = contains ''eval('' code"

definition has_shell :: "string \<Rightarrow> bool" where
  "has_shell code = list_ex (\<lambda>t. startswith t ''subprocess.Popen('' \<and>
     contains ''shell=True'' (takeWhile (\<lambda>c. c \<noteq> CHR 0x0A) (drop 17 t))) (suffixes code)"

definition has_password :: "string \<Rightarrow> bool" where
  "has_password code = list_ex (\<lambda>t. startswith t ''password'' \<and>
     (case dropWhile is_space (drop 8 t) of
        [] \<Rightarrow> False
      | c # cs \<Rightarrow> c = CHR ''='' \<and>
          (case dropWhile is_space cs of [] \<Rightarrow> False | q # _ \<Rightarrow> q = CHR 0x27 \<or> q = CHR 0x22))) (suffixes code)"

text \<open>\<^verbatim>\<open>len(code.splitlines())\<close>.\<close>

definition line_break :: "char \<Rightarrow> bool" where
  "line_break c = ((of_char c :: nat) \<in> {10, 11, 12, 13, 28, 29, 30, 133})"

fun count_lines :: "string \<Rightarrow> nat" where
  "count_lines [] = 0"
| "count_lines [c] = 1"
| "count_lines (c # d # cs) =
     (if line_break c then (if c = CHR 0x0D \<and> d = CHR 0x0A then Suc (count_lines cs) else Suc (count_lines (d # cs)))
      else count_lines (d # cs))"

definition pattern_finding :: "string \<Rightarrow> string \<Rightarrow> finding" where
  "pattern_finding severity rule = \<lparr>fd_severity = severity, fd_rule = rule, fd_message = ''Detected '' @ rule\<rparr>"

definition syntax_findings :: "intel_world \<Rightarrow> string \<Rightarrow> string \<Rightarrow> finding list result" where
  "syntax_findings w code language = (if language = ''python'' then and_then (iw_ast_parse w code) (\<lambda>r. case r of
       None \<Rightarrow> Inr [] | Some message \<Rightarrow> Inr [\<lparr>fd_severity = ''high'', fd_rule = ''python.syntax'', fd_message = message\<rparr>])
     else Inr [])"

definition analyze_code :: "intel_world \<Rightarrow> string \<Rightarrow> string \<Rightarrow> (intel, analysis) sop" where
  "analyze_code w code language = op_bind (lift (syntax_findings w code language)) (\<lambda>syntax.
     let findings = syntax @
           (if has_eval code then [pattern_finding ''high'' ''python.eval''] else []) @
           (if has_shell code then [pattern_finding ''high'' ''python.shell''] else []) @
           (if has_password code then [pattern_finding ''medium'' ''secret.literal''] else []);
         result = \<lparr>an_language = language, an_findings = findings, an_lines = count_lines code,
           an_findings_count = length findings\<rparr>
     in op_bind (op_modify (\<lambda>s. s\<lparr>in_runs := in_runs s @ [result]\<rparr>)) (\<lambda>_. op_return result))"

record repository_findings =
  rf_files :: "(string, analysis) dict"
  rf_files_analyzed :: nat
  rf_findings_count :: nat

fun analyze_files :: "intel_world \<Rightarrow> (string, string) dict \<Rightarrow> (intel, (string, analysis) dict) sop" where
  "analyze_files w [] s = (Inr [], s)"
| "analyze_files w ((path, content) # files) s =
     op_bind (analyze_code w content (if endswith path ''.py'' then ''python'' else ''text'')) (\<lambda>r.
     op_bind (analyze_files w files) (\<lambda>rs. op_return ((path, r) # rs))) s"

definition analyze_repository :: "intel_world \<Rightarrow> (string, string) dict \<Rightarrow> (intel, repository_findings) sop" where
  "analyze_repository w files = op_bind (analyze_files w files) (\<lambda>rs.
     op_return \<lparr>rf_files = rs, rf_files_analyzed = length files,
       rf_findings_count = sum_list (map an_findings_count (dict_values rs))\<rparr>)"

subsection \<open>The repositories indexed\<close>

text \<open>Only \<open>index_repository\<close> changes what is indexed.\<close>

definition keeps_repositories :: "(intel, 'a) sop \<Rightarrow> bool" where
  "keeps_repositories m \<longleftrightarrow> (\<forall>s. in_repositories (snd (m s)) = in_repositories s)"

lemma keeps_repositories_bind:
  "keeps_repositories m \<Longrightarrow> (\<And>a. keeps_repositories (f a)) \<Longrightarrow> keeps_repositories (op_bind m f)"
  unfolding keeps_repositories_def op_bind_def by (auto split: prod.split sum.split) (metis snd_conv)+

lemma keeps_repositories_simple:
  "keeps_repositories (op_return a)" "keeps_repositories (op_raise e)" "keeps_repositories (op_get g)" "keeps_repositories (lift r)"
  "(\<And>s. in_repositories (h s) = in_repositories s) \<Longrightarrow> keeps_repositories (op_modify h)" "keeps_repositories (fetch w req)"
  by (simp_all add: keeps_repositories_def lift_def fetch_def split: prod.split)

lemmas keeps_repositories_intros = keeps_repositories_bind keeps_repositories_simple

lemma collect_source_repositories: "keeps_repositories (collect_source w source query)"
  unfolding collect_source_def by (auto intro!: keeps_repositories_intros)

lemma collect_repositories: "in_repositories (snd (collect w query sources acc s)) = in_repositories s"
proof (induction w query sources acc s rule: collect.induct)
  case (2 w query source sources evidence errors s)
  have "in_repositories (snd (collect_source w source query s)) = in_repositories s"
    using collect_source_repositories unfolding keeps_repositories_def by blast
  then show ?case using 2 by (auto split: prod.split sum.split)
qed simp

lemma research_query_repositories: "keeps_repositories (research_query w query sources)"
  unfolding research_query_def Let_def
  by (rule keeps_repositories_bind) (auto simp: keeps_repositories_def collect_repositories)

lemma report_repositories: "keeps_repositories (report w query)"
  unfolding report_def Let_def by (intro keeps_repositories_intros research_query_repositories) simp

lemma translate_repositories: "keeps_repositories (translate w text)"
  unfolding translate_def by (auto intro!: keeps_repositories_intros split: option.split)

lemma ingest_repositories: "keeps_repositories (ingest w title body script)"
  unfolding ingest_def
  by (rule keeps_repositories_bind [OF translate_repositories]) (simp add: keeps_repositories_def Let_def split: prod.split)

lemma analyze_code_repositories: "keeps_repositories (analyze_code w code language)"
  unfolding analyze_code_def Let_def by (intro keeps_repositories_intros) simp

lemma analyze_files_repositories: "keeps_repositories (analyze_files w files)"
proof (induction files)
  case Nil
  show ?case by (simp add: keeps_repositories_def)
next
  case (Cons f files)
  obtain path content where "f = (path, content)" by fastforce
  then have "analyze_files w (f # files) =
      op_bind (analyze_code w content (if endswith path ''.py'' then ''python'' else ''text'')) (\<lambda>r.
      op_bind (analyze_files w files) (\<lambda>rs. op_return ((path, r) # rs)))" by (simp add: fun_eq_iff)
  then show ?case using Cons by (simp only:) (intro keeps_repositories_bind keeps_repositories_simple analyze_code_repositories)
qed

lemma analyze_repository_repositories: "keeps_repositories (analyze_repository w files)"
  unfolding analyze_repository_def by (intro keeps_repositories_intros analyze_files_repositories)

lemmas repositories_kept = research_query_repositories report_repositories ingest_repositories
  analyze_code_repositories analyze_repository_repositories

subsection \<open>Hosts contacted\<close>

text \<open>An operation that sends requests to hosts of the policy only.\<close>

definition stays_in :: "OutboundPolicy \<Rightarrow> (intel, 'a) sop \<Rightarrow> bool" where
  "stays_in policy m \<longleftrightarrow> (\<forall>s. \<exists>new. in_sent (snd (m s)) = in_sent s @ new \<and> list_all (allowed_host policy) new)"

lemma stays_in_quiet: "(\<And>s. in_sent (snd (m s)) = in_sent s) \<Longrightarrow> stays_in policy m"
  by (simp add: stays_in_def)

lemma stays_in_bind:
  assumes "stays_in policy m" and "\<And>a. stays_in policy (f a)"
  shows "stays_in policy (op_bind m f)"
  unfolding stays_in_def
proof
  fix s
  obtain r s1 where m: "m s = (r, s1)" by fastforce
  with assms(1) obtain new where new: "in_sent s1 = in_sent s @ new" "list_all (allowed_host policy) new"
    unfolding stays_in_def by (metis snd_conv)
  show "\<exists>new. in_sent (snd (op_bind m f s)) = in_sent s @ new \<and> list_all (allowed_host policy) new"
  proof (cases r)
    case (Inl e)
    with m new show ?thesis by (auto simp: op_bind_def)
  next
    case (Inr a)
    from assms(2) obtain new' where "in_sent (snd (f a s1)) = in_sent s1 @ new'" "list_all (allowed_host policy) new'"
      unfolding stays_in_def by metis
    with m new Inr show ?thesis by (intro exI [of _ "new @ new'"]) (simp add: op_bind_def)
  qed
qed

lemma stays_in_fetch:
  "stays_in policy (fetch w (\<lambda>n. request n policy ov http_method url params headers payload))"
  unfolding stays_in_def
proof
  fix s :: intel
  obtain r sent where "request (iw_network w (in_calls s)) policy ov http_method url params headers payload (in_sent s) = (r, sent)"
    by fastforce
  then show "\<exists>new. in_sent (snd (fetch w (\<lambda>n. request n policy ov http_method url params headers payload) s)) = in_sent s @ new \<and>
      list_all (allowed_host policy) new"
    using request_hosts [of "iw_network w (in_calls s)" policy ov http_method url params headers payload "in_sent s"]
    by (simp add: fetch_def)
qed

lemma stays_in_simple:
  "stays_in policy (op_return a)" "stays_in policy (op_raise e)" "stays_in policy (op_get h)" "stays_in policy (lift r)"
  by (simp_all add: stays_in_quiet lift_def)

lemma stays_in_modify: "(\<And>s. in_sent (g s) = in_sent s) \<Longrightarrow> stays_in policy (op_modify g)"
  by (simp add: stays_in_quiet)

lemma stays_in_split:
  "(\<And>a b. stays_in policy (f a b)) \<Longrightarrow> stays_in policy (case p of (a, b) \<Rightarrow> f a b)"
  "(c \<Longrightarrow> stays_in policy m) \<Longrightarrow> (\<not> c \<Longrightarrow> stays_in policy m') \<Longrightarrow> stays_in policy (if c then m else m')"
  by (cases p, simp) simp

lemmas stays_intros = stays_in_bind stays_in_fetch stays_in_simple stays_in_modify stays_in_split

lemma stays_in_collect_source: "stays_in research_policy (collect_source w source query)"
  unfolding collect_source_def http_get_def http_post_def by (intro stays_intros)

lemma stays_in_collect: "\<exists>new. in_sent (snd (collect w query sources acc s)) = in_sent s @ new \<and> list_all (allowed_host research_policy) new"
proof (induction sources arbitrary: acc s)
  case Nil
  show ?case by simp
next
  case (Cons source sources)
  obtain evidence errors where acc: "acc = (evidence, errors)" by fastforce
  obtain r s1 where c: "collect_source w source query s = (r, s1)" by fastforce
  with stays_in_collect_source [of w source query] obtain new where
      new: "in_sent s1 = in_sent s @ new" "list_all (allowed_host research_policy) new"
    unfolding stays_in_def by (metis snd_conv)
  have chain: ?case if "collect w query (source # sources) acc s = collect w query sources acc' s1" for acc'
    using that new Cons.IH [of acc' s1] by (metis append.assoc list_all_append)
  show ?case
  proof (cases r)
    case (Inr found)
    with c acc show ?thesis by (intro chain [of "(evidence @ found, errors)"]) simp
  next
    case (Inl e)
    show ?thesis
    proof (cases "is_HTTPError e \<or> is_ValueError e")
      case True
      with c acc Inl show ?thesis by (intro chain [of "(evidence, errors @ [(source, iw_exn_str w e)])"]) auto
    next
      case False
      with c acc Inl new show ?thesis by auto
    qed
  qed
qed

lemma stays_in_collects: "stays_in research_policy (collect w query sources acc)"
  unfolding stays_in_def using stays_in_collect by blast

lemma stays_in_report: "stays_in research_policy (report w query)"
  unfolding report_def research_query_def Let_def
  by (intro stays_intros stays_in_collects) simp_all

lemma stays_in_index: "stays_in github_policy (index_repository w url dependencies)"
  unfolding index_repository_def http_get_def Let_def by (intro stays_intros) simp_all

text \<open>
  C40: Research and repository indexing contact the hosts of their allow list and no others: every
  request sent while a report is made goes to \<^verbatim>\<open>api.github.com\<close>, \<^verbatim>\<open>api.osv.dev\<close> or a host under them, every
  request sent while a repository is indexed to \<^verbatim>\<open>api.github.com\<close> or a host under it, whatever the
  query or URL, the redirects answered and the errors met.
\<close>

theorem research_contacts_allowed_hosts:
  "(\<exists>new. in_sent (snd (report w query s)) = in_sent s @ new \<and> list_all (allowed_host research_policy) new) \<and>
   (\<exists>new. in_sent (snd (index_repository w url dependencies s)) = in_sent s @ new \<and> list_all (allowed_host github_policy) new)"
  using stays_in_report [of w query] stays_in_index [of w url dependencies] unfolding stays_in_def by blast

end
