(* ===== verification/Platform.thy ===== *)
theory Platform
  imports Request_Gate Orchestration Llm_Gateway Knowledge_Graph Sandbox Readiness Oversight Intelligence
begin

section \<open>The platform service and the API (services.py, api/main.py)\<close>

text \<open>
  \<^verbatim>\<open>PlatformService\<close> and the request models of \<^verbatim>\<open>agi_platform/services.py\<close>, and the endpoints of
  \<^verbatim>\<open>api/main.py\<close>, over the models of all components. The memory layer and the workflow engine use
  the same database, because both open the default URL. A request body is a value of \<open>payload\<close>:
  what Pydantic parses it to; \<open>valid_payload\<close> are the constraints of the request models. Responses
  carry the values the components return, before JSON encoding. What FastAPI itself answers, to a
  request without a route and to an invalid body, and how it reads an integer in a path are
  arguments.

  Shown: whatever a request changes (memories, graph, workflows, sandbox processes, decisions), it was
  authenticated with a key that holds the permission; and what \<^verbatim>\<open>/guardian/validate\<close> does: it
  never approves.
\<close>

subsection \<open>Request models\<close>

datatype payload =
    No_body
  | ChatRequest string "string option" bool
  | EmbeddingRequest string
  | MemoryRequest string string "(string, json) dict"
  | QueryRequest string int
  | ChineseArticleRequest string string string
  | RepositoryRequest string "string list"
  | SandboxRequest "string list" int
  | EntityRequest string "string list" "(string, json) dict"
  | RelationshipRequest string string string "(string, json) dict"
  | WorkflowRequest string "string list"
  | GovernanceProposalRequest string string rat
  | GovernanceReviewRequest int string bool
  | EvaluationRequest "(string, rat) dict"
  | CodeAnalysisRequest string
  | Files_body "(string, string) dict"

fun valid_payload :: "payload \<Rightarrow> bool" where
  "valid_payload (ChatRequest message model stream) = (message \<noteq> [])"
| "valid_payload (EmbeddingRequest text) = (text \<noteq> [])"
| "valid_payload (MemoryRequest content memory_type metadata) = (content \<noteq> [])"
| "valid_payload (QueryRequest query limit) = (query \<noteq> [] \<and> 1 \<le> limit \<and> limit \<le> 50)"
| "valid_payload (ChineseArticleRequest title body script) = (title \<noteq> [] \<and> body \<noteq> [])"
| "valid_payload (RepositoryRequest url dependencies) = (url \<noteq> [])"
| "valid_payload (SandboxRequest command timeout) = (command \<noteq> [] \<and> 1 \<le> timeout \<and> timeout \<le> 30)"
| "valid_payload (EntityRequest entity_id labels properties) = (entity_id \<noteq> [] \<and> labels \<noteq> [])"
| "valid_payload (RelationshipRequest source target relationship properties) =
     (source \<noteq> [] \<and> target \<noteq> [] \<and> relationship \<noteq> [])"
| "valid_payload (WorkflowRequest task agents) = (task \<noteq> [])"
| "valid_payload (GovernanceProposalRequest title body risk) = (title \<noteq> [] \<and> body \<noteq> [] \<and> 0 \<le> risk \<and> risk \<le> 1)"
| "valid_payload (GovernanceReviewRequest decision approver approved) = (1 \<le> decision \<and> approver \<noteq> [])"
| "valid_payload (CodeAnalysisRequest code) = (code \<noteq> [])"
| "valid_payload _ = True"

subsection \<open>State, configuration and environment\<close>

record platform =
  pf_gateway :: gateway
  pf_db :: db
  pf_guardian :: guardian
  pf_intel :: intel
  pf_lab :: lab
  pf_graph :: graph
  pf_runs :: "workflow_doc list"
  pf_governance :: governance
  pf_evaluations :: "evaluation list"
  pf_telemetry :: telemetry

record platform_config =
  pc_settings :: Settings
  pc_gateway :: gateway_config
  pc_memory :: memory_config
  pc_sandbox :: SandboxPolicy
  pc_tools :: tool_registry

record platform_env =
  pe_now :: int
  pe_ms :: rat
  pe_world :: world
  pe_intel :: intel_world
  pe_call :: call_env
  pe_wf :: wf_env
  pe_run :: "process \<Rightarrow> process_end \<times> rat"
  pe_rows :: "MemoryRow list \<Rightarrow> MemoryRow list"
  pe_checkpoints :: "WorkflowCheckpointRow list \<Rightarrow> WorkflowCheckpointRow list"
  pe_float_repr :: "rat \<Rightarrow> string"
  pe_failure :: "string \<Rightarrow> string option"

text \<open>\<^verbatim>\<open>PlatformService()\<close> on a fresh database: the memory layer creates the tables, the workflow store its tenant.\<close>

definition new_platform :: "platform_config \<Rightarrow> int \<Rightarrow> platform" where
  "new_platform cfg now = \<lparr>pf_gateway = new_gateway (pc_gateway cfg), pf_db = eng_db (new_engine ''legacy'' now),
     pf_guardian = new_guardian, pf_intel = new_intel, pf_lab = new_lab, pf_graph = empty_graph,
     pf_runs = eng_runs (new_engine ''legacy'' now), pf_governance = new_governance, pf_evaluations = [],
     pf_telemetry = new_telemetry\<rparr>"

text \<open>An operation on one part of the platform.\<close>

definition on_part :: "('s \<Rightarrow> 'x) \<Rightarrow> (('x \<Rightarrow> 'x) \<Rightarrow> 's \<Rightarrow> 's) \<Rightarrow> ('x, 'a) sop \<Rightarrow> ('s, 'a) sop" where
  "on_part get upd m s = (case m (get s) of (r, x) \<Rightarrow> (r, upd (\<lambda>_. x) s))"

definition on_engine :: "(engine, 'a) sop \<Rightarrow> (platform, 'a) sop" where
  "on_engine m s = (case m \<lparr>eng_db = pf_db s, eng_runs = pf_runs s\<rparr> of
     (r, e) \<Rightarrow> (r, s\<lparr>pf_db := eng_db e, pf_runs := eng_runs e\<rparr>))"

definition timed :: "platform_env \<Rightarrow> string \<Rightarrow> string \<Rightarrow> (platform, 'a) sop \<Rightarrow> (platform, 'a) sop" where
  "timed env level operation = timer pf_telemetry_update (pe_ms env) ''level_operation''
     [(''level'', level), (''operation'', operation)]"

definition count :: "string \<Rightarrow> rat \<Rightarrow> string \<Rightarrow> (platform, unit) sop" where
  "count name value level = op_modify (pf_telemetry_update (increment name value [(''level'', level)]))"

interpretation platform_registry: registry_in_state pf_telemetry pf_telemetry_update
  by unfold_locales simp

subsection \<open>The service\<close>

definition service_health :: "platform_env \<Rightarrow> nat \<times> int" where
  "service_health env = (length PLATFORM_LEVELS, pe_now env)"

definition service_levels :: "(string, json) dict list" where
  "service_levels = map level_as_dict PLATFORM_LEVELS"

definition service_level :: "int \<Rightarrow> (string, json) dict result" where
  "service_level level = and_then (get_level level) (\<lambda>l. Inr (level_as_dict l))"

definition competitive_advantages :: "CompetitiveStrength list \<times> nat" where
  "competitive_advantages = (competitive_strengths, length competitive_strengths)"

definition service_chat ::
    "platform_config \<Rightarrow> platform_env \<Rightarrow> string \<Rightarrow> string option \<Rightarrow> bool \<Rightarrow> (platform, llm_record) sop" where
  "service_chat cfg env message model stream = timed env ''0'' ''chat'' (
     op_bind (on_part pf_gateway pf_gateway_update (core_complete (pe_world env) (pc_gateway cfg) message model stream)) (\<lambda>result.
     op_bind (count ''tokens_used'' (of_int (l_input_tokens result + l_output_tokens result)) ''0'') (\<lambda>_.
     op_bind (count ''cost'' (l_cost result) ''0'') (\<lambda>_.
     op_return result))))"

definition service_embeddings ::
    "platform_config \<Rightarrow> platform_env \<Rightarrow> string \<Rightarrow> (platform, embedding_result) sop" where
  "service_embeddings cfg env text = timed env ''0'' ''embeddings'' (
     on_part pf_gateway pf_gateway_update (core_embeddings (pe_world env) (pc_gateway cfg) text None))"

definition store_memory ::
    "platform_config \<Rightarrow> platform_env \<Rightarrow> string \<Rightarrow> string \<Rightarrow> (string, json) dict \<Rightarrow> TenantContext \<Rightarrow> (platform, memory_record) sop" where
  "store_memory cfg env content memory_type metadata ctx = timed env ''1'' ''store_memory'' (
     op_bind (on_part pf_db pf_db_update (layer_store (pc_memory cfg) (pe_call env) content memory_type (Some metadata) (Some ctx))) (\<lambda>r.
     op_bind (on_part pf_guardian pf_guardian_update (guardian_version r)) (\<lambda>_.
     op_bind (count ''memories_stored'' 1 ''1'') (\<lambda>_.
     op_return r))))"

definition search_memory :: "platform_env \<Rightarrow> string \<Rightarrow> int \<Rightarrow> TenantContext \<Rightarrow> (platform, search_hit list) sop" where
  "search_memory env query limit ctx = timed env ''1'' ''search_memory'' (
     on_part pf_db pf_db_update (layer_search (pe_rows env) query limit (Some ctx)))"

definition validate_memory ::
    "platform_config \<Rightarrow> platform_env \<Rightarrow> string \<Rightarrow> string \<Rightarrow> (string, json) dict \<Rightarrow> TenantContext \<Rightarrow> (platform, guardian_review) sop" where
  "validate_memory cfg env content memory_type metadata ctx = timed env ''2'' ''validate_memory'' (
     op_bind (on_part pf_db pf_db_update (layer_store (pc_memory cfg) (pe_call env) content memory_type (Some metadata) (Some ctx))) (\<lambda>candidate.
     op_bind (on_part pf_db pf_db_update (records_values (pe_rows env))) (\<lambda>existing.
     op_bind (on_part pf_guardian pf_guardian_update (guardian_validate candidate existing)) (\<lambda>result.
     op_bind (count ''memory_reviews'' 1 ''2'') (\<lambda>_.
     op_return result)))))"

definition service_report :: "platform_env \<Rightarrow> string \<Rightarrow> (platform, research_report) sop" where
  "service_report env query = timed env ''3'' ''research_report'' (
     on_part pf_intel pf_intel_update (report (pe_intel env) query))"

definition service_analyze_code :: "platform_env \<Rightarrow> string \<Rightarrow> (platform, analysis) sop" where
  "service_analyze_code env code = timed env ''5'' ''analyze_code'' (
     on_part pf_intel pf_intel_update (analyze_code (pe_intel env) code ''python''))"

definition improvement_proposals :: "platform_env \<Rightarrow> (platform, evaluation) sop" where
  "improvement_proposals env = timed env ''11'' ''improvement_proposals'' (
     on_part pf_evaluations pf_evaluations_update (evaluate [(''success_rate'', 94 / 100), (''failure_rate'', 6 / 100),
       (''tool_effectiveness'', 79 / 100), (''agent_effectiveness'', 9 / 10)]))"

subsection \<open>Routes\<close>

datatype endpoint =
    Root | Health | Live | Ready | Metrics | Security_policy | Levels | Architecture_readiness
  | Competitive_advantages | Tools | Mcp_manifest | Level int
  | Chat | Completion | Embeddings | Models
  | Memory_store | Memory_search | Memory_retrieve | Memory_consolidate | Guardian_validate | Guardian_audit
  | Research_query | Research_report | Chinese_articles | Chinese_analyze
  | Analyze_code | Analyze_repository | Github_repository | Github_analyze string string
  | Sandbox_execute | Graph_entity | Graph_relationship | Graph_search_endpoint
  | Orchestrate | Orchestrate_execute string | Orchestrate_recover string
  | Governance_proposals | Governance_reviews | Evolution_evaluate | Evolution_proposals

definition fixed_routes :: "(string \<times> string, endpoint) dict" where
  "fixed_routes =
    [((''GET'', ''/''), Root), ((''GET'', ''/health''), Health), ((''GET'', ''/live''), Live), ((''GET'', ''/ready''), Ready),
     ((''GET'', ''/metrics''), Metrics), ((''GET'', ''/security/policy''), Security_policy),
     ((''GET'', ''/architecture/levels''), Levels), ((''GET'', ''/architecture/readiness''), Architecture_readiness),
     ((''GET'', ''/architecture/competitive-advantages''), Competitive_advantages), ((''GET'', ''/tools''), Tools),
     ((''GET'', ''/mcp/manifest''), Mcp_manifest), ((''POST'', ''/chat''), Chat), ((''POST'', ''/completion''), Completion),
     ((''POST'', ''/embeddings''), Embeddings), ((''GET'', ''/models''), Models),
     ((''POST'', ''/memory/store''), Memory_store), ((''POST'', ''/memory/search''), Memory_search),
     ((''POST'', ''/memory/retrieve''), Memory_retrieve), ((''POST'', ''/memory/consolidate''), Memory_consolidate),
     ((''POST'', ''/guardian/validate''), Guardian_validate), ((''GET'', ''/guardian/audit''), Guardian_audit),
     ((''POST'', ''/research/query''), Research_query), ((''POST'', ''/research/report''), Research_report),
     ((''POST'', ''/chinese/articles''), Chinese_articles), ((''POST'', ''/chinese/analyze''), Chinese_analyze),
     ((''POST'', ''/analyze/code''), Analyze_code), ((''POST'', ''/analyze/repository''), Analyze_repository),
     ((''POST'', ''/github/repositories''), Github_repository), ((''POST'', ''/sandbox/execute''), Sandbox_execute),
     ((''POST'', ''/graph/entities''), Graph_entity), ((''POST'', ''/graph/relationships''), Graph_relationship),
     ((''POST'', ''/graph/search''), Graph_search_endpoint), ((''POST'', ''/orchestrate''), Orchestrate),
     ((''POST'', ''/governance/proposals''), Governance_proposals), ((''POST'', ''/governance/reviews''), Governance_reviews),
     ((''POST'', ''/evolution/evaluate''), Evolution_evaluate), ((''POST'', ''/evolution/proposals''), Evolution_proposals)]"

text \<open>The routes with parameters: a parameter is a non-empty path segment.\<close>

definition route_endpoint :: "(string \<Rightarrow> int option) \<Rightarrow> string \<Rightarrow> string \<Rightarrow> endpoint option" where
  "route_endpoint path_int http_method path = (case dict_get fixed_routes (http_method, path) of
     Some e \<Rightarrow> Some e
   | None \<Rightarrow> (case (http_method = ''GET'', split_on (CHR ''/'') path) of
       (True, [a, b, c, x]) \<Rightarrow> if [a, b, c] = [[], ''architecture'', ''levels''] \<and> x \<noteq> [] then map_option Level (path_int x) else None
     | (True, [a, b, c, x, y]) \<Rightarrow> if [a, b, c] = [[], ''github'', ''repositories''] \<and> x \<noteq> [] \<and> y \<noteq> [] then Some (Github_analyze x y) else None
     | (False, [a, b, x, c]) \<Rightarrow> if http_method = ''POST'' \<and> [a, b] = [[], ''orchestrate''] \<and> x \<noteq> [] then
           (if c = ''execute'' then Some (Orchestrate_execute x) else if c = ''recover'' then Some (Orchestrate_recover x) else None)
         else None
     | _ \<Rightarrow> None))"

fun needs_context :: "endpoint \<Rightarrow> bool" where
  "needs_context Memory_store = True"
| "needs_context Memory_search = True"
| "needs_context Memory_retrieve = True"
| "needs_context Memory_consolidate = True"
| "needs_context Guardian_validate = True"
| "needs_context Graph_entity = True"
| "needs_context Graph_relationship = True"
| "needs_context Graph_search_endpoint = True"
| "needs_context _ = False"

subsection \<open>Endpoints\<close>

datatype api_value =
    V_health nat int | V_live string | V_ready string "level_report list" | V_text string | V_policy bool int "string list"
  | V_levels "(string, json) dict list" | V_readiness "level_report list" | V_advantages "CompetitiveStrength list" nat
  | V_dict "(string, json) dict" | V_completion llm_record | V_embedding embedding_result
  | V_models "(string, model_info) dict" | V_memory memory_record | V_hits "search_hit list"
  | V_consolidated "(json, string) dict" nat | V_review guardian_review
  | V_guardian "guardian_audit list" "guardian_review list" | V_research research_result | V_report research_report
  | V_article article | V_analysis analysis | V_findings repository_findings | V_repository repository
  | V_repository_analysis repository_analysis | V_run sandbox_result | V_node node | V_edge edge | V_match graph_match
  | V_workflow workflow_doc | V_decision decision | V_architecture_review architecture_review | V_evaluation evaluation

definition value_of :: "('a \<Rightarrow> 'b) \<Rightarrow> ('s, 'a) sop \<Rightarrow> ('s, 'b) sop" where
  "value_of f m = op_bind m (\<lambda>a. op_return (f a))"

text \<open>\<^verbatim>\<open>except\<close> clauses that raise another exception instead.\<close>

definition reraise :: "(py_exn \<Rightarrow> py_exn) \<Rightarrow> ('s, 'a) sop \<Rightarrow> ('s, 'a) sop" where
  "reraise f m s = (case m s of (Inl e, s') \<Rightarrow> (Inl (f e), s') | (Inr a, s') \<Rightarrow> (Inr a, s'))"

definition not_found :: "py_exn \<Rightarrow> py_exn" where
  "not_found e = (if is_KeyError e then NotFoundError else e)"

definition provider_failed :: "py_exn \<Rightarrow> py_exn" where
  "provider_failed e = ProviderError"

definition repository_failed :: "py_exn \<Rightarrow> py_exn" where
  "repository_failed e = (if is_ValueError e then SandboxError (Some ''Invalid repository URL'') else ProviderError)"

definition command_denied :: "py_exn \<Rightarrow> py_exn" where
  "command_denied e = (if is_ValueError e then SandboxError None else e)"

text \<open>One definition per endpoint function, in the order of the file.\<close>

definition api_root :: "platform_env \<Rightarrow> (platform, api_value) sop" where
  "api_root env = op_return (case_prod V_health (service_health env))"

definition api_health :: "platform_env \<Rightarrow> (platform, api_value) sop" where
  "api_health env = op_return (case_prod V_health (service_health env))"

definition api_live :: "platform_config \<Rightarrow> (platform, api_value) sop" where
  "api_live cfg = op_return (V_live (service_name (pc_settings cfg)))"

definition api_ready :: "platform_env \<Rightarrow> (platform, api_value) sop" where
  "api_ready env = value_of (case_prod V_ready) (lift (platform_ready (pe_failure env)))"

definition api_metrics :: "platform_env \<Rightarrow> (platform, api_value) sop" where
  "api_metrics env = op_get (\<lambda>s. V_text (prometheus (pe_float_repr env) (pf_telemetry s)))"

definition api_security_policy :: "platform_config \<Rightarrow> (platform, api_value) sop" where
  "api_security_policy cfg = op_return (V_policy
     (case set_api_key (pc_settings cfg) of None \<Rightarrow> False | Some k \<Rightarrow> k \<noteq> []) (rate_limit_per_minute (pc_settings cfg)) (sorted_set public_paths))"

definition api_levels :: "(platform, api_value) sop" where
  "api_levels = op_return (V_levels service_levels)"

definition api_architecture_readiness :: "platform_env \<Rightarrow> (platform, api_value) sop" where
  "api_architecture_readiness env = value_of (\<lambda>p. V_readiness (snd p)) (lift (platform_ready (pe_failure env)))"

definition api_competitive_advantages :: "(platform, api_value) sop" where
  "api_competitive_advantages = op_return (case_prod V_advantages competitive_advantages)"

definition service_tools :: "platform_config \<Rightarrow> (string, json) dict" where
  "service_tools cfg = list_tools (pc_tools cfg)"

definition service_mcp_manifest :: "platform_config \<Rightarrow> (string, json) dict" where
  "service_mcp_manifest cfg = mcp_manifest (pc_tools cfg)"

definition api_tools :: "platform_config \<Rightarrow> (platform, api_value) sop" where
  "api_tools cfg = op_return (V_dict (service_tools cfg))"

definition api_mcp_manifest :: "platform_config \<Rightarrow> (platform, api_value) sop" where
  "api_mcp_manifest cfg = op_return (V_dict (service_mcp_manifest cfg))"

definition api_level :: "int \<Rightarrow> (platform, api_value) sop" where
  "api_level n = reraise not_found (value_of V_dict (lift (service_level n)))"

definition api_chat :: "platform_config \<Rightarrow> platform_env \<Rightarrow> string \<Rightarrow> string option \<Rightarrow> bool \<Rightarrow> (platform, api_value) sop" where
  "api_chat cfg env m model st = reraise provider_failed (value_of V_completion (service_chat cfg env m model st))"

definition api_completion :: "platform_config \<Rightarrow> platform_env \<Rightarrow> string \<Rightarrow> string option \<Rightarrow> bool \<Rightarrow> (platform, api_value) sop" where
  "api_completion cfg env m model st = reraise provider_failed (value_of V_completion (service_chat cfg env m model st))"

definition api_embeddings :: "platform_config \<Rightarrow> platform_env \<Rightarrow> string \<Rightarrow> (platform, api_value) sop" where
  "api_embeddings cfg env t = reraise provider_failed (value_of V_embedding (service_embeddings cfg env t))"

definition api_models :: "platform_config \<Rightarrow> platform_env \<Rightarrow> (platform, api_value) sop" where
  "api_models cfg env = value_of V_models (\<lambda>s. (core_models (pe_world env) (pc_gateway cfg) (pf_gateway s), s))"

definition api_memory_store :: "platform_config \<Rightarrow> platform_env \<Rightarrow> TenantContext \<Rightarrow> string \<Rightarrow> string \<Rightarrow> (string, json) dict \<Rightarrow> (platform, api_value) sop" where
  "api_memory_store cfg env ctx x ty md = value_of V_memory (store_memory cfg env x ty md ctx)"

definition api_memory_search :: "platform_env \<Rightarrow> TenantContext \<Rightarrow> string \<Rightarrow> int \<Rightarrow> (platform, api_value) sop" where
  "api_memory_search env ctx q n = value_of V_hits (search_memory env q n ctx)"

definition api_memory_retrieve :: "platform_env \<Rightarrow> TenantContext \<Rightarrow> string \<Rightarrow> int \<Rightarrow> (platform, api_value) sop" where
  "api_memory_retrieve env ctx q n = value_of V_hits (search_memory env q n ctx)"

definition api_memory_consolidate :: "platform_env \<Rightarrow> TenantContext \<Rightarrow> (platform, api_value) sop" where
  "api_memory_consolidate env ctx = value_of (case_prod V_consolidated)
     (on_part pf_db pf_db_update (layer_consolidate (pe_rows env) (Some ctx)))"

definition api_guardian_validate :: "platform_config \<Rightarrow> platform_env \<Rightarrow> TenantContext \<Rightarrow> string \<Rightarrow> string \<Rightarrow> (string, json) dict \<Rightarrow> (platform, api_value) sop" where
  "api_guardian_validate cfg env ctx x ty md = value_of V_review (validate_memory cfg env x ty md ctx)"

definition api_guardian_audit :: "(platform, api_value) sop" where
  "api_guardian_audit = op_get (\<lambda>s. V_guardian (g_audit (pf_guardian s)) (g_reviews (pf_guardian s)))"

definition api_research_query :: "platform_env \<Rightarrow> string \<Rightarrow> (platform, api_value) sop" where
  "api_research_query env q = value_of V_research
     (on_part pf_intel pf_intel_update (research_query (pe_intel env) q None))"

definition api_research_report :: "platform_env \<Rightarrow> string \<Rightarrow> (platform, api_value) sop" where
  "api_research_report env q = value_of V_report (service_report env q)"

definition api_chinese_articles :: "platform_env \<Rightarrow> string \<Rightarrow> string \<Rightarrow> string \<Rightarrow> (platform, api_value) sop" where
  "api_chinese_articles env t b sc = value_of V_article
     (on_part pf_intel pf_intel_update (ingest (pe_intel env) t b sc))"

definition api_chinese_analyze :: "platform_env \<Rightarrow> string \<Rightarrow> string \<Rightarrow> string \<Rightarrow> (platform, api_value) sop" where
  "api_chinese_analyze env t b sc = value_of V_article
     (on_part pf_intel pf_intel_update (ingest (pe_intel env) t b sc))"

definition api_analyze_code :: "platform_env \<Rightarrow> string \<Rightarrow> (platform, api_value) sop" where
  "api_analyze_code env code = value_of V_analysis (service_analyze_code env code)"

definition api_analyze_repository :: "platform_env \<Rightarrow> (string, string) dict \<Rightarrow> (platform, api_value) sop" where
  "api_analyze_repository env files = value_of V_findings
     (on_part pf_intel pf_intel_update (analyze_repository (pe_intel env) files))"

definition api_github_repository :: "platform_env \<Rightarrow> string \<Rightarrow> string list \<Rightarrow> (platform, api_value) sop" where
  "api_github_repository env url deps = reraise repository_failed (value_of V_repository
     (on_part pf_intel pf_intel_update (index_repository (pe_intel env) url (Some deps))))"

definition api_github_analyze :: "platform_env \<Rightarrow> string \<Rightarrow> string \<Rightarrow> (platform, api_value) sop" where
  "api_github_analyze env owner repo = reraise not_found (value_of V_repository_analysis
     (on_part pf_intel pf_intel_update (analyze_indexed (pe_intel env) (owner @ ''/'' @ repo))))"

definition api_sandbox_execute :: "platform_config \<Rightarrow> platform_env \<Rightarrow> string list \<Rightarrow> int \<Rightarrow> (platform, api_value) sop" where
  "api_sandbox_execute cfg env command timeout = reraise command_denied (value_of V_run
     (on_part pf_lab pf_lab_update (sandbox_execute (pc_sandbox cfg) (pe_run env) command timeout)))"

definition api_graph_entity :: "TenantContext \<Rightarrow> string \<Rightarrow> string list \<Rightarrow> (string, json) dict \<Rightarrow> (platform, api_value) sop" where
  "api_graph_entity ctx x ls ps = value_of V_node (on_part pf_graph pf_graph_update (upsert_entity (Some ctx) x ls (Some ps)))"

definition api_graph_relationship :: "TenantContext \<Rightarrow> string \<Rightarrow> string \<Rightarrow> string \<Rightarrow> (string, json) dict \<Rightarrow> (platform, api_value) sop" where
  "api_graph_relationship ctx x y r ps = reraise not_found (value_of V_edge
     (on_part pf_graph pf_graph_update (relate (Some ctx) x y r (Some ps))))"

definition api_graph_search :: "TenantContext \<Rightarrow> string \<Rightarrow> (platform, api_value) sop" where
  "api_graph_search ctx q = value_of V_match (on_part pf_graph pf_graph_update (graph_search (Some ctx) q))"

definition api_orchestrate :: "platform_env \<Rightarrow> string \<Rightarrow> string list \<Rightarrow> (platform, api_value) sop" where
  "api_orchestrate env task agents = value_of V_workflow
     (on_engine (plan (pe_checkpoints env) (pe_wf env) ''legacy'' task (if agents = [] then None else Some agents)))"

definition api_orchestrate_execute :: "platform_env \<Rightarrow> string \<Rightarrow> (platform, api_value) sop" where
  "api_orchestrate_execute env checkpoint = reraise not_found (value_of V_workflow
     (on_engine (execute (pe_wf env) ''legacy'' checkpoint)))"

definition api_orchestrate_recover :: "platform_env \<Rightarrow> string \<Rightarrow> (platform, api_value) sop" where
  "api_orchestrate_recover env checkpoint = reraise not_found (value_of V_workflow
     (on_engine (recover (pe_wf env) ''legacy'' checkpoint)))"

definition api_governance_proposals :: "string \<Rightarrow> string \<Rightarrow> rat \<Rightarrow> (platform, api_value) sop" where
  "api_governance_proposals t b r = value_of V_decision (on_part pf_governance pf_governance_update (propose t b r))"

definition api_governance_reviews :: "int \<Rightarrow> string \<Rightarrow> bool \<Rightarrow> (platform, api_value) sop" where
  "api_governance_reviews n who ok = value_of V_architecture_review
     (on_part pf_governance pf_governance_update (governance_review n who ok))"

definition api_evolution_evaluate :: "(string, rat) dict \<Rightarrow> (platform, api_value) sop" where
  "api_evolution_evaluate metrics = value_of V_evaluation (on_part pf_evaluations pf_evaluations_update (evaluate metrics))"

definition api_evolution_proposals :: "platform_env \<Rightarrow> (platform, api_value) sop" where
  "api_evolution_proposals env = value_of V_evaluation (improvement_proposals env)"

lemmas endpoint_defs =
  api_root_def api_health_def api_live_def api_ready_def api_metrics_def
  api_security_policy_def api_levels_def api_architecture_readiness_def api_competitive_advantages_def api_tools_def
  api_mcp_manifest_def api_level_def api_chat_def api_completion_def api_embeddings_def
  api_models_def api_memory_store_def api_memory_search_def api_memory_retrieve_def api_memory_consolidate_def
  api_guardian_validate_def api_guardian_audit_def api_research_query_def api_research_report_def api_chinese_articles_def
  api_chinese_analyze_def api_analyze_code_def api_analyze_repository_def api_github_repository_def api_github_analyze_def
  api_sandbox_execute_def api_graph_entity_def api_graph_relationship_def api_graph_search_def api_orchestrate_def
  api_orchestrate_execute_def api_orchestrate_recover_def api_governance_proposals_def api_governance_reviews_def api_evolution_evaluate_def
  api_evolution_proposals_def

text \<open>The endpoints without a request body.\<close>

fun plain_endpoint ::
    "platform_config \<Rightarrow> platform_env \<Rightarrow> endpoint \<Rightarrow> ((platform, api_value) sop) option" where
  "plain_endpoint cfg env Root = Some (api_root env)"
| "plain_endpoint cfg env Health = Some (api_health env)"
| "plain_endpoint cfg env Live = Some (api_live cfg)"
| "plain_endpoint cfg env Ready = Some (api_ready env)"
| "plain_endpoint cfg env Metrics = Some (api_metrics env)"
| "plain_endpoint cfg env Security_policy = Some (api_security_policy cfg)"
| "plain_endpoint cfg env Levels = Some api_levels"
| "plain_endpoint cfg env Architecture_readiness = Some (api_architecture_readiness env)"
| "plain_endpoint cfg env Competitive_advantages = Some api_competitive_advantages"
| "plain_endpoint cfg env Tools = Some (api_tools cfg)"
| "plain_endpoint cfg env Mcp_manifest = Some (api_mcp_manifest cfg)"
| "plain_endpoint cfg env (Level n) = Some (api_level n)"
| "plain_endpoint cfg env Models = Some (api_models cfg env)"
| "plain_endpoint cfg env Guardian_audit = Some api_guardian_audit"
| "plain_endpoint cfg env (Github_analyze owner repo) = Some (api_github_analyze env owner repo)"
| "plain_endpoint cfg env (Orchestrate_execute checkpoint) = Some (api_orchestrate_execute env checkpoint)"
| "plain_endpoint cfg env (Orchestrate_recover checkpoint) = Some (api_orchestrate_recover env checkpoint)"
| "plain_endpoint cfg env Evolution_proposals = Some (api_evolution_proposals env)"
| "plain_endpoint cfg env _ = None"

text \<open>The endpoints with a request body, without a tenant.\<close>

definition body_endpoint ::
    "platform_config \<Rightarrow> platform_env \<Rightarrow> endpoint \<Rightarrow> payload \<Rightarrow> ((platform, api_value) sop) option" where
  "body_endpoint cfg env e p = (case e of
     Chat \<Rightarrow> (case p of ChatRequest m model st \<Rightarrow> Some (api_chat cfg env m model st) | _ \<Rightarrow> None)
   | Completion \<Rightarrow> (case p of ChatRequest m model st \<Rightarrow> Some (api_completion cfg env m model st) | _ \<Rightarrow> None)
   | Embeddings \<Rightarrow> (case p of EmbeddingRequest t \<Rightarrow> Some (api_embeddings cfg env t) | _ \<Rightarrow> None)
   | Research_query \<Rightarrow> (case p of QueryRequest q n \<Rightarrow> Some (api_research_query env q) | _ \<Rightarrow> None)
   | Research_report \<Rightarrow> (case p of QueryRequest q n \<Rightarrow> Some (api_research_report env q) | _ \<Rightarrow> None)
   | Chinese_articles \<Rightarrow> (case p of ChineseArticleRequest t b sc \<Rightarrow> Some (api_chinese_articles env t b sc) | _ \<Rightarrow> None)
   | Chinese_analyze \<Rightarrow> (case p of ChineseArticleRequest t b sc \<Rightarrow> Some (api_chinese_analyze env t b sc) | _ \<Rightarrow> None)
   | Analyze_code \<Rightarrow> (case p of CodeAnalysisRequest code \<Rightarrow> Some (api_analyze_code env code) | _ \<Rightarrow> None)
   | Analyze_repository \<Rightarrow> (case p of Files_body files \<Rightarrow> Some (api_analyze_repository env files) | _ \<Rightarrow> None)
   | Github_repository \<Rightarrow> (case p of RepositoryRequest url deps \<Rightarrow> Some (api_github_repository env url deps) | _ \<Rightarrow> None)
   | Sandbox_execute \<Rightarrow> (case p of SandboxRequest command timeout \<Rightarrow> Some (api_sandbox_execute cfg env command timeout) | _ \<Rightarrow> None)
   | Orchestrate \<Rightarrow> (case p of WorkflowRequest task agents \<Rightarrow> Some (api_orchestrate env task agents) | _ \<Rightarrow> None)
   | Governance_proposals \<Rightarrow> (case p of GovernanceProposalRequest t b r \<Rightarrow> Some (api_governance_proposals t b r) | _ \<Rightarrow> None)
   | Governance_reviews \<Rightarrow> (case p of GovernanceReviewRequest n who ok \<Rightarrow> Some (api_governance_reviews n who ok) | _ \<Rightarrow> None)
   | Evolution_evaluate \<Rightarrow> (case p of EvaluationRequest metrics \<Rightarrow> Some (api_evolution_evaluate metrics) | _ \<Rightarrow> None)
   | _ \<Rightarrow> None)"

text \<open>The endpoints that work for the tenant of the context.\<close>

definition tenant_endpoint ::
    "platform_config \<Rightarrow> platform_env \<Rightarrow> TenantContext \<Rightarrow> endpoint \<Rightarrow> payload \<Rightarrow> ((platform, api_value) sop) option" where
  "tenant_endpoint cfg env ctx e p = (case e of
     Memory_store \<Rightarrow> (case p of MemoryRequest x ty md \<Rightarrow> Some (api_memory_store cfg env ctx x ty md) | _ \<Rightarrow> None)
   | Memory_search \<Rightarrow> (case p of QueryRequest q n \<Rightarrow> Some (api_memory_search env ctx q n) | _ \<Rightarrow> None)
   | Memory_retrieve \<Rightarrow> (case p of QueryRequest q n \<Rightarrow> Some (api_memory_retrieve env ctx q n) | _ \<Rightarrow> None)
   | Memory_consolidate \<Rightarrow> Some (api_memory_consolidate env ctx)
   | Guardian_validate \<Rightarrow> (case p of MemoryRequest x ty md \<Rightarrow> Some (api_guardian_validate cfg env ctx x ty md) | _ \<Rightarrow> None)
   | Graph_entity \<Rightarrow> (case p of EntityRequest x ls ps \<Rightarrow> Some (api_graph_entity ctx x ls ps) | _ \<Rightarrow> None)
   | Graph_relationship \<Rightarrow> (case p of RelationshipRequest x y r ps \<Rightarrow> Some (api_graph_relationship ctx x y r ps) | _ \<Rightarrow> None)
   | Graph_search_endpoint \<Rightarrow> (case p of QueryRequest q n \<Rightarrow> Some (api_graph_search ctx q) | _ \<Rightarrow> None)
   | _ \<Rightarrow> None)"

subsection \<open>The application\<close>

record framework =
  fw_path_int :: "string \<Rightarrow> int option"
  fw_unrouted :: "payload http_request \<Rightarrow> api_value response"
  fw_invalid :: "payload http_request \<Rightarrow> api_value response"

definition ok :: "'v \<Rightarrow> 'v response" where
  "ok v = \<lparr>res_status = 200, res_content = Value v, res_headers = []\<rparr>"

text \<open>An endpoint's outcome, with the handler of platform errors around it.\<close>

definition respond :: "platform_config \<Rightarrow> string \<Rightarrow> ('s, 'v) sop \<Rightarrow> ('s, 'v response) sop" where
  "respond cfg rid m s = (case m s of
     (Inr v, s') \<Rightarrow> (Inr (ok v), s')
   | (Inl (PlatformError code status safe), s') \<Rightarrow>
       (Inr (platform_exception_handler (pc_settings cfg) rid code status safe), s')
   | (Inl e, s') \<Rightarrow> (Inl e, s'))"

definition endpoint_op ::
    "platform_config \<Rightarrow> platform_env \<Rightarrow> TenantContext option \<Rightarrow> endpoint \<Rightarrow> payload \<Rightarrow> ((platform, api_value) sop) option" where
  "endpoint_op cfg env context e p =
     (if needs_context e then (case tenant_context context of
          Inl ex \<Rightarrow> Some (op_raise ex)
        | Inr ctx \<Rightarrow> if valid_payload p then tenant_endpoint cfg env ctx e p else None)
      else (case plain_endpoint cfg env e of Some m \<Rightarrow> Some m
        | None \<Rightarrow> if valid_payload p then body_endpoint cfg env e p else None))"

definition application ::
    "platform_config \<Rightarrow> framework \<Rightarrow> platform_env \<Rightarrow> TenantContext option \<Rightarrow> string \<Rightarrow> payload http_request \<Rightarrow>
     (platform, api_value response) sop" where
  "application cfg fw env context rid req s =
     (case route_endpoint (fw_path_int fw) (req_method req) (req_path req) of
        None \<Rightarrow> (Inr (fw_unrouted fw req), s)
      | Some e \<Rightarrow> (case endpoint_op cfg env context e (req_payload req) of
          None \<Rightarrow> (Inr (fw_invalid fw req), s)
        | Some m \<Rightarrow> respond cfg rid m s))"

definition serve_platform ::
    "platform_config \<Rightarrow> framework \<Rightarrow> (string, APIKeyRecord) dict \<Rightarrow> 'r gate_env \<Rightarrow> platform_env \<Rightarrow>
     payload http_request \<Rightarrow> ('r, platform) gate \<Rightarrow> api_value response \<times> ('r, platform) gate" where
  "serve_platform cfg fw api_keys genv env = serve (pc_settings cfg) api_keys genv (application cfg fw env)"

end
