(* ===== verification/Api_Effects.thy ===== *)
theory Api_Effects
  imports Platform
begin

section \<open>What requests may change\<close>

text \<open>
  The effects of the endpoints on the parts of the platform, and the permissions their routes ask
  for, put together with the gate: a request changes a part of the platform that has a permission only when it was
  authenticated with a key that holds that permission.
\<close>

subsection \<open>Parts an operation may change\<close>

datatype part = P_gateway | P_db | P_guardian | P_intel | P_lab | P_graph | P_runs | P_governance | P_evaluations

text \<open>All parts but the listed ones, and the telemetry, are as before.\<close>

definition same_except :: "part list \<Rightarrow> platform \<Rightarrow> platform \<Rightarrow> bool" where
  "same_except ps s s' \<longleftrightarrow>
     (P_gateway \<in> set ps \<or> pf_gateway s' = pf_gateway s) \<and> (P_db \<in> set ps \<or> pf_db s' = pf_db s) \<and>
     (P_guardian \<in> set ps \<or> pf_guardian s' = pf_guardian s) \<and> (P_intel \<in> set ps \<or> pf_intel s' = pf_intel s) \<and>
     (P_lab \<in> set ps \<or> pf_lab s' = pf_lab s) \<and> (P_graph \<in> set ps \<or> pf_graph s' = pf_graph s) \<and>
     (P_runs \<in> set ps \<or> pf_runs s' = pf_runs s) \<and> (P_governance \<in> set ps \<or> pf_governance s' = pf_governance s) \<and>
     (P_evaluations \<in> set ps \<or> pf_evaluations s' = pf_evaluations s)"

definition touches :: "part list \<Rightarrow> (platform, 'a) sop \<Rightarrow> bool" where
  "touches ps m \<longleftrightarrow> (\<forall>s. same_except ps s (snd (m s)))"

lemma same_except_refl [simp]: "same_except ps s s"
  by (simp add: same_except_def)

lemma or_eq_trans: "P \<or> b = a \<Longrightarrow> P \<or> c = b \<Longrightarrow> P \<or> c = a"
  by auto

lemma same_except_trans: "same_except ps s s' \<Longrightarrow> same_except ps s' s'' \<Longrightarrow> same_except ps s s''"
  unfolding same_except_def by (elim conjE, intro conjI) (erule (1) or_eq_trans)+

lemma touches_quiet: "(\<And>s. snd (m s) = s) \<Longrightarrow> touches ps m"
  by (simp add: touches_def)

lemma touches_simple: "touches ps (op_return a)" "touches ps (op_raise e)" "touches ps (op_get f)" "touches ps (lift r)"
  by (simp_all add: touches_quiet lift_def)

lemma touches_bind:
  assumes "touches ps m" and "\<And>a. touches ps (f a)"
  shows "touches ps (op_bind m f)"
  unfolding touches_def
proof
  fix s
  obtain r s1 where m: "m s = (r, s1)" by fastforce
  with assms(1) have "same_except ps s s1" unfolding touches_def by (metis snd_conv)
  moreover have "same_except ps s1 (snd (f a s1))" for a using assms(2) unfolding touches_def by blast
  ultimately show "same_except ps s (snd (op_bind m f s))"
    using m by (cases r) (auto simp: op_bind_def intro: same_except_trans)
qed

lemma touches_value_of: "touches ps m \<Longrightarrow> touches ps (value_of f m)"
  unfolding value_of_def by (intro touches_bind touches_simple)

lemma touches_reraise: "touches ps m \<Longrightarrow> touches ps (reraise f m)"
  by (auto simp: touches_def reraise_def split: prod.split sum.split dest: spec)
    (metis snd_conv)+

lemma same_except_telemetry [simp]: "same_except ps s (pf_telemetry_update f s') = same_except ps s s'"
  by (simp add: same_except_def)

lemma touches_timed: "touches ps m \<Longrightarrow> touches ps (timed env l k m)"
  unfolding touches_def timed_def timer_def
  by (auto split: prod.split sum.split) (metis snd_conv)+

lemma touches_count: "touches ps (count name v l)"
  by (simp add: touches_def count_def)

lemma touches_parts:
  "P_gateway \<in> set ps \<Longrightarrow> touches ps (on_part pf_gateway pf_gateway_update m1)"
  "P_db \<in> set ps \<Longrightarrow> touches ps (on_part pf_db pf_db_update m2)"
  "P_guardian \<in> set ps \<Longrightarrow> touches ps (on_part pf_guardian pf_guardian_update m3)"
  "P_intel \<in> set ps \<Longrightarrow> touches ps (on_part pf_intel pf_intel_update m4)"
  "P_lab \<in> set ps \<Longrightarrow> touches ps (on_part pf_lab pf_lab_update m5)"
  "P_graph \<in> set ps \<Longrightarrow> touches ps (on_part pf_graph pf_graph_update m6)"
  "P_governance \<in> set ps \<Longrightarrow> touches ps (on_part pf_governance pf_governance_update m7)"
  "P_evaluations \<in> set ps \<Longrightarrow> touches ps (on_part pf_evaluations pf_evaluations_update m8)"
  "P_db \<in> set ps \<Longrightarrow> P_runs \<in> set ps \<Longrightarrow> touches ps (on_engine m9)"
  by (simp_all add: touches_def on_part_def on_engine_def same_except_def split: prod.split)

text \<open>Reading a part leaves all as it is.\<close>

lemma touches_read:
  "(\<And>x. snd (m1 x) = x) \<Longrightarrow> touches ps (on_part pf_db pf_db_update m1)"
  "(\<And>x. snd (m2 x) = x) \<Longrightarrow> touches ps (on_part pf_graph pf_graph_update m2)"
  "(\<And>x. snd (m3 x) = x) \<Longrightarrow> touches ps (on_part pf_intel pf_intel_update m3)"
  by (auto simp: touches_def on_part_def same_except_def split: prod.split) (metis snd_conv)+

lemmas touches_intros = touches_simple touches_bind touches_value_of touches_reraise touches_timed touches_count touches_parts

lemma reads:
  "snd (layer_search scan q n ctx d) = d" "snd (layer_consolidate scan ctx d) = d" "snd (graph_search ctx q g) = g"
  "snd (analyze_indexed w name i) = i"
  by (auto simp: layer_search_def layer_consolidate_def search_def consolidate_def with_context_def with_session_def
      graph_search_def analyze_indexed_def op_bind_def Let_def split: option.split sum.split)

lemma touches_reading:
  "touches ps (on_part pf_db pf_db_update (layer_search scan q n ctx))"
  "touches ps (on_part pf_db pf_db_update (layer_consolidate scan ctx))"
  "touches ps (on_part pf_graph pf_graph_update (graph_search ctx q))"
  "touches ps (on_part pf_intel pf_intel_update (analyze_indexed w name))"
  "touches ps (\<lambda>s. (f s, s))"
  by (simp_all add: touches_read reads touches_quiet)

fun effects :: "endpoint \<Rightarrow> part list" where
  "effects Chat = [P_gateway]"
| "effects Completion = [P_gateway]"
| "effects Embeddings = [P_gateway]"
| "effects Memory_store = [P_db, P_guardian]"
| "effects Guardian_validate = [P_db, P_guardian]"
| "effects Research_query = [P_intel]"
| "effects Research_report = [P_intel]"
| "effects Chinese_articles = [P_intel]"
| "effects Chinese_analyze = [P_intel]"
| "effects Analyze_code = [P_intel]"
| "effects Analyze_repository = [P_intel]"
| "effects Github_repository = [P_intel]"
| "effects Sandbox_execute = [P_lab]"
| "effects Graph_entity = [P_graph]"
| "effects Graph_relationship = [P_graph]"
| "effects Orchestrate = [P_db, P_runs]"
| "effects (Orchestrate_execute x) = [P_db, P_runs]"
| "effects (Orchestrate_recover x) = [P_db, P_runs]"
| "effects Governance_proposals = [P_governance]"
| "effects Governance_reviews = [P_governance]"
| "effects Evolution_evaluate = [P_evaluations]"
| "effects Evolution_proposals = [P_evaluations]"
| "effects _ = []"

lemma plain_touches: "plain_endpoint cfg env e = Some m \<Longrightarrow> touches (effects e) m"
  by (cases e) (auto intro!: touches_reading touches_intros simp: endpoint_defs improvement_proposals_def)

lemma body_touches: "body_endpoint cfg env e p = Some m \<Longrightarrow> touches (effects e) m"
  by (cases e)
    (auto simp: body_endpoint_def endpoint_defs service_chat_def service_embeddings_def service_report_def service_analyze_code_def
      split: payload.splits intro!: touches_intros)

lemma tenant_touches: "tenant_endpoint cfg env ctx e p = Some m \<Longrightarrow> touches (effects e) m"
  by (cases e)
    (auto simp: tenant_endpoint_def endpoint_defs store_memory_def search_memory_def validate_memory_def
      split: payload.splits intro!: touches_reading touches_intros)

lemma endpoint_touches: "endpoint_op cfg env context e p = Some m \<Longrightarrow> touches (effects e) m"
  by (auto simp: endpoint_op_def intro: touches_simple dest: plain_touches body_touches tenant_touches
      split: if_splits sum.splits option.splits)

lemma respond_touches: "touches ps m \<Longrightarrow> touches ps (respond cfg rid m)"
  unfolding touches_def respond_def
  by (auto split: prod.split sum.split py_exn.split) (metis snd_conv)+

lemma application_cases:
  obtains (idle) "snd (application cfg fw env context rid req s) = s"
  | (endpoint) e m where "route_endpoint (fw_path_int fw) (req_method req) (req_path req) = Some e"
      "endpoint_op cfg env context e (req_payload req) = Some m"
      "application cfg fw env context rid req s = respond cfg rid m s"
  by (cases "route_endpoint (fw_path_int fw) (req_method req) (req_path req)";
      cases "\<exists>e. route_endpoint (fw_path_int fw) (req_method req) (req_path req) = Some e \<and>
        endpoint_op cfg env context e (req_payload req) \<noteq> None")
    (auto simp: application_def)

subsection \<open>Permissions of the routes\<close>

fun endpoint_permission :: "endpoint \<Rightarrow> string option" where
  "endpoint_permission Memory_store = Some ''memory.write''"
| "endpoint_permission Guardian_validate = Some ''memory.write''"
| "endpoint_permission Github_repository = Some ''github.index''"
| "endpoint_permission Sandbox_execute = Some ''sandbox.execute''"
| "endpoint_permission Graph_entity = Some ''graph.write''"
| "endpoint_permission Graph_relationship = Some ''graph.write''"
| "endpoint_permission Orchestrate = Some ''workflow.start''"
| "endpoint_permission (Orchestrate_execute x) = Some ''workflow.start''"
| "endpoint_permission (Orchestrate_recover x) = Some ''workflow.start''"
| "endpoint_permission Governance_proposals = Some ''governance.propose''"
| "endpoint_permission Governance_reviews = Some ''governance.approve''"
| "endpoint_permission Evolution_evaluate = Some ''evolution.propose''"
| "endpoint_permission Evolution_proposals = Some ''evolution.propose''"
| "endpoint_permission _ = None"

definition protected :: "string \<Rightarrow> string \<Rightarrow> endpoint \<Rightarrow> string \<Rightarrow> bool" where
  "protected http_method path e p \<longleftrightarrow> route_permission http_method path = Some p \<and> \<not> is_public_path path \<and>
     (guarded_prefix path \<or> needs_context e)"

lemma fixed_routes_check:
  "list_all (\<lambda>((m, path), e). case endpoint_permission e of None \<Rightarrow> True | Some p \<Rightarrow> protected m path e p) fixed_routes"
  unfolding protected_def by code_simp

lemma join_split_on: "join [c] (split_on c s) = s"
proof (induction c s rule: split_on.induct)
  case (2 c x xs)
  then show ?case by (cases "split_on c xs"; cases "tl (split_on c xs)") (auto split: list.splits)
qed simp

lemma orchestrate_routes_check:
  "list_all (\<lambda>((m, path), p). \<not> startswith path ''/orchestrate/'') PERMISSION_BY_ROUTE \<and>
   list_all (\<lambda>path. \<not> startswith path ''/orchestrate/'') public_paths"
  by code_simp

lemma orchestrate_protected:
  assumes "split_on (CHR ''/'') path = [[], ''orchestrate'', x, c]"
  shows "protected ''POST'' path e ''workflow.start''"
proof -
  have path: "path = ''/orchestrate/'' @ x @ ''/'' @ c"
    using join_split_on [of "CHR ''/''" path] assms by simp
  then have pre: "startswith path ''/orchestrate/''" by (simp add: startswith_def)
  have "dict_get PERMISSION_BY_ROUTE (''POST'', path) = None"
    using orchestrate_routes_check pre by (force simp: map_of_eq_None_iff list_all_iff)
  moreover have "path \<notin> set public_paths" using orchestrate_routes_check pre by (auto simp: list_all_iff)
  moreover have "\<not> startswith path ''/architecture/levels/''" "guarded_prefix path"
    by (simp_all add: path startswith_def guarded_prefix_def)
  ultimately show ?thesis using pre
    by (simp add: protected_def route_permission_def DYNAMIC_PREFIX_PERMISSIONS_def is_public_path_def)
qed

lemma endpoint_protected:
  assumes "route_endpoint path_int http_method path = Some e" and "endpoint_permission e = Some p"
  shows "protected http_method path e p"
proof (cases "dict_get fixed_routes (http_method, path)")
  case (Some e')
  with assms(1) have "e' = e" by (simp add: route_endpoint_def)
  with Some have "((http_method, path), e) \<in> set fixed_routes" by (simp add: map_of_SomeD)
  with fixed_routes_check assms(2) show ?thesis by (fastforce simp: list_all_iff)
next
  case None
  with assms obtain x c where "http_method = ''POST''" "split_on (CHR ''/'') path = [[], ''orchestrate'', x, c]" "p = ''workflow.start''"
    by (auto simp: route_endpoint_def split: list.splits bool.splits if_splits)
  with orchestrate_protected show ?thesis by blast
qed

text \<open>The request carries an active key with a permission, and an approval where the action needs one.\<close>

definition holds_key ::
    "(string, APIKeyRecord) dict \<Rightarrow> 'r gate_env \<Rightarrow> 'p http_request \<Rightarrow> Identity \<Rightarrow> string \<Rightarrow> bool" where
  "holds_key api_keys env req i p \<longleftrightarrow>
     authenticate_request (ge_hash env) (ge_now env) (req_headers req) api_keys = Inr (Some i) \<and>
     (''*'' \<in> permissions i \<or> p \<in> permissions i) \<and>
     (p \<in> set HIGH_RISK_ACTIONS \<longrightarrow> hdr_approval_id (req_headers req) \<noteq> None)"

lemma endpoint_permission_known: "endpoint_permission e = Some p \<Longrightarrow> normalize_permission p = p"
proof -
  assume "endpoint_permission e = Some p"
  then have "p \<in> set PERMISSIONS" by (cases e) (auto simp: PERMISSIONS_def)
  then show ?thesis by simp
qed

lemma protected_cleared:
  assumes "protected (req_method req) (req_path req) e p" and "cleared api_keys env req context"
    and "normalize_permission p = p" and "needs_context e \<Longrightarrow> context \<noteq> None"
  shows "\<exists>i. holds_key api_keys env req i p \<and> context = Some (context_of i (rid_of env req))"
  using assms
  by (auto simp: protected_def cleared_def granted_def holds_key_def context_of_def split: if_splits)


lemma effects_not_public:
  assumes "route_endpoint path_int http_method path = Some e" and "effects e \<noteq> []"
  shows "\<not> is_public_path path"
proof (cases "endpoint_permission e")
  case (Some p)
  with endpoint_protected [OF assms(1)] show ?thesis by (simp add: protected_def)
next
  case None
  have "dict_get fixed_routes (http_method, path) = Some e"
    using assms None by (auto simp: route_endpoint_def split: option.splits list.splits bool.splits if_splits)
  then have "((http_method, path), e) \<in> set fixed_routes" by (simp add: map_of_SomeD)
  moreover have "list_all (\<lambda>((m, path), e). effects e = [] \<or> \<not> is_public_path path) fixed_routes" by code_simp
  ultimately show ?thesis using assms(2) by (fastforce simp: list_all_iff)
qed

subsection \<open>Views of the shared database\<close>

text \<open>The workflow tables, beside \<open>mem_view\<close>, what a tenant sees of the memory tables.\<close>

definition wf_view :: "db \<Rightarrow> WorkflowRow list \<times> WorkflowTaskRow list \<times> WorkflowEventRow list \<times> WorkflowCheckpointRow list" where
  "wf_view d = (workflows d, workflow_tasks d, workflow_events d, workflow_checkpoints d)"

lemma store_views:
  assumes "store c env ctx x ty md d = (r, d')"
  shows "wf_view d' = wf_view d" and "t \<noteq> ctx_tenant_id ctx \<Longrightarrow> mem_view t d' = mem_view t d"
proof -
  have "wf_view d' = wf_view d \<and> (t \<noteq> ctx_tenant_id ctx \<longrightarrow> mem_view t d' = mem_view t d)"
  proof (cases r)
    case (Inl e)
    with assms have "store c env ctx x ty md d = (Inl e, d')" by simp
    then show ?thesis
      by (cases rule: store_Inl) (auto simp: wf_view_def mem_view_def dest: ensure_tenant_frame)
  next
    case (Inr q)
    with assms have "store c env ctx x ty md d = (Inr q, d')" by simp
    then show ?thesis
      by (cases rule: store_Inr)
        (auto simp: wf_view_def mem_view_def audited_def inserted_def dest!: ensure_tenant_frame)
  qed
  then show "wf_view d' = wf_view d" and "t \<noteq> ctx_tenant_id ctx \<Longrightarrow> mem_view t d' = mem_view t d" by simp_all
qed

definition mem_tables :: "db \<Rightarrow> MemoryRow list \<times> MemoryVersionRow list \<times> MemoryEvidenceRow list \<times> AuditEventRow list" where
  "mem_tables d = (memories d, memory_versions d, memory_evidence d, audit_events d)"

lemma mem_view_tables: "mem_tables d' = mem_tables d \<Longrightarrow> mem_view t d' = mem_view t d"
  by (simp add: mem_tables_def mem_view_def)

lemma upsert_mem_tables: "mem_tables (snd (upsert_workflow env u doc d)) = mem_tables d"
proof (cases "upsert_workflow env u doc d")
  case (Pair r d')
  show ?thesis
  proof (cases r)
    case (Inl e)
    with Pair show ?thesis by (auto simp: upsert_workflow_def Let_def dest: with_session_Inl)
  next
    case (Inr a)
    with Pair upsert_Inr [of env u doc d] show ?thesis by (simp add: upserted_def mem_tables_def Let_def)
  qed
qed

lemma engine_mem_tables:
  "mem_tables (eng_db (snd (plan scan env u task agents s))) = mem_tables (eng_db s)"
  "mem_tables (eng_db (snd (execute env u k s))) = mem_tables (eng_db s)"
  "mem_tables (eng_db (snd (recover env u k s))) = mem_tables (eng_db s)"
  by (auto simp: plan_def execute_eq recover_eq' op_bind_def wf_list_eq Let_def upsert_mem_tables
      split: prod.split sum.split)

text \<open>Operations that leave a view of the platform as it is.\<close>

definition keeps_view :: "(platform \<Rightarrow> 'x) \<Rightarrow> (platform, 'a) sop \<Rightarrow> bool" where
  "keeps_view f m \<longleftrightarrow> (\<forall>s. f (snd (m s)) = f s)"

definition untimed :: "(platform \<Rightarrow> 'x) \<Rightarrow> bool" where
  "untimed f \<longleftrightarrow> (\<forall>g s. f (pf_telemetry_update g s) = f s)"

lemma keeps_view_bind: "keeps_view f m \<Longrightarrow> (\<And>a. keeps_view f (k a)) \<Longrightarrow> keeps_view f (op_bind m k)"
  unfolding keeps_view_def op_bind_def by (auto split: prod.split sum.split) (metis snd_conv)+

lemma keeps_view_simple: "keeps_view f (op_return a)" "keeps_view f (op_raise e)"
  by (simp_all add: keeps_view_def)

lemma keeps_view_telemetry:
  "untimed f \<Longrightarrow> keeps_view f m \<Longrightarrow> keeps_view f (timed env l k m)" "untimed f \<Longrightarrow> keeps_view f (count name v l)"
  unfolding keeps_view_def untimed_def timed_def timer_def count_def by (auto split: prod.split sum.split) (metis snd_conv)+

lemma keeps_view_reraise: "keeps_view f m \<Longrightarrow> keeps_view f (reraise h m)"
  unfolding keeps_view_def reraise_def by (auto split: prod.split sum.split) (metis snd_conv)+

lemma keeps_view_value_of: "keeps_view f m \<Longrightarrow> keeps_view f (value_of h m)"
  unfolding value_of_def by (intro keeps_view_bind keeps_view_simple)

lemma keeps_view_respond: "keeps_view f m \<Longrightarrow> keeps_view f (respond cfg rid m)"
  unfolding keeps_view_def respond_def by (auto split: prod.split sum.split py_exn.split) (metis snd_conv)+

lemma keeps_view_db:
  "(\<And>d. g (snd (m d)) = g d) \<Longrightarrow> keeps_view (\<lambda>s. g (pf_db s)) (on_part pf_db pf_db_update m)"
  "keeps_view (\<lambda>s. g (pf_db s)) (on_part pf_guardian pf_guardian_update n)"
  by (auto simp: keeps_view_def on_part_def split: prod.split) (metis snd_conv)

lemma keeps_view_engine:
  "(\<And>e. g (eng_db (snd (m e))) = g (eng_db e)) \<Longrightarrow> keeps_view (\<lambda>s. g (pf_db s)) (on_engine m)"
  by (auto simp: keeps_view_def on_engine_def split: prod.split) (metis engine.select_convs(1) snd_conv)

lemma untimed_db: "untimed (\<lambda>s. g (pf_db s))"
  by (simp add: untimed_def)

lemmas keeps_view_intros = keeps_view_bind keeps_view_simple keeps_view_telemetry keeps_view_reraise keeps_view_value_of
  keeps_view_db keeps_view_engine untimed_db

lemma layer_store_views:
  "wf_view (snd (layer_store c env x ty md (Some ctx) d)) = wf_view d"
  "t \<noteq> ctx_tenant_id ctx \<Longrightarrow> mem_view t (snd (layer_store c env x ty md (Some ctx) d)) = mem_view t d"
  "snd (records_values scan d) = d"
  by (simp_all add: layer_store_def with_context_def records_values_def with_session_def)
    (metis prod.collapse store_views)+

lemma memory_writes_keep:
  "keeps_view (\<lambda>s. wf_view (pf_db s)) (store_memory cfg env x ty md ctx)"
  "keeps_view (\<lambda>s. wf_view (pf_db s)) (validate_memory cfg env x ty md ctx)"
  "t \<noteq> ctx_tenant_id ctx \<Longrightarrow> keeps_view (\<lambda>s. mem_view t (pf_db s)) (store_memory cfg env x ty md ctx)"
  "t \<noteq> ctx_tenant_id ctx \<Longrightarrow> keeps_view (\<lambda>s. mem_view t (pf_db s)) (validate_memory cfg env x ty md ctx)"
  unfolding store_memory_def validate_memory_def
  by (intro keeps_view_intros; simp add: layer_store_views)+

lemma engine_keeps_memory:
  "keeps_view (\<lambda>s. mem_view t (pf_db s)) (on_engine (plan scan env u task agents))"
  "keeps_view (\<lambda>s. mem_view t (pf_db s)) (on_engine (execute env u k))"
  "keeps_view (\<lambda>s. mem_view t (pf_db s)) (on_engine (recover env u k))"
  by (intro keeps_view_engine mem_view_tables engine_mem_tables)+

text \<open>Of the endpoints that write the database, the memory ones keep the workflow tables and the other tenants'
  memories, the workflow ones all memories.\<close>

fun is_memory_write :: "endpoint \<Rightarrow> bool" where
  "is_memory_write Memory_store = True"
| "is_memory_write Guardian_validate = True"
| "is_memory_write _ = False"

lemma memory_endpoint_keeps:
  assumes "is_memory_write e" and "endpoint_op cfg env context e p = Some m"
  shows "keeps_view (\<lambda>s. wf_view (pf_db s)) m"
    and "(\<And>c. context = Some c \<Longrightarrow> t \<noteq> ctx_tenant_id c) \<Longrightarrow> keeps_view (\<lambda>s. mem_view t (pf_db s)) m"
  using assms
  by (cases e; force simp: endpoint_op_def endpoint_defs tenant_context_def tenant_endpoint_def
      split: option.splits payload.splits if_splits intro!: keeps_view_value_of memory_writes_keep keeps_view_simple)+

lemma other_endpoint_keeps:
  assumes "\<not> is_memory_write e" and "endpoint_op cfg env context e p = Some m" and "P_db \<in> set (effects e)"
  shows "keeps_view (\<lambda>s. mem_view t (pf_db s)) m"
  using assms
  by (cases e) (auto simp: endpoint_op_def endpoint_defs body_endpoint_def split: payload.splits if_splits
      intro!: keeps_view_value_of keeps_view_reraise engine_keeps_memory)

text \<open>Of the endpoints of the research clients, only the one that indexes repositories changes the index.\<close>

lemma keeps_view_intel:
  "keeps_repositories m \<Longrightarrow> keeps_view (\<lambda>s. in_repositories (pf_intel s)) (on_part pf_intel pf_intel_update m)"
  by (auto simp: keeps_view_def on_part_def keeps_repositories_def split: prod.split) (metis snd_conv)

lemma untimed_intel: "untimed (\<lambda>s. in_repositories (pf_intel s))"
  by (simp add: untimed_def)

lemma research_endpoint_keeps:
  assumes "e \<noteq> Github_repository" and "endpoint_op cfg env context e p = Some m" and "P_intel \<in> set (effects e)"
  shows "keeps_view (\<lambda>s. in_repositories (pf_intel s)) m"
  using assms
  by (cases e) (auto simp: endpoint_op_def endpoint_defs body_endpoint_def service_report_def service_analyze_code_def
      split: payload.splits if_splits
      intro!: keeps_view_value_of keeps_view_telemetry(1) keeps_view_intel untimed_intel repositories_kept)

subsection \<open>Serving a request\<close>

definition authorized :: "(string, APIKeyRecord) dict \<Rightarrow> 'r gate_env \<Rightarrow> 'p http_request \<Rightarrow> string \<Rightarrow> bool" where
  "authorized api_keys genv req p \<longleftrightarrow> (\<exists>i. holds_key api_keys genv req i p)"

definition authenticated :: "(string, APIKeyRecord) dict \<Rightarrow> 'r gate_env \<Rightarrow> 'p http_request \<Rightarrow> bool" where
  "authenticated api_keys genv req \<longleftrightarrow>
     (\<exists>i. authenticate_request (ge_hash genv) (ge_now genv) (req_headers req) api_keys = Inr (Some i))"

lemma served_app:
  assumes "serve_platform cfg fw api_keys genv env req s = (r, s')"
  obtains (idle) "gate_app s' = gate_app s"
  | (ran) ctx where "cleared api_keys genv req ctx"
      "gate_app s' = snd (application cfg fw env ctx (rid_of genv req) req (gate_app s))"
proof -
  obtain q s1 where run: "production_controls (pc_settings cfg) api_keys genv (application cfg fw env) req s = (q, s1)" by fastforce
  with assms have "s1 = s'" by (auto simp: serve_platform_def serve_def split: sum.splits)
  with run have "production_controls (pc_settings cfg) api_keys genv (application cfg fw env) req s = (q, s')" by simp
  then show ?thesis
    by (cases rule: gate_cases) (auto simp: runs_def intro: idle ran)
qed

text \<open>Either nothing changes, or one endpoint ran, with the permission it is protected with.\<close>

lemma served_cases:
  assumes "serve_platform cfg fw api_keys genv env req s = (r, s')"
  obtains (idle) "gate_app s' = gate_app s"
  | (ran) e m ctx where "endpoint_op cfg env ctx e (req_payload req) = Some m"
      "gate_app s' = snd (respond cfg (rid_of genv req) m (gate_app s))"
      "\<And>p. endpoint_permission e = Some p \<Longrightarrow>
         \<exists>i. holds_key api_keys genv req i p \<and> ctx = Some (context_of i (rid_of genv req))"
      "effects e \<noteq> [] \<Longrightarrow> api_keys = [] \<or> authenticated api_keys genv req"
proof (rule served_app [OF assms])
  fix ctx assume clear: "cleared api_keys genv req ctx"
    and app: "gate_app s' = snd (application cfg fw env ctx (rid_of genv req) req (gate_app s))"
  show ?thesis
  proof (rule application_cases [of cfg fw env ctx "rid_of genv req" req "gate_app s"])
    fix e m assume e: "route_endpoint (fw_path_int fw) (req_method req) (req_path req) = Some e"
      and m: "endpoint_op cfg env ctx e (req_payload req) = Some m"
      and run: "application cfg fw env ctx (rid_of genv req) req (gate_app s) = respond cfg (rid_of genv req) m (gate_app s)"
    show ?thesis
    proof (cases "needs_context e \<and> ctx = None")
      case True
      with m have "m = op_raise AuthorizationError" by (simp add: endpoint_op_def tenant_context_def)
      with app run show ?thesis by (intro idle) (auto simp: respond_def split: py_exn.split)
    next
      case False
      have "\<exists>i. holds_key api_keys genv req i p \<and> ctx = Some (context_of i (rid_of genv req))" if p: "endpoint_permission e = Some p" for p
        using False by (intro protected_cleared [OF endpoint_protected [OF e p] clear endpoint_permission_known [OF p]]) simp
      moreover have "api_keys = [] \<or> authenticated api_keys genv req" if "effects e \<noteq> []"
        using effects_not_public [OF e that] clear by (auto simp: cleared_def authenticated_def split: if_splits)
      ultimately show ?thesis using app run by (intro ran [OF m]) simp_all
    qed
  qed (use app idle in simp)
qed (rule idle)

lemma effects_permission:
  "P_graph \<in> set (effects e) \<Longrightarrow> endpoint_permission e = Some ''graph.write''"
  "P_lab \<in> set (effects e) \<Longrightarrow> endpoint_permission e = Some ''sandbox.execute''"
  "P_governance \<in> set (effects e) \<Longrightarrow>
     endpoint_permission e = Some ''governance.propose'' \<or> endpoint_permission e = Some ''governance.approve''"
  "P_evaluations \<in> set (effects e) \<Longrightarrow> endpoint_permission e = Some ''evolution.propose''"
  "P_guardian \<in> set (effects e) \<Longrightarrow> endpoint_permission e = Some ''memory.write''"
  "P_runs \<in> set (effects e) \<Longrightarrow> endpoint_permission e = Some ''workflow.start''"
  "P_db \<in> set (effects e) \<Longrightarrow> is_memory_write e \<or> P_runs \<in> set (effects e)"
  "is_memory_write e \<Longrightarrow> endpoint_permission e = Some ''memory.write''"
  by (cases e; simp)+

lemma same_exceptD:
  assumes "same_except ps s s'"
  shows "pf_gateway s' = pf_gateway s \<or> P_gateway \<in> set ps" "pf_intel s' = pf_intel s \<or> P_intel \<in> set ps"
    "pf_db s' = pf_db s \<or> P_db \<in> set ps" "pf_runs s' = pf_runs s \<or> P_runs \<in> set ps"
    "pf_guardian s' = pf_guardian s \<or> P_guardian \<in> set ps" "pf_lab s' = pf_lab s \<or> P_lab \<in> set ps"
    "pf_graph s' = pf_graph s \<or> P_graph \<in> set ps" "pf_governance s' = pf_governance s \<or> P_governance \<in> set ps"
    "pf_evaluations s' = pf_evaluations s \<or> P_evaluations \<in> set ps"
  using assms unfolding same_except_def by blast+

lemma served_memories:
  assumes m: "endpoint_op cfg env ctx e (req_payload req) = Some m" and after: "s' = snd (respond cfg rid m s)"
    and key: "\<And>p. endpoint_permission e = Some p \<Longrightarrow> \<exists>i. holds_key api_keys genv req i p \<and> ctx = Some (context_of i rid)"
    and same: "same_except (effects e) s s'"
  shows "mem_view t (pf_db s') = mem_view t (pf_db s) \<or>
    (\<exists>i. holds_key api_keys genv req i ''memory.write'' \<and> id_tenant_id i = t)"
proof (cases "P_db \<in> set (effects e)")
  case False
  with same_exceptD(3) [OF same] show ?thesis by auto
next
  case True
  have view: "keeps_view (\<lambda>s. mem_view t (pf_db s)) m \<Longrightarrow> ?thesis"
    using keeps_view_respond [of "\<lambda>s. mem_view t (pf_db s)" m cfg rid] by (simp add: keeps_view_def after)
  show ?thesis
  proof (cases "is_memory_write e")
    case False
    show ?thesis by (rule view [OF other_endpoint_keeps [OF False m True]])
  next
    case writes: True
    from key [OF effects_permission(8) [OF this]] obtain i where i: "holds_key api_keys genv req i ''memory.write''"
      and ctx: "ctx = Some (context_of i rid)" by blast
    show ?thesis
    proof (cases "id_tenant_id i = t")
      case False
      with ctx have "\<And>c. ctx = Some c \<Longrightarrow> t \<noteq> ctx_tenant_id c" by (auto simp: context_of_def)
      from view [OF memory_endpoint_keeps(2) [OF writes m this]] show ?thesis .
    qed (use i in blast)
  qed
qed

lemma served_workflows:
  assumes m: "endpoint_op cfg env ctx e (req_payload req) = Some m" and after: "s' = snd (respond cfg rid m s)"
    and may: "\<And>p. endpoint_permission e = Some p \<Longrightarrow> authorized api_keys genv req p"
    and same: "same_except (effects e) s s'"
  shows "wf_view (pf_db s') = wf_view (pf_db s) \<and> pf_runs s' = pf_runs s \<or> authorized api_keys genv req ''workflow.start''"
proof (cases "P_runs \<in> set (effects e)")
  case True
  with may effects_permission(6) show ?thesis by blast
next
  case False
  with same_exceptD(4) [OF same] have runs: "pf_runs s' = pf_runs s" by blast
  have "wf_view (pf_db s') = wf_view (pf_db s)"
  proof (cases "P_db \<in> set (effects e)")
    case True
    with False effects_permission(7) have "is_memory_write e" by blast
    from keeps_view_respond [OF memory_endpoint_keeps(1) [OF this m], of cfg rid] show ?thesis
      by (simp add: keeps_view_def after)
  qed (use same_exceptD(3) [OF same] in auto)
  with runs show ?thesis by simp
qed

lemma served_repositories:
  assumes m: "endpoint_op cfg env ctx e (req_payload req) = Some m" and after: "s' = snd (respond cfg rid m s)"
    and may: "\<And>p. endpoint_permission e = Some p \<Longrightarrow> authorized api_keys genv req p"
    and same: "same_except (effects e) s s'"
  shows "in_repositories (pf_intel s') = in_repositories (pf_intel s) \<or> authorized api_keys genv req ''github.index''"
proof (cases "e = Github_repository \<or> P_intel \<notin> set (effects e)")
  case True
  with may [of "''github.index''"] same_exceptD(2) [OF same] show ?thesis by auto
next
  case False
  then have "keeps_view (\<lambda>s. in_repositories (pf_intel s)) m" using research_endpoint_keeps [OF _ m] by blast
  from keeps_view_respond [OF this, of cfg rid] show ?thesis by (simp add: keeps_view_def after)
qed

text \<open>
  C1: Durable state changes only for requests that were authorized to change it. The memories a tenant can see change
  only for a request whose key holds \<^verbatim>\<open>memory.write\<close> and belongs to that very tenant; the workflows
  only with \<^verbatim>\<open>workflow.start\<close>; the knowledge graph only with \<^verbatim>\<open>graph.write\<close>; the repositories indexed only with
  \<^verbatim>\<open>github.index\<close>; the sandbox runs
  nothing without \<^verbatim>\<open>sandbox.execute\<close> and an approval; governance decisions, evaluations and the
  guardian's histories change only with the permission of their routes. The routes of the model gateway, of research,
  articles and code analysis ask for no permission: the accounts of the gateway and what
  the research clients keep change only for an authenticated request, or when no keys are
  configured at all. The counters of the telemetry are left out: every request moves them. This holds of every
  request, whatever its path, headers and body.
\<close>

theorem effects_authorized:
  "case serve_platform cfg fw api_keys genv env req s of (r, s') \<Rightarrow>
     let before = gate_app s; after = gate_app s' in
       (mem_view t (pf_db after) = mem_view t (pf_db before) \<or>
          (\<exists>i. holds_key api_keys genv req i ''memory.write'' \<and> id_tenant_id i = t)) \<and>
       (wf_view (pf_db after) = wf_view (pf_db before) \<and> pf_runs after = pf_runs before \<or>
          authorized api_keys genv req ''workflow.start'') \<and>
       (pf_graph after = pf_graph before \<or> authorized api_keys genv req ''graph.write'') \<and>
       (pf_lab after = pf_lab before \<or> authorized api_keys genv req ''sandbox.execute'') \<and>
       (pf_governance after = pf_governance before \<or> authorized api_keys genv req ''governance.propose'' \<or>
          authorized api_keys genv req ''governance.approve'') \<and>
       (pf_evaluations after = pf_evaluations before \<or> authorized api_keys genv req ''evolution.propose'') \<and>
       (pf_guardian after = pf_guardian before \<or> authorized api_keys genv req ''memory.write'') \<and>
       (in_repositories (pf_intel after) = in_repositories (pf_intel before) \<or> authorized api_keys genv req ''github.index'') \<and>
       (pf_gateway after = pf_gateway before \<and> pf_intel after = pf_intel before \<or>
          api_keys = [] \<or> authenticated api_keys genv req)"
proof -
  obtain r s' where run: "serve_platform cfg fw api_keys genv env req s = (r, s')" by fastforce
  show ?thesis
  proof (rule served_cases [OF run])
    assume "gate_app s' = gate_app s"
    with run show ?thesis by (simp add: Let_def)
  next
    fix e m ctx assume m: "endpoint_op cfg env ctx e (req_payload req) = Some m"
      and after: "gate_app s' = snd (respond cfg (rid_of genv req) m (gate_app s))"
      and key: "\<And>p. endpoint_permission e = Some p \<Longrightarrow>
         \<exists>i. holds_key api_keys genv req i p \<and> ctx = Some (context_of i (rid_of genv req))"
      and auth: "effects e \<noteq> [] \<Longrightarrow> api_keys = [] \<or> authenticated api_keys genv req"
    have same: "same_except (effects e) (gate_app s) (gate_app s')"
      using respond_touches [OF endpoint_touches [OF m]] unfolding touches_def after by blast
    note changed = same_exceptD [OF same]
    have may: "authorized api_keys genv req p" if "endpoint_permission e = Some p" for p
      using key [OF that] by (auto simp: authorized_def)
    have "mem_view t (pf_db (gate_app s')) = mem_view t (pf_db (gate_app s)) \<or>
        (\<exists>i. holds_key api_keys genv req i ''memory.write'' \<and> id_tenant_id i = t)"
      by (rule served_memories [OF m after key same])
    moreover have "wf_view (pf_db (gate_app s')) = wf_view (pf_db (gate_app s)) \<and> pf_runs (gate_app s') = pf_runs (gate_app s) \<or>
        authorized api_keys genv req ''workflow.start''"
      by (rule served_workflows [OF m after may same])
    moreover have "in_repositories (pf_intel (gate_app s')) = in_repositories (pf_intel (gate_app s)) \<or>
        authorized api_keys genv req ''github.index''"
      by (rule served_repositories [OF m after may same])
    ultimately show ?thesis
      using changed may auth effects_permission(1-5) [of e] unfolding run prod.case Let_def by (metis empty_iff empty_set)
  qed
qed


subsection \<open>Validating a memory\<close>

lemma store_present:
  assumes "store c env ctx x ty md d = (Inr r, d')"
  shows "r \<in> to_record ` set (memories d')"
  using assms by (cases rule: store_Inr) (auto simp: audited_def inserted_def dest: find_by_SomeD)

lemma timed_Inr: "timed env l k m s = (Inr a, s') \<Longrightarrow> \<exists>s1. m s = (Inr a, s1) \<and> (\<forall>f. untimed f \<longrightarrow> f s' = f s1)"
  by (auto simp: timed_def timer_def untimed_def split: prod.splits sum.splits)

lemma on_part_Inr: "on_part get upd m s = (Inr a, s') \<Longrightarrow> \<exists>x. m (get s) = (Inr a, x) \<and> s' = upd (\<lambda>_. x) s"
  by (auto simp: on_part_def split: prod.splits)

lemma validate_memory_reviews:
  assumes "reorders (pe_rows env)" and "validate_memory cfg env x ty md ctx s = (Inr v, s')"
  shows "gr_decision v = ''review'' \<and> gr_candidate_id v \<in> m_id ` set (memories (pf_db s'))"
proof -
  let ?store = "on_part pf_db pf_db_update (layer_store (pc_memory cfg) (pe_call env) x ty (Some md) (Some ctx))"
  from timed_Inr [OF assms(2) [unfolded validate_memory_def]] obtain s1 r s2 rs s3 s4 where
    stored: "?store s = (Inr r, s2)" and listed: "on_part pf_db pf_db_update (records_values (pe_rows env)) s2 = (Inr rs, s3)"
    and checked: "on_part pf_guardian pf_guardian_update (guardian_validate r rs) s3 = (Inr v, s4)"
    and counted: "count ''memory_reviews'' 1 ''2'' s4 = (Inr (), s1)" and db: "pf_db s' = pf_db s1"
    using untimed_db [of id] by (fastforce elim!: op_bind_InrE)
  from stored have present: "r \<in> to_record ` set (memories (pf_db s2))"
    by (auto simp: layer_store_def with_context_def dest!: on_part_Inr intro: store_present)
  have rs: "set rs = to_record ` set (memories (pf_db s2))" and s3: "pf_db s3 = pf_db s2"
    using listed set_reordered [OF assms(1)] by (auto simp: records_values_def with_session_def dest!: on_part_Inr)
  from present rs have "r \<in> set rs" by simp
  then obtain v' where v': "fst (guardian_validate r rs (pf_guardian s3)) = Inr v'" "gr_decision v' = ''review''"
    using validate_present [of r rs r] by blast
  with checked have "v = v'" by (auto dest!: on_part_Inr)
  moreover have "gr_candidate_id v = r_id r" using checked
    by (auto simp: guardian_validate_def Let_def dest!: on_part_Inr split: prod.splits)
  moreover have "pf_db s' = pf_db s2" using db counted checked s3
    by (auto simp: count_def dest!: on_part_Inr)
  ultimately show ?thesis using v' present by (auto simp: to_record_def)
qed


end
