(* ===== verification/System_Runs.thy ===== *)
theory System_Runs
  imports Api_Effects
begin

section \<open>Runs of the whole system\<close>

text \<open>
  Sequences of requests served by the platform, from its start on a fresh database: the invariants of
  the components hold together in every state the system reaches. The memory layer and the workflow
  engine share one database, so each must keep the other's invariant; the governance log stays
  consistent because the API validates the decision number of a review.
\<close>

subsection \<open>The invariant\<close>

definition db_inv :: "db \<Rightarrow> bool" where
  "db_inv d \<longleftrightarrow> mem_inv d \<and> wf_inv ''legacy'' d \<and> docs_ok d"

definition platform_ok :: "platform_config \<Rightarrow> platform \<Rightarrow> bool" where
  "platform_ok cfg s \<longleftrightarrow> db_inv (pf_db s) \<and> lab_ok (pc_sandbox cfg) (pf_lab s) \<and> numbered_histories (pf_guardian s) \<and>
     governance_ok (pf_governance s) \<and> books_ok (pc_gateway cfg) (pf_gateway s)"

lemma wf_inv_frame:
  assumes "wf_inv t d" and "wf_view d' = wf_view d" and "db_ok d'" and "tenant_ids d \<subseteq> tenant_ids d'"
  shows "wf_inv t d'"
  using assms by (auto simp: wf_inv_defs numbered_def journal_of_def wf_view_def)

lemma docs_ok_frame: "docs_ok d \<Longrightarrow> wf_view d' = wf_view d \<Longrightarrow> docs_ok d'"
  by (simp add: docs_ok_def wf_view_def)

lemma mem_inv_frame: "mem_inv d \<Longrightarrow> mem_tables d' = mem_tables d \<Longrightarrow> db_ok d' \<Longrightarrow> mem_inv d'"
  by (simp add: mem_inv_def linked_def history_of_def mem_tables_def)

lemma ensure_tenant_grows: "ensure_tenant t n now d = (r, d') \<Longrightarrow> tenant_ids d \<subseteq> tenant_ids d'"
  by (auto simp: ensure_tenant_def with_session_def add_tenant_def checked_def tenant_ids_def split: option.splits if_splits)

lemma store_tenants:
  assumes "store c env ctx x ty md d = (r, d')"
  shows "tenant_ids d \<subseteq> tenant_ids d'"
proof (cases r)
  case (Inl e)
  with assms have "store c env ctx x ty md d = (Inl e, d')" by simp
  then show ?thesis by (cases rule: store_Inl) (rule ensure_tenant_grows)
next
  case (Inr q)
  with assms have "store c env ctx x ty md d = (Inr q, d')" by simp
  then show ?thesis
    by (cases rule: store_Inr) (drule ensure_tenant_grows; simp add: audited_def inserted_def tenant_ids_def)+
qed

lemma store_db_inv: "always db_inv (store c env ctx x ty md)"
proof (rule alwaysI)
  fix d assume inv: "db_inv d"
  obtain r d' where s: "store c env ctx x ty md d = (r, d')" by fastforce
  have m: "mem_inv d'" using alwaysD [OF store_inv _ s] inv by (simp add: db_inv_def)
  moreover have "wf_inv ''legacy'' d'" using inv m wf_inv_frame store_views(1) [OF s] store_tenants [OF s]
    by (auto simp: db_inv_def mem_inv_def)
  moreover have "docs_ok d'" using inv docs_ok_frame store_views(1) [OF s] by (auto simp: db_inv_def)
  ultimately show "db_inv (snd (store c env ctx x ty md d))" by (simp add: s db_inv_def)
qed

definition engine_ok :: "engine \<Rightarrow> bool" where
  "engine_ok e \<longleftrightarrow> db_inv (eng_db e)"

lemma engine_db_inv:
  assumes "eng_inv ''legacy'' e \<Longrightarrow> eng_inv ''legacy'' e'" and "mem_tables (eng_db e') = mem_tables (eng_db e)" and "engine_ok e"
  shows "engine_ok e'"
proof -
  have "eng_inv ''legacy'' e'" using assms(1,3) by (simp add: engine_ok_def db_inv_def eng_inv_def)
  then have "wf_inv ''legacy'' (eng_db e')" "docs_ok (eng_db e')" "db_ok (eng_db e')" by (simp_all add: eng_inv_def wf_inv_def)
  moreover have "mem_inv (eng_db e')"
    using mem_inv_frame [OF _ assms(2)] assms(3) calculation(3) by (simp add: engine_ok_def db_inv_def)
  ultimately show ?thesis by (simp add: engine_ok_def db_inv_def)
qed

lemma engine_always:
  "reorders scan \<Longrightarrow> always engine_ok (plan scan env ''legacy'' task agents)"
  "always engine_ok (execute env ''legacy'' k)" "always engine_ok (recover env ''legacy'' k)"
  by (rule alwaysI, erule engine_db_inv [rotated 2], blast intro: plan_inv execute_inv recover_inv, rule engine_mem_tables)+


subsection \<open>Operations of the service\<close>

named_theorems always_intros \<open>how operations of the platform are composed from ones that keep the invariant\<close>

lemma always_simple [always_intros]: "always P (op_return a)" "always P (op_raise e)" "always P (op_get f)" "always P (lift r)"
  by (simp_all add: always_def lift_def)

lemma always_quiet [always_intros]: "always P (\<lambda>s. (f s, s))"
  by (simp add: always_def)

declare always_bind [always_intros]

lemma always_value_of [always_intros]: "always P m \<Longrightarrow> always P (value_of f m)"
  unfolding value_of_def by (intro always_intros)

lemma always_reraise [always_intros]: "always P m \<Longrightarrow> always P (reraise f m)"
  by (rule alwaysI) (auto simp: reraise_def split: prod.split sum.split dest: alwaysD)

lemma always_respond: "always P m \<Longrightarrow> always P (respond cfg rid m)"
  by (rule alwaysI) (auto simp: respond_def split: prod.split sum.split py_exn.split dest: alwaysD)

lemma platform_ok_telemetry [simp]: "platform_ok cfg (pf_telemetry_update f s) = platform_ok cfg s"
  by (simp add: platform_ok_def)

lemma always_timed [always_intros]: "always (platform_ok cfg) m \<Longrightarrow> always (platform_ok cfg) (timed env l k m)"
  by (rule alwaysI) (auto simp: timed_def timer_def split: prod.split sum.split dest: alwaysD)

lemma always_count [always_intros]: "always (platform_ok cfg) (count name v l)"
  by (simp add: always_def count_def)

lemma always_parts:
  "always db_inv m1 \<Longrightarrow> always (platform_ok cfg) (on_part pf_db pf_db_update m1)"
  "always (lab_ok (pc_sandbox cfg)) m2 \<Longrightarrow> always (platform_ok cfg) (on_part pf_lab pf_lab_update m2)"
  "always numbered_histories m3 \<Longrightarrow> always (platform_ok cfg) (on_part pf_guardian pf_guardian_update m3)"
  "always governance_ok m4 \<Longrightarrow> always (platform_ok cfg) (on_part pf_governance pf_governance_update m4)"
  "always (books_ok (pc_gateway cfg)) m5 \<Longrightarrow> always (platform_ok cfg) (on_part pf_gateway pf_gateway_update m5)"
  by (rule alwaysI; auto simp: on_part_def platform_ok_def split: prod.split dest: alwaysD)+

lemma always_on_engine: "always engine_ok m \<Longrightarrow> always (platform_ok cfg) (on_engine m)"
  unfolding always_def on_engine_def platform_ok_def engine_ok_def
  by (auto split: prod.split) (metis engine.select_convs(1) snd_conv)

lemma always_free_parts [always_intros]:
  "always (platform_ok cfg) (on_part pf_intel pf_intel_update m1)"
  "always (platform_ok cfg) (on_part pf_graph pf_graph_update m2)"
  "always (platform_ok cfg) (on_part pf_evaluations pf_evaluations_update m3)"
  by (rule alwaysI; simp add: on_part_def platform_ok_def split: prod.split)+

lemma always_reading: "(\<And>d. snd (m d) = d) \<Longrightarrow> always P m"
  by (simp add: always_def)

lemma always_db [always_intros]:
  "always (platform_ok cfg) (on_part pf_db pf_db_update (layer_store c env x ty md ctx))"
  "always (platform_ok cfg) (on_part pf_db pf_db_update (layer_search scan q n ctx))"
  "always (platform_ok cfg) (on_part pf_db pf_db_update (layer_consolidate scan ctx))"
  "always (platform_ok cfg) (on_part pf_db pf_db_update (records_values scan))"
  using store_db_inv
  by (intro always_parts; simp add: layer_store_def with_context_def always_reading reads layer_store_views always_simple split: option.split)+

lemma always_sandbox [always_intros]:
  "always (platform_ok cfg) (on_part pf_lab pf_lab_update (sandbox_execute (pc_sandbox cfg) run command t))"
  using lab_step_ok [of "pc_sandbox cfg" _ "(run, command, t)"] by (intro always_parts) (simp add: always_def)

lemma always_guardian [always_intros]:
  "always (platform_ok cfg) (on_part pf_guardian pf_guardian_update (guardian_version m))"
  "always (platform_ok cfg) (on_part pf_guardian pf_guardian_update (guardian_validate c rs))"
  using guardian_step_numbered [of _ "G_version m"] guardian_step_numbered [of _ "G_validate c rs"]
  by (intro always_parts; simp add: always_def)+

lemma always_governance [always_intros]:
  "always (platform_ok cfg) (on_part pf_governance pf_governance_update (propose t b r))"
  "1 \<le> n \<Longrightarrow> always (platform_ok cfg) (on_part pf_governance pf_governance_update (governance_review n who q))"
  using propose_ok review_ok [of _ "nat (n - 1)" who q] by (intro always_parts; simp add: always_def)+

lemma always_chat [always_intros]:
  "always (platform_ok cfg) (on_part pf_gateway pf_gateway_update (core_complete w (pc_gateway cfg) x m st))"
  using call_step_books_ok [of "pc_gateway cfg" _ "(w, c)" for c] by (intro always_parts) (simp add: always_def core_complete_def)

lemma always_engine [always_intros]:
  "reorders scan \<Longrightarrow> always (platform_ok cfg) (on_engine (plan scan env ''legacy'' task agents))"
  "always (platform_ok cfg) (on_engine (execute env ''legacy'' k))"
  "always (platform_ok cfg) (on_engine (recover env ''legacy'' k))"
  by (intro always_on_engine engine_always; assumption)+


lemma always_embeddings [always_intros]:
  "always (platform_ok cfg) (on_part pf_gateway pf_gateway_update (core_embeddings w (pc_gateway cfg) x m))"
proof (rule always_parts)
  have "always (books_ok g) (adapter_embeddings w p k x)" for g p k
    by (rule alwaysI) (auto simp: adapter_embeddings_def adapter_post_def books_ok_def split: prod.split)
  moreover have "always (books_ok g) (candidate_providers w g m)" for g
    by (rule alwaysI) (metis (no_types, lifting) books_ok_def candidate_providers_frame prod.collapse same_books_def)
  ultimately show "always (books_ok (pc_gateway cfg)) (core_embeddings w (pc_gateway cfg) x m)"
    unfolding core_embeddings_def embeddings_def Let_def
    by (auto intro!: always_intros)
qed

subsection \<open>Endpoints and requests\<close>

lemma plain_always: "plain_endpoint cfg env e = Some m \<Longrightarrow> always (platform_ok cfg) m"
  by (cases e) (auto intro!: always_intros simp: endpoint_defs improvement_proposals_def)

lemma body_always:
  "reorders (pe_checkpoints env) \<Longrightarrow> valid_payload p \<Longrightarrow> body_endpoint cfg env e p = Some m \<Longrightarrow> always (platform_ok cfg) m"
  by (cases e)
    (auto simp: body_endpoint_def endpoint_defs service_chat_def service_embeddings_def service_report_def service_analyze_code_def
      split: payload.splits intro!: always_intros)

lemma tenant_always: "tenant_endpoint cfg env ctx e p = Some m \<Longrightarrow> always (platform_ok cfg) m"
  by (cases e)
    (auto simp: tenant_endpoint_def endpoint_defs store_memory_def search_memory_def validate_memory_def
      split: payload.splits intro!: always_intros)

lemma endpoint_always:
  "reorders (pe_checkpoints env) \<Longrightarrow> endpoint_op cfg env context e p = Some m \<Longrightarrow> always (platform_ok cfg) m"
  by (auto simp: endpoint_op_def intro: always_intros dest: plain_always body_always tenant_always
      split: if_splits sum.splits option.splits)

lemma new_platform_ok: "platform_ok cfg (new_platform cfg now)"
proof -
  have "eng_inv ''legacy'' (new_engine ''legacy'' now)" by (rule new_engine_inv)
  moreover have "mem_inv (eng_db (new_engine ''legacy'' now))"
  proof -
    obtain r d where e: "ensure_tenant ''legacy'' None now empty_db = (r, d)" by fastforce
    have "mem_tables d = mem_tables empty_db" using ensure_tenant_frame [OF e] by (simp add: mem_tables_def)
    moreover have "db_ok d" using alwaysD [OF ensure_tenant_always empty_db_ok e] .
    ultimately show ?thesis using mem_inv_frame [OF mem_inv_empty] by (simp add: new_engine_def e)
  qed
  ultimately show ?thesis
    using new_gateway_books_ok [of "pc_gateway cfg"]
    by (simp add: platform_ok_def new_platform_def db_inv_def eng_inv_def lab_ok_def new_lab_def numbered_histories_def
        new_guardian_def guardian_history_of_def dict_get_default_def governance_ok_def new_governance_def)
qed

text \<open>One request, in the environment it meets.\<close>

type_synonym 'r visit = "'r gate_env \<times> platform_env \<times> payload http_request"

fun visit_step ::
    "platform_config \<Rightarrow> framework \<Rightarrow> (string, APIKeyRecord) dict \<Rightarrow> 'r visit \<Rightarrow> ('r, platform) gate \<Rightarrow> ('r, platform) gate" where
  "visit_step cfg fw api_keys (genv, env, req) s = snd (serve_platform cfg fw api_keys genv env req s)"

fun ordered_scans :: "'r visit \<Rightarrow> bool" where
  "ordered_scans (genv, env, req) = (reorders (pe_checkpoints env) \<and> reorders (pe_rows env))"

lemma visit_ok:
  assumes "ordered_scans v" and "platform_ok cfg (gate_app s)"
  shows "platform_ok cfg (gate_app (visit_step cfg fw api_keys v s))"
proof (cases v)
  case (fields genv env req)
  obtain r s' where run: "serve_platform cfg fw api_keys genv env req s = (r, s')" by fastforce
  have "platform_ok cfg (gate_app s')"
  proof (rule served_cases [OF run])
    fix e m ctx assume "endpoint_op cfg env ctx e (req_payload req) = Some m"
      and after: "gate_app s' = snd (respond cfg (rid_of genv req) m (gate_app s))"
    then have "always (platform_ok cfg) (respond cfg (rid_of genv req) m)"
      using assms(1) fields by (intro always_respond endpoint_always) simp_all
    with assms(2) show ?thesis by (simp add: after always_def)
  qed (use assms(2) in simp)
  then show ?thesis by (simp add: fields run)
qed


subsection \<open>Durable records\<close>

text \<open>Rows of the memory tables, of the audit table and of the journals are only ever added.\<close>

definition db_grows :: "db \<Rightarrow> db \<Rightarrow> bool" where
  "db_grows d d' \<longleftrightarrow> prefix (memories d) (memories d') \<and> prefix (memory_versions d) (memory_versions d') \<and>
     prefix (audit_events d) (audit_events d') \<and> prefix (workflow_events d) (workflow_events d')"

lemma db_grows_refl [simp]: "db_grows d d"
  by (simp add: db_grows_def)

lemma db_grows_trans: "db_grows d d' \<Longrightarrow> db_grows d' d'' \<Longrightarrow> db_grows d d''"
  unfolding db_grows_def by (blast intro: prefix_order.trans)

lemma store_grows: "db_grows d (snd (store c env ctx x ty md d))"
proof (cases "store c env ctx x ty md d")
  case (Pair r d')
  have "db_grows d d'"
  proof (cases r)
    case (Inl e)
    with Pair show ?thesis by (auto simp: db_grows_def elim!: store_Inl dest!: ensure_tenant_frame)
  next
    case (Inr q)
    with Pair have "store c env ctx x ty md d = (Inr q, d')" by simp
    then show ?thesis
      by (cases rule: store_Inr) (auto simp: db_grows_def audited_def inserted_def dest!: ensure_tenant_frame)
  qed
  with Pair show ?thesis by simp
qed

lemma upsert_events: "prefix (workflow_events d) (workflow_events (snd (upsert_workflow env t doc d)))"
proof (cases "upsert_workflow env t doc d")
  case (Pair r d')
  show ?thesis
  proof (cases r)
    case (Inl e)
    with Pair show ?thesis by (auto simp: upsert_workflow_def Let_def dest: with_session_Inl)
  next
    case (Inr a)
    with Pair upsert_Inr [of env t doc d] show ?thesis by (simp add: upserted_def Let_def)
  qed
qed

lemma db_grows_upsert: "db_grows d (snd (upsert_workflow env t doc d))"
  using upsert_events [of d env t doc] upsert_mem_tables [of env t doc d] by (simp add: db_grows_def mem_tables_def)

lemma engine_grows:
  "db_grows (eng_db s) (eng_db (snd (plan scan env u task agents s)))"
  "db_grows (eng_db s) (eng_db (snd (execute env u k s)))"
  "db_grows (eng_db s) (eng_db (snd (recover env u k s)))"
  by (auto simp: plan_def execute_eq recover_eq' op_bind_def wf_list_eq Let_def db_grows_upsert
      split: prod.split sum.split)

definition grows :: "(platform, 'a) sop \<Rightarrow> bool" where
  "grows m \<longleftrightarrow> (\<forall>s. db_grows (pf_db s) (pf_db (snd (m s))))"

lemma grows_bind: "grows m \<Longrightarrow> (\<And>a. grows (f a)) \<Longrightarrow> grows (op_bind m f)"
  unfolding grows_def op_bind_def by (fastforce split: prod.split sum.split intro: db_grows_trans)

lemma grows_value_of: "grows m \<Longrightarrow> grows (value_of f m)"
  unfolding value_of_def by (rule grows_bind) (simp_all add: grows_def)

lemma grows_reraise: "grows m \<Longrightarrow> grows (reraise f m)"
  unfolding grows_def reraise_def by (auto split: prod.split sum.split) (metis snd_conv)+

lemma grows_respond: "grows m \<Longrightarrow> grows (respond cfg rid m)"
  unfolding grows_def respond_def by (auto split: prod.split sum.split py_exn.split) (metis snd_conv)+

lemma grows_timed: "grows m \<Longrightarrow> grows (timed env l k m)"
  unfolding grows_def timed_def timer_def by (auto split: prod.split sum.split) (metis snd_conv)+

lemma grows_parts:
  "(\<And>d. db_grows d (snd (m1 d))) \<Longrightarrow> grows (on_part pf_db pf_db_update m1)"
  "grows (on_part pf_guardian pf_guardian_update m2)" "grows (count name v l)" "grows (op_return a)"
  "grows (op_raise e)"
  by (auto simp: grows_def on_part_def count_def split: prod.split) (metis snd_conv)

lemma grows_engine: "(\<And>e. db_grows (eng_db e) (eng_db (snd (m e)))) \<Longrightarrow> grows (on_engine m)"
  by (auto simp: grows_def on_engine_def split: prod.split) (metis engine.select_convs(1) snd_conv)

lemma memory_ops_grow: "grows (store_memory cfg env x ty md ctx)" "grows (validate_memory cfg env x ty md ctx)"
  unfolding store_memory_def validate_memory_def
  by (intro grows_timed grows_bind grows_parts; simp add: layer_store_def with_context_def store_grows layer_store_views)+

lemma endpoint_grows:
  assumes "endpoint_op cfg env context e p = Some m"
  shows "grows m"
proof (cases "P_db \<in> set (effects e)")
  case True
  with assms show ?thesis
    by (cases e) (auto simp: endpoint_op_def endpoint_defs tenant_context_def tenant_endpoint_def body_endpoint_def
        split: option.splits sum.splits payload.splits if_splits
        intro!: grows_value_of grows_reraise memory_ops_grow grows_engine engine_grows grows_parts)
next
  case False
  with endpoint_touches [OF assms] show ?thesis
    by (auto simp: touches_def grows_def same_except_def)
qed

lemma visit_grows: "db_grows (pf_db (gate_app s)) (pf_db (gate_app (visit_step cfg fw api_keys v s)))"
proof (cases v)
  case (fields genv env req)
  obtain r s' where run: "serve_platform cfg fw api_keys genv env req s = (r, s')" by fastforce
  have "db_grows (pf_db (gate_app s)) (pf_db (gate_app s'))"
  proof (rule served_cases [OF run])
    fix e m ctx assume "endpoint_op cfg env ctx e (req_payload req) = Some m"
      and after: "gate_app s' = snd (respond cfg (rid_of genv req) m (gate_app s))"
    from grows_respond [OF endpoint_grows [OF this(1)]] show ?thesis by (simp add: after grows_def)
  qed simp
  then show ?thesis by (simp add: fields run)
qed

lemma visit_trail: "prefix (gate_audit s) (gate_audit (visit_step cfg fw api_keys v s))"
proof (cases v)
  case (fields genv env req)
  obtain q s' where run: "production_controls (pc_settings cfg) api_keys genv (application cfg fw env) req s = (q, s')" by fastforce
  then have "snd (serve_platform cfg fw api_keys genv env req s) = s'"
    by (auto simp: serve_platform_def serve_def split: sum.split)
  with run show ?thesis unfolding fields visit_step.simps by (cases rule: gate_cases) simp_all
qed

interpretation durable_memories: append_only "visit_step cfg fw api_keys" "\<lambda>s. memories (pf_db (gate_app s))" for cfg fw api_keys
  by unfold_locales (rule visit_grows [unfolded db_grows_def, THEN conjunct1])

interpretation durable_versions: append_only "visit_step cfg fw api_keys" "\<lambda>s. memory_versions (pf_db (gate_app s))" for cfg fw api_keys
  by unfold_locales (rule visit_grows [unfolded db_grows_def, THEN conjunct2, THEN conjunct1])

interpretation durable_audit: append_only "visit_step cfg fw api_keys" "\<lambda>s. audit_events (pf_db (gate_app s))" for cfg fw api_keys
  by unfold_locales (rule visit_grows [unfolded db_grows_def, THEN conjunct2, THEN conjunct2, THEN conjunct1])

interpretation durable_journals: append_only "visit_step cfg fw api_keys" "\<lambda>s. workflow_events (pf_db (gate_app s))" for cfg fw api_keys
  by unfold_locales (rule visit_grows [unfolded db_grows_def, THEN conjunct2, THEN conjunct2, THEN conjunct2])

interpretation durable_trail: append_only "visit_step cfg fw api_keys" gate_audit for cfg fw api_keys
  by unfold_locales (rule visit_trail)


subsection \<open>Reading memories\<close>

definition reads_memory :: "endpoint \<Rightarrow> bool" where
  "reads_memory e \<longleftrightarrow> e \<in> set [Memory_search, Memory_retrieve, Memory_consolidate]"

lemma mem_view_active: "mem_view t d' = mem_view t d \<Longrightarrow> active_rows t d' = active_rows t d"
proof -
  assume "mem_view t d' = mem_view t d"
  then have "filter (\<lambda>r. m_tenant_id r = t) (memories d') = filter (\<lambda>r. m_tenant_id r = t) (memories d)" by (simp add: mem_view_def)
  from arg_cong [OF this, of "filter (\<lambda>r. m_status r = ''ACTIVE'')"] show ?thesis by (simp add: active_rows_def conj_commute)
qed

lemma fst_timed [simp]: "fst (timed env l k m s) = fst (m s)"
  by (auto simp: timed_def timer_def split: prod.split sum.split)

lemma fst_value_of: "fst (value_of f m s) = map_sum id f (fst (m s))"
  by (auto simp: value_of_def op_bind_def split: prod.split sum.split)

lemma fst_on_part [simp]: "fst (on_part get upd m s) = fst (m (get s))"
  by (simp add: on_part_def split: prod.split)

lemma fst_respond: "fst (m s) = fst (m s') \<Longrightarrow> fst (respond cfg rid m s) = fst (respond cfg rid m s')"
  by (auto simp: respond_def split: prod.splits sum.splits py_exn.splits)

lemma read_same:
  assumes "reads_memory e" and "endpoint_op cfg env (Some c) e p = Some m"
    and "mem_view (ctx_tenant_id c) (pf_db s') = mem_view (ctx_tenant_id c) (pf_db s)"
  shows "fst (m s') = fst (m s)"
proof -
  note same = mem_view_active [OF assms(3)]
  have "fst (layer_search scan q n (Some c) (pf_db s')) = fst (layer_search scan q n (Some c) (pf_db s))" for scan q n
    by (simp add: layer_search_def with_context_def search_def with_session_def same)
  moreover have "fst (layer_consolidate scan (Some c) (pf_db s')) = fst (layer_consolidate scan (Some c) (pf_db s))" for scan
    by (simp add: layer_consolidate_def with_context_def consolidate_def with_session_def op_bind_def same split: sum.split)
  moreover have "valid_payload p" "tenant_endpoint cfg env c e p = Some m"
    using assms(1,2) by (auto simp: reads_memory_def endpoint_op_def tenant_context_def split: if_splits)
  moreover have "e = Memory_search \<or> e = Memory_retrieve \<or> e = Memory_consolidate" using assms(1) by (simp add: reads_memory_def)
  ultimately show ?thesis
    by (elim disjE; cases p) (auto simp: tenant_endpoint_def endpoint_defs search_memory_def fst_value_of)
qed

fun stranger :: "(string, APIKeyRecord) dict \<Rightarrow> string \<Rightarrow> 'r visit \<Rightarrow> bool" where
  "stranger api_keys t (genv, env, req) \<longleftrightarrow> (\<forall>i. holds_key api_keys genv req i ''memory.write'' \<longrightarrow> id_tenant_id i \<noteq> t)"

lemma visit_view:
  assumes "stranger api_keys t v"
  shows "mem_view t (pf_db (gate_app (visit_step cfg fw api_keys v s))) = mem_view t (pf_db (gate_app s))"
proof (cases v)
  case (fields genv env req)
  obtain r s' where run: "serve_platform cfg fw api_keys genv env req s = (r, s')" by fastforce
  have "mem_view t (pf_db (gate_app s')) = mem_view t (pf_db (gate_app s)) \<or>
      (\<exists>i. holds_key api_keys genv req i ''memory.write'' \<and> id_tenant_id i = t)"
  proof (rule served_cases [OF run])
    fix e m ctx assume m: "endpoint_op cfg env ctx e (req_payload req) = Some m"
      and after: "gate_app s' = snd (respond cfg (rid_of genv req) m (gate_app s))"
      and key: "\<And>p. endpoint_permission e = Some p \<Longrightarrow>
         \<exists>i. holds_key api_keys genv req i p \<and> ctx = Some (context_of i (rid_of genv req))"
    have same: "same_except (effects e) (gate_app s) (gate_app s')"
      using respond_touches [OF endpoint_touches [OF m]] unfolding touches_def after by blast
    show ?thesis by (rule served_memories [OF m after key same])
  qed simp
  with assms fields run show ?thesis by auto
qed

subsection \<open>A platform to try the statements on\<close>

definition example_settings :: Settings where
  "example_settings = \<lparr>environment = ''test'', service_name = ''agi-platform'', set_api_key = None, set_api_keys = None,
     rate_limit_per_minute = 120, database_url = [], qdrant_url = [], neo4j_uri = [], redis_url = [],
     redis_required = False, rate_limit_fail_open = False\<rparr>"

definition example_platform :: platform_config where
  "example_platform = \<lparr>pc_settings = example_settings, pc_gateway = example_config, pc_memory = memory_example_config,
     pc_sandbox = default_sandbox, pc_tools = new_registry TOOL_CONTRACTS\<rparr>"

definition example_platform_env :: "string \<Rightarrow> platform_env" where
  "example_platform_env a = \<lparr>pe_now = 7, pe_ms = 1, pe_world = example_world example_net,
     pe_intel = \<lparr>iw_getenv = (\<lambda>v. None), iw_network = (\<lambda>n. example_net), iw_exn_str = (\<lambda>e. []), iw_repr = (\<lambda>j. []),
       iw_ast_parse = (\<lambda>code. Inr None)\<rparr>,
     pe_call = memory_example_env a, pe_wf = \<lparr>fresh_event = a, wf_now = 7\<rparr>, pe_run = (\<lambda>p. (Completed 0 [] [], 1)),
     pe_rows = (\<lambda>rows. rows), pe_checkpoints = (\<lambda>rows. rows), pe_float_repr = (\<lambda>q. []), pe_failure = (\<lambda>m. None)\<rparr>"

definition example_api_keys :: "(string, APIKeyRecord) dict" where
  "example_api_keys = map (\<lambda>t. (t, \<lparr>rec_key_hash = t, rec_subject = ''svc'', rec_tenant_id = t, rec_roles = {},
     rec_permissions = {''memory.read'', ''memory.write''}, rec_key_id = t, rec_revoked = False, rec_expires_at = JNull, rec_scopes = {}\<rparr>))
     [''acme'', ''beta'']"

definition example_gate_env :: "unit gate_env" where
  "example_gate_env = \<lparr>ge_hash = (\<lambda>k. k), ge_pipeline = (\<lambda>kts s. (Inr [], s)), ge_now = 7, ge_fresh_id = ''rid''\<rparr>"

definition example_request :: "string \<Rightarrow> string \<Rightarrow> payload \<Rightarrow> payload http_request" where
  "example_request key path body = \<lparr>req_method = ''POST'', req_path = path, req_client = Some ''10.0.0.1'',
     req_headers = \<lparr>hdr_api_key = Some key, hdr_tenant_id = None, hdr_request_id = None, hdr_approval_id = None\<rparr>,
     req_payload = body\<rparr>"

definition example_store :: "string \<Rightarrow> string \<Rightarrow> unit visit" where
  "example_store a key = (example_gate_env, example_platform_env a,
     example_request key ''/memory/store'' (MemoryRequest ''hello world'' ''semantic'' []))"

definition example_framework :: framework where
  "example_framework = \<lparr>fw_path_int = (\<lambda>s. None),
     fw_unrouted = (\<lambda>req. \<lparr>res_status = 404, res_content = Detail ''Not Found'', res_headers = []\<rparr>),
     fw_invalid = (\<lambda>req. \<lparr>res_status = 422, res_content = Detail ''Unprocessable Entity'', res_headers = []\<rparr>)\<rparr>"

definition example_start :: "(unit, platform) gate" where
  "example_start = \<lparr>gate_redis = (), gate_audit = [], gate_app = new_platform example_platform 0\<rparr>"

subsection \<open>Properties\<close>

text \<open>
  C3: The invariants of the components hold together in every state the platform reaches, whatever
  requests it serves: all constraints of the database; a complete version history of each memory;
  workflows numbered in order, each with a journal without gaps; only confined processes in the
  sandbox; every governance decision with the status its reviews give it; and no tenant charged
  more than the budget.
\<close>

theorem system_invariant:
  assumes "list_all ordered_scans visits"
  shows "let p = gate_app (fold (visit_step cfg fw api_keys) visits
      \<lparr>gate_redis = redis, gate_audit = [], gate_app = new_platform cfg now\<rparr>); d = pf_db p in
    db_ok d \<and> linked d \<and>
    map w_id (workflows d) = map checkpoint_name [1..<Suc (length (workflows d))] \<and>
    list_all (\<lambda>w. map we_sequence (journal_of ''legacy'' (w_id w) d) = [1..w_version w]) (workflows d) \<and>
    list_all (confined (pc_sandbox cfg)) (lab_started (pf_lab p)) \<and>
    list_all (\<lambda>x. d_status x = due_status (architecture_reviews (pf_governance p)) x) (decisions (pf_governance p)) \<and>
    tenant_costs t (gw_usage (pf_gateway p)) \<le> max 0 (tenant_budget_usd (gc_cost (pc_gateway cfg)))"
proof -
  define p where "p = gate_app (fold (visit_step cfg fw api_keys) visits
      \<lparr>gate_redis = redis, gate_audit = [], gate_app = new_platform cfg now\<rparr>)"
  have "platform_ok cfg (gate_app (fold (visit_step cfg fw api_keys) visits s))"
    if "platform_ok cfg (gate_app s)" "list_all ordered_scans visits" for s and visits :: "'a visit list"
    using that by (induction visits arbitrary: s) (simp_all add: visit_ok)
  from this [OF _ assms, of "\<lparr>gate_redis = redis, gate_audit = [], gate_app = new_platform cfg now\<rparr>"] new_platform_ok
  have ok: "platform_ok cfg p" by (simp add: p_def)
  then have d: "mem_inv (pf_db p)" "wf_inv ''legacy'' (pf_db p)" by (simp_all add: platform_ok_def db_inv_def)
  then have "db_ok (pf_db p)" "linked (pf_db p)" "numbered (pf_db p)" by (simp_all add: mem_inv_def wf_inv_def)
  moreover have "list_all (\<lambda>w. map we_sequence (journal_of ''legacy'' (w_id w) (pf_db p)) = [1..w_version w]) (workflows (pf_db p))"
    using d(2) by (simp add: wf_inv_def rows_inv_def journaled_def list_all_iff)
  moreover have "list_all (confined (pc_sandbox cfg)) (lab_started (pf_lab p))"
      "list_all (\<lambda>x. d_status x = due_status (architecture_reviews (pf_governance p)) x) (decisions (pf_governance p))"
      "tenant_costs t (gw_usage (pf_gateway p)) \<le> max 0 (tenant_budget_usd (gc_cost (pc_gateway cfg)))"
    using ok by (simp_all add: platform_ok_def lab_ok_def governance_ok_def books_ok_def)
  ultimately show ?thesis unfolding Let_def p_def [symmetric] numbered_def by blast
qed

lemma example_run_memories:
  "length (memories (pf_db (gate_app (fold (visit_step example_platform example_framework example_api_keys)
     [example_store ''1'' ''acme'', example_store ''2'' ''beta'', example_store ''3'' ''nobody''] example_start)))) = 2"
  by code_simp

theorem system_invariant_witness:
  "let d = pf_db (gate_app (fold (visit_step example_platform example_framework example_api_keys)
     [example_store ''1'' ''acme'', example_store ''2'' ''beta'', example_store ''3'' ''nobody''] example_start))
   in length (memories d) = 2 \<and> db_ok d \<and> linked d"
proof -
  have "list_all ordered_scans [example_store ''1'' ''acme'', example_store ''2'' ''beta'', example_store ''3'' ''nobody'']"
    by (simp add: example_store_def example_platform_env_def reorders_def)
  from system_invariant [OF this] show ?thesis using example_run_memories by (simp add: Let_def example_start_def)
qed

text \<open>
  C5: Nothing recorded is lost or changed: whatever requests are served, the memories, their versions,
  the audit events and the workflow journals of the database, and the audit trail of the
  authorization decisions, are those there were before, in order, with new ones after them.
\<close>

theorem records_durable:
  "let s' = fold (visit_step cfg fw api_keys) visits s; d = pf_db (gate_app s); d' = pf_db (gate_app s') in
     prefix (memories d) (memories d') \<and> prefix (memory_versions d) (memory_versions d') \<and>
     prefix (audit_events d) (audit_events d') \<and> prefix (workflow_events d) (workflow_events d') \<and>
     prefix (gate_audit s) (gate_audit s')"
  unfolding Let_def
  by (intro conjI durable_memories.run_log durable_versions.run_log durable_audit.run_log durable_journals.run_log
      durable_trail.run_log)

text \<open>
  C4: What a tenant reads is not influenced by others: the answer to a search or a consolidation of
  the tenant's memories is the same before and after any sequence of requests none of which carries a
  key of that tenant with \<^verbatim>\<open>memory.write\<close>, whatever those requests do.
\<close>

theorem reads_not_influenced:
  assumes "list_all (stranger api_keys (ctx_tenant_id c)) visits"
    and "route_endpoint (fw_path_int fw) (req_method req) (req_path req) = Some e" and "reads_memory e"
  shows "fst (application cfg fw env (Some c) rid req (gate_app (fold (visit_step cfg fw api_keys) visits s))) =
    fst (application cfg fw env (Some c) rid req (gate_app s))"
proof -
  have "mem_view t (pf_db (gate_app (fold (visit_step cfg fw api_keys) visits s))) = mem_view t (pf_db (gate_app s))"
    if "list_all (stranger api_keys t) visits" for t s and visits :: "'a visit list"
    using that by (induction visits arbitrary: s) (simp_all add: visit_view)
  from this [OF assms(1), of s] assms(2,3) show ?thesis
    by (auto simp: application_def split: option.split intro!: fst_respond read_same)
qed

theorem reads_not_influenced_witness:
  "let s = visit_step example_platform example_framework example_api_keys (example_store ''1'' ''acme'') example_start;
       search = (\<lambda>s. fst (application example_platform example_framework (example_platform_env ''9'')
         (Some (memory_example_ctx ''acme'')) ''rid'' (example_request ''acme'' ''/memory/search'' (QueryRequest ''hello'' 5)) (gate_app s)))
   in search (visit_step example_platform example_framework example_api_keys (example_store ''2'' ''beta'') s) = search s"
proof -
  have "id_tenant_id i = ''beta''" if "authenticate_request (ge_hash example_gate_env) (ge_now example_gate_env)
      (req_headers (example_request ''beta'' p b)) example_api_keys = Inr (Some i)" for p b i
    using that by (simp add: authenticate_request_def example_gate_env_def example_request_def example_api_keys_def active_def
        identity_of_def) auto
  then have "list_all (stranger example_api_keys (ctx_tenant_id (memory_example_ctx ''acme''))) [example_store ''2'' ''beta'']"
    by (auto simp: example_store_def holds_key_def memory_example_ctx_def)
  moreover have "route_endpoint (fw_path_int example_framework) ''POST'' ''/memory/search'' = Some Memory_search" by code_simp
  ultimately show ?thesis
    using reads_not_influenced [of example_api_keys "memory_example_ctx ''acme''" "[example_store ''2'' ''beta'']" example_framework
        "example_request ''acme'' ''/memory/search'' (QueryRequest ''hello'' 5)" Memory_search]
    by (simp add: Let_def example_request_def reads_memory_def)
qed


text \<open>
  C35: \<^verbatim>\<open>/guardian/validate\<close> never approves: the service stores the candidate and then compares it with
  all stored memories, the candidate itself among them. It returns a review whenever the store takes
  the candidate, the decision is always \<^verbatim>\<open>review\<close>, and the candidate is in the memory table either way.
\<close>

theorem validate_memory_always_reviews:
  assumes "reorders (pe_rows env)"
  shows "case validate_memory cfg env x ty md ctx s of
      (Inl e, s') \<Rightarrow> fst (store (pc_memory cfg) (pe_call env) ctx x ty (Some md) (pf_db s)) = Inl e
    | (Inr v, s') \<Rightarrow> gr_decision v = ''review'' \<and> gr_candidate_id v \<in> m_id ` set (memories (pf_db s'))"
proof (cases "validate_memory cfg env x ty md ctx s")
  case (Pair r s')
  show ?thesis
  proof (cases r)
    case (Inl e)
    with Pair have "fst (validate_memory cfg env x ty md ctx s) = Inl e" by simp
    then have "fst (store (pc_memory cfg) (pe_call env) ctx x ty (Some md) (pf_db s)) = Inl e"
      by (auto simp: validate_memory_def op_bind_def on_part_def layer_store_def with_context_def records_values_def
          with_session_def guardian_validate_def count_def Let_def split: prod.splits sum.splits)
    with Pair Inl show ?thesis by simp
  next
    case (Inr v)
    with Pair validate_memory_reviews [OF assms, of cfg x ty md ctx s v s'] show ?thesis by simp
  qed
qed

theorem validate_memory_always_reviews_witness:
  "\<exists>v. fst (validate_memory example_platform (example_platform_env ''1'') ''a new and original remark'' ''semantic'' []
     (memory_example_ctx ''acme'') (new_platform example_platform 0)) = Inr v \<and> gr_decision v = ''review''"
proof -
  have "isl (fst (store (pc_memory example_platform) (pe_call (example_platform_env ''1'')) (memory_example_ctx ''acme'')
      ''a new and original remark'' ''semantic'' (Some []) (pf_db (new_platform example_platform 0)))) = False" by code_simp
  moreover have "reorders (pe_rows (example_platform_env ''1''))" by (simp add: example_platform_env_def reorders_def)
  from validate_memory_always_reviews [OF this, where cfg = example_platform and x = "''a new and original remark''" and ty = "''semantic''"
      and md = "[]" and ctx = "memory_example_ctx ''acme''" and s = "new_platform example_platform 0"]
  have "case validate_memory example_platform (example_platform_env ''1'') ''a new and original remark'' ''semantic'' []
      (memory_example_ctx ''acme'') (new_platform example_platform 0) of
      (Inl e, s') \<Rightarrow> fst (store (pc_memory example_platform) (pe_call (example_platform_env ''1'')) (memory_example_ctx ''acme'')
        ''a new and original remark'' ''semantic'' (Some []) (pf_db (new_platform example_platform 0))) = Inl e
    | (Inr v, s') \<Rightarrow> gr_decision v = ''review''" by (auto split: prod.splits sum.splits)
  ultimately show ?thesis by (auto split: prod.splits sum.splits)
qed

end
