(* ===== verification/Startup.thy ===== *)
theory Startup
  imports System_Runs
begin

section \<open>Starting the server\<close>

text \<open>
  The module level of \<^verbatim>\<open>api/main.py\<close> (settings, key table, limiter, audit trail), the choice of the
  database in \<^verbatim>\<open>database.py\<close>, and the generation of keys in \<^verbatim>\<open>security.py\<close>, composed with the gate: what
  the operator configures is what the running server does. \<open>environ\<close> (\<^verbatim>\<open>os.getenv\<close>), the temporary directory,
  \<^verbatim>\<open>secrets.token_urlsafe\<close>, SHA-256, \<^verbatim>\<open>json.loads\<close> and SQLAlchemy's dialect of a URL are arguments.

  Shown: a key made by \<^verbatim>\<open>generate_api_key\<close> and configured by its hash is let through by the server
  started with that configuration, for its tenant and its permissions; the rate limit of the
  settings bounds the requests of a client that reach the access control in one minute.
\<close>

subsection \<open>The database\<close>

definition default_database_url :: "(string \<Rightarrow> string option) \<Rightarrow> string \<Rightarrow> string" where
  "default_database_url environ tempdir = (case environ ''AGI_DURABLE_DATABASE_URL'' of
     Some url \<Rightarrow> if url \<noteq> [] then url else ''sqlite:///'' @ tempdir @ ''/agi-platform/durable.sqlite3''
   | None \<Rightarrow> ''sqlite:///'' @ tempdir @ ''/agi-platform/durable.sqlite3'')"

record db_engine =
  engine_url :: string
  engine_setup :: "string list"

definition make_engine :: "(string \<Rightarrow> string) \<Rightarrow> (string \<Rightarrow> string option) \<Rightarrow> string \<Rightarrow> string option \<Rightarrow> db_engine" where
  "make_engine dialect environ tempdir url =
     (let u = (case url of None \<Rightarrow> default_database_url environ tempdir
               | Some u \<Rightarrow> if u = [] then default_database_url environ tempdir else u)
      in \<lparr>engine_url = u, engine_setup = (if dialect u = ''sqlite'' then [''PRAGMA foreign_keys=ON''] else [])\<rparr>)"

definition new_database :: "(string \<Rightarrow> string) \<Rightarrow> (string \<Rightarrow> string option) \<Rightarrow> string \<Rightarrow> db_engine option \<Rightarrow> db_engine" where
  "new_database dialect environ tempdir engine =
     (case engine of None \<Rightarrow> make_engine dialect environ tempdir None | Some e \<Rightarrow> e)"

text \<open>The health probe: \<open>probe\<close> is what connecting and \<^verbatim>\<open>SELECT 1\<close> come to.\<close>

definition healthy :: "unit result \<Rightarrow> bool result" where
  "healthy probe = (case probe of Inr u \<Rightarrow> Inr True
     | Inl e \<Rightarrow> if is_SQLAlchemyError e then Inr False else Inl e)"

text \<open>
  The setting \<^verbatim>\<open>DATABASE_URL\<close> is read into \<open>database_url\<close> and nothing else looks at it: with the environment of
  \<^verbatim>\<open>docker-compose.yml\<close> the server keeps its memories in a file of the temporary directory.
\<close>

lemma database_url_ignored:
  "let environ = (\<lambda>v. if v = ''DATABASE_URL'' then Some ''postgresql://agi@postgres:5432/agi'' else None) in
   map_sum (\<lambda>_. ()) database_url (from_env environ) = Inr ''postgresql://agi@postgres:5432/agi'' \<and>
   engine_url (new_database dialect environ ''/tmp'' None) = ''sqlite:////tmp/agi-platform/durable.sqlite3''"
proof -
  let ?env = "\<lambda>v. if v = ''DATABASE_URL'' then Some ''postgresql://agi@postgres:5432/agi'' else None"
  have "map_sum (\<lambda>_. ()) database_url (from_env ?env) = Inr ''postgresql://agi@postgres:5432/agi''" by code_simp
  then show ?thesis by (simp add: Let_def new_database_def make_engine_def default_database_url_def)
qed

subsection \<open>Keys and the server\<close>

definition generate_api_key :: "(string \<Rightarrow> string) \<Rightarrow> string \<Rightarrow> string \<times> string" where
  "generate_api_key hash token = (let plaintext = ''agi_'' @ token in (plaintext, hash plaintext))"

record rate_limiter =
  limiter_enabled :: bool
  limiter_default :: int

definition new_limiter :: "int \<Rightarrow> bool \<Rightarrow> rate_limiter" where
  "new_limiter default_limit_per_minute enabled = \<lparr>limiter_enabled = enabled, limiter_default = default_limit_per_minute\<rparr>"

record ('r, 's) server =
  sv_settings :: Settings
  sv_limiter :: rate_limiter
  sv_api_keys :: "(string, APIKeyRecord) dict"
  sv_gate :: "('r, 's) gate"

definition start_server ::
    "(string \<Rightarrow> string) \<Rightarrow> (json \<Rightarrow> string) \<Rightarrow> (string \<Rightarrow> json result) \<Rightarrow> (string \<Rightarrow> string option) \<Rightarrow>
     'r \<Rightarrow> 's \<Rightarrow> ('r, 's) server result" where
  "start_server hash rep loads environ redis service =
     and_then (from_env environ) (\<lambda>settings.
     and_then (parse_api_keys hash rep loads (set_api_keys settings) (set_api_key settings)) (\<lambda>api_keys.
     Inr \<lparr>sv_settings = settings,
          sv_limiter = new_limiter (rate_limit_per_minute settings) (redis_required settings),
          sv_api_keys = api_keys,
          sv_gate = \<lparr>gate_redis = redis, gate_audit = [], gate_app = service\<rparr>\<rparr>))"

text \<open>The limiter of the server is switched by the setting the gate looks at.\<close>

lemma start_server_limiter:
  "start_server hash rep loads environ redis service = Inr sv \<Longrightarrow>
     limiter_enabled (sv_limiter sv) = redis_required (sv_settings sv)"
  by (auto simp: start_server_def new_limiter_def and_then_def split: sum.splits)

text \<open>
  The operations that count as expensive are exactly those the gate has a rule of their own for.
\<close>

definition EXPENSIVE_OPERATIONS :: "string list" where
  "EXPENSIVE_OPERATIONS = [''llm'', ''sandbox'', ''embeddings'', ''research'', ''github_indexing'']"

lemma expensive_routes_complete: "set (map snd expensive_routes) = set EXPENSIVE_OPERATIONS"
  by (auto simp: expensive_routes_def EXPENSIVE_OPERATIONS_def)

text \<open>The entry of a key list, by the plaintext or by the hash.\<close>

definition entry_for :: "(string \<Rightarrow> string) \<Rightarrow> string \<Rightarrow> string \<Rightarrow> json list \<Rightarrow> (string, json) dict \<Rightarrow> bool" where
  "entry_for hash h tenant ps item \<longleftrightarrow>
     (dict_get item ''key_hash'' = Some (JStr h) \<and> h \<noteq> [] \<or>
      dict_get item ''key_hash'' = None \<and> (\<exists>k. dict_get item ''key'' = Some (JStr k) \<and> h = hash k)) \<and>
     dict_get item ''tenant_id'' = Some (JStr tenant) \<and> dict_get item ''permissions'' = Some (JList ps) \<and>
     dict_get item ''revoked'' = None \<and> dict_get item ''expires_at'' = None"

lemma configured_record:
  assumes "parse_api_keys hash rep loads (Some s) legacy = Inr recs" and "s \<noteq> []"
    and "loads s = Inr (JList (data @ [JObj item]))" and item: "entry_for hash h t ps item"
  obtains r where "dict_get recs h = Some r" and "rec_tenant_id r = t" and "active r now = Inr True"
    and "rec_permissions r = (\<lambda>p. normalize_permission (py_str rep p)) ` set ps"
proof -
  obtain out where out: "parse_items hash rep 0 (data @ [JObj item]) [] = Inr out"
    and get: "\<And>h. h \<in> set (dict_keys out) \<Longrightarrow> dict_get recs h = dict_get out h"
    using parse_api_keys_items [OF assms(1-3)] by blast
  from out obtain out' r where r: "parse_item hash rep (length data) (JObj item) = Inr r"
    and out': "out = dict_set (rec_key_hash r) r out'"
    by (auto simp: parse_items_snoc split: sum.splits)
  let ?h = "py_str rep (py_or (item_get item ''key_hash'') (JStr (hash (py_str rep (item_get item ''key'')))))"
  have h: "?h = h" using item by (auto simp: entry_for_def item_get_def py_or_def dict_get_default_def)
  from item have sels: "dict_get item ''tenant_id'' = Some (JStr t)" "dict_get_default item ''permissions'' (JList []) = JList ps"
    "dict_get_default item ''revoked'' (JBool False) = JBool False" "item_get item ''expires_at'' = JNull"
    by (simp_all add: entry_for_def dict_get_default_def item_get_def)
  from r have fields: "rec_key_hash r = h" "rec_tenant_id r = t" "\<not> rec_revoked r"
      "rec_expires_at r = JNull" "rec_permissions r = (\<lambda>p. normalize_permission (py_str rep p)) ` set ps"
    by (auto simp: parse_item_def Let_def h sels split: if_splits sum.splits)
  show ?thesis
    by (rule that [of r]) (use get [of h] out' fields in \<open>simp_all add: dict_keys_set active_def\<close>)
qed

lemma route_permission_known:
  assumes "route_permission m path = Some p"
  shows "p \<in> set PERMISSIONS"
proof -
  have table: "list_all (\<lambda>(_, q). q \<in> set PERMISSIONS) PERMISSION_BY_ROUTE"
    and dynamic: "list_all (\<lambda>(_, _, q). q \<in> set PERMISSIONS) DYNAMIC_PREFIX_PERMISSIONS" by code_simp+
  have "q \<in> set PERMISSIONS" if "dynamic_permission rules m path = Some q" "list_all (\<lambda>(_, _, q). q \<in> set PERMISSIONS) rules"
    for rules q
    using that by (induction rules m path rule: dynamic_permission.induct) (auto split: if_splits)
  with assms table dynamic show ?thesis
    by (auto simp: route_permission_def list_all_iff split: option.splits dest!: map_of_SomeD)
qed

lemma dict_get_nonempty: "dict_get d k = Some v \<Longrightarrow> d \<noteq> []"
  by auto

lemma start_server_Inr:
  assumes "start_server hash rep loads environ redis service = Inr sv"
  shows "parse_api_keys hash rep loads (environ ''AGI_API_KEYS'') (environ ''AGI_API_KEY'') = Inr (sv_api_keys sv)"
  using assms by (auto simp: start_server_def from_env_def and_then_def split: sum.splits)

text \<open>
  C18: Provisioning works end to end. An operator runs \<open>generate_api_key\<close> and configures the key, by
  the hash it prints or by the plaintext, as an entry of \<^verbatim>\<open>AGI_API_KEYS\<close> for a tenant with some
  permissions; the server starts with that environment. Then every request that presents the
  plaintext and passes the rate limit, on a route that asks for one of the permissions (a high-risk
  one with an approval id), runs the application with the context of that tenant.
\<close>

theorem generated_key_admitted:
  assumes gen: "generate_api_key hash token = (key, h)"
    and env: "environ ''AGI_API_KEYS'' = Some raw" "raw \<noteq> []" "loads raw = Inr (JList (data @ [JObj item]))"
    and item: "entry_for hash h t ps item"
    and start: "start_server hash rep loads environ redis service = Inr sv"
    and req: "hdr_api_key (req_headers req) = Some key" "hdr_tenant_id (req_headers req) = None" "ge_hash genv = hash"
    and route: "\<not> is_public_path (req_path req)" "route_permission (req_method req) (req_path req) = Some p"
    and perm: "JStr p \<in> set ps" "p \<in> set HIGH_RISK_ACTIONS \<longrightarrow> hdr_approval_id (req_headers req) \<noteq> None"
    and pass: "passes (sv_settings sv) genv req s"
  shows "\<exists>c s' r. production_controls (sv_settings sv) (sv_api_keys sv) genv call_next req s = (r, s') \<and>
    runs (sv_settings sv) genv call_next req (Some c) s r s' \<and> ctx_tenant_id c = t"
proof -
  let ?keys = "sv_api_keys sv"
  from start_server_Inr [OF start] env(1) have "parse_api_keys hash rep loads (Some raw) (environ ''AGI_API_KEY'') = Inr ?keys" by simp
  from configured_record [OF this env(2,3) item, of "ge_now genv"] obtain k where
    k: "dict_get ?keys h = Some k" "rec_tenant_id k = t" "active k (ge_now genv) = Inr True"
      "rec_permissions k = (\<lambda>q. normalize_permission (py_str rep q)) ` set ps" by blast
  from gen have key: "key \<noteq> []" "h = hash key" by (auto simp: generate_api_key_def Let_def)
  let ?c = "context_of (identity_of k) (rid_of genv req)"
  have auth: "authenticate_request (ge_hash genv) (ge_now genv) (req_headers req) ?keys = Inr (Some (identity_of k))"
    using k key req by (simp add: authenticate_request_iff)
  have known: "p \<in> set PERMISSIONS" using route(2) by (rule route_permission_known)
  have "normalize_permission (py_str rep (JStr p)) \<in> rec_permissions k" unfolding k(4) using perm(1) by (rule imageI)
  then have "p \<in> permissions (identity_of k)" using known by (simp add: identity_of_def)
  then have clear: "cleared ?keys genv req (Some ?c)"
    using auth route perm(2) known dict_get_nonempty [OF k(1)] by (simp add: cleared_def granted_def context_of_def)
  obtain r s' where run: "production_controls (sv_settings sv) ?keys genv call_next req s = (r, s')" by fastforce
  then have "runs (sv_settings sv) genv call_next req (Some ?c) s r s'"
  proof (cases rule: gate_cases)
    case limited
    with pass show ?thesis by blast
  next
    case refused
    with clear show ?thesis by blast
  next
    case (ran ctx)
    with cleared_unique [OF clear ran(2)] show ?thesis by simp
  qed
  moreover have "ctx_tenant_id ?c = t" using k(2) by (simp add: context_of_def identity_of_def)
  ultimately show ?thesis using run by blast
qed

definition start_example_hash :: "string \<Rightarrow> string" where
  "start_example_hash k = ''h'' @ k"

definition start_example_item :: "(string, json) dict" where
  "start_example_item = [(''key_hash'', JStr ''hagi_x''), (''tenant_id'', JStr ''acme''),
     (''permissions'', JList [JStr ''memory.write''])]"

definition start_example_environ :: "string \<Rightarrow> string option" where
  "start_example_environ = map_of [(''AGI_API_KEYS'', ''[...]''), (''AGI_REDIS_REQUIRED'', ''false'')]"

definition start_example_server :: "(unit, unit) server result" where
  "start_example_server = start_server start_example_hash (\<lambda>v. []) (\<lambda>s. Inr (JList ([] @ [JObj start_example_item])))
     start_example_environ () ()"

definition start_example_request :: "unit http_request" where
  "start_example_request = \<lparr>req_method = ''POST'', req_path = ''/memory/store'', req_client = None,
     req_headers = \<lparr>hdr_api_key = Some ''agi_x'', hdr_tenant_id = None, hdr_request_id = None, hdr_approval_id = None\<rparr>,
     req_payload = ()\<rparr>"

theorem generated_key_admitted_witness:
  "\<exists>sv c s' r. start_example_server = Inr sv \<and>
     runs (sv_settings sv) (example_gate_env\<lparr>ge_hash := start_example_hash\<rparr>) (\<lambda>c rid req s. (Inr (Platform.ok ()), s))
       start_example_request (Some c) (sv_gate sv) r s' \<and> ctx_tenant_id c = ''acme''"
proof -
  let ?genv = "example_gate_env\<lparr>ge_hash := start_example_hash\<rparr>"
  have "case start_example_server of Inl e \<Rightarrow> False | Inr sv \<Rightarrow> redis_required (sv_settings sv) = False" by code_simp
  then obtain sv where sv: "start_example_server = Inr sv" and "\<not> redis_required (sv_settings sv)"
    by (auto split: sum.splits)
  then have pass: "passes (sv_settings sv) ?genv start_example_request (sv_gate sv)"
    by (simp add: passes_def RedisRateLimiter_check_def)
  have gen: "generate_api_key start_example_hash ''x'' = (''agi_x'', ''hagi_x'')"
    by (simp add: generate_api_key_def start_example_hash_def Let_def)
  have env: "start_example_environ ''AGI_API_KEYS'' = Some ''[...]''" "''[...]'' \<noteq> []"
    by (simp_all add: start_example_environ_def)
  have item: "entry_for start_example_hash ''hagi_x'' ''acme'' [JStr ''memory.write''] start_example_item"
    by (simp add: entry_for_def start_example_item_def)
  have req: "hdr_api_key (req_headers start_example_request) = Some ''agi_x''"
    "hdr_tenant_id (req_headers start_example_request) = None" "ge_hash ?genv = start_example_hash"
    "\<not> is_public_path (req_path start_example_request)"
    "route_permission (req_method start_example_request) (req_path start_example_request) = Some ''memory.write''"
    by (simp_all add: start_example_request_def) code_simp+
  have perm: "JStr ''memory.write'' \<in> set [JStr ''memory.write'']"
    "''memory.write'' \<in> set HIGH_RISK_ACTIONS \<longrightarrow> hdr_approval_id (req_headers start_example_request) \<noteq> None"
    by (simp_all add: HIGH_RISK_ACTIONS_def)
  show ?thesis
    using generated_key_admitted [OF gen env refl item sv [unfolded start_example_server_def] req perm pass] sv by blast
qed

subsection \<open>The rate limit of the server\<close>

text \<open>How many of a sequence of requests get past the rate limit.\<close>

fun let_through ::
    "platform_config \<Rightarrow> framework \<Rightarrow> (string, APIKeyRecord) dict \<Rightarrow> 'r visit list \<Rightarrow> ('r, platform) gate \<Rightarrow> nat" where
  "let_through cfg fw api_keys [] s = 0"
| "let_through cfg fw api_keys ((genv, env, req) # visits) s =
     of_bool (passes (pc_settings cfg) genv req s) +
     let_through cfg fw api_keys visits (visit_step cfg fw api_keys (genv, env, req) s)"

lemma gate_redis_go [simp]: "gate_redis (snd (go cfg genv app req c s)) = gate_redis s"
  by (simp add: go_def split: prod.split sum.split)

lemma gate_redis_access [simp]: "gate_redis (snd (access_controls cfg api_keys genv app req s)) = gate_redis s"
  by (simp add: access_controls_def Let_def split: sum.split option.split)

lemma gate_redis_visit:
  "gate_redis (visit_step cfg fw api_keys (genv, env, req) s) = snd (RedisRateLimiter_check (redis_required (pc_settings cfg))
     (ge_pipeline genv) (ge_now genv) (rate_rules (pc_settings cfg) req) (gate_redis s))"
proof -
  have "gate_redis (snd (production_controls (pc_settings cfg) api_keys genv (application cfg fw env) req s)) =
      snd (RedisRateLimiter_check (redis_required (pc_settings cfg)) (ge_pipeline genv) (ge_now genv)
        (rate_rules (pc_settings cfg) req) (gate_redis s))"
    by (simp add: production_controls_def split: prod.split sum.split py_exn.split)
  then show ?thesis by (auto simp: serve_platform_def serve_def split: prod.splits sum.split)
qed

lemma let_through_passed:
  assumes "redis_required (pc_settings cfg)" and "list_all (\<lambda>(genv, env, req). ge_pipeline genv = pipe) visits"
  shows "let_through cfg fw api_keys visits s = fst (passed True pipe
    (map (\<lambda>(genv, env, req). (ge_now genv, rate_rules (pc_settings cfg) req)) visits) (gate_redis s))"
  using assms(2)
proof (induction visits arbitrary: s)
  case (Cons v visits)
  obtain genv env req where v: "v = (genv, env, req)" by (cases v)
  obtain q rd where check: "RedisRateLimiter_check True pipe (ge_now genv) (rate_rules (pc_settings cfg) req) (gate_redis s) = (q, rd)"
    by fastforce
  have pipe: "ge_pipeline genv = pipe" using Cons.prems v by simp
  have "gate_redis (visit_step cfg fw api_keys v s) = rd"
    unfolding v gate_redis_visit using check pipe assms(1) by simp
  moreover have "passes (pc_settings cfg) genv req s \<longleftrightarrow> \<not> isl q" using check pipe assms(1) by (simp add: passes_def)
  ultimately show ?case
    using Cons.IH [of "visit_step cfg fw api_keys v s"] Cons.prems check
    by (cases q) (simp_all add: v split_beta del: visit_step.simps)
qed simp

definition client_scopes :: "payload http_request \<Rightarrow> string list" where
  "client_scopes req = [''ip:'' @ (case req_client req of None \<Rightarrow> ''unknown'' | Some h \<Rightarrow> h),
     ''api_key:'' @ header_or (hdr_api_key (req_headers req)) ''anonymous'']"

text \<open>
  C19: The rate limit of the settings holds for the running server. With Redis required and not failing
  open, and a pipeline that counts as INCR is documented to, at most \<open>rate_limit_per_minute\<close> of the requests of one
  address, or of one API key, in one minute get past the rate limit, whatever else they ask for;
  the others are refused before authentication.
\<close>

theorem server_rate_bound:
  assumes "redis_required (pc_settings cfg)" and "\<not> rate_limit_fail_open (pc_settings cfg)"
    and incr: "counts_incr pipe cnt" and mono: "\<And>kts r e r' k. pipe kts r = (Inl e, r') \<Longrightarrow> cnt r k \<le> cnt r' k"
    and start: "\<And>k. 0 \<le> cnt (gate_redis s) k"
    and visits: "list_all (\<lambda>(genv, env, req). ge_pipeline genv = pipe \<and> ge_now genv div 60 = minute \<and>
        scope \<in> set (client_scopes req)) visits"
  shows "int (let_through cfg fw api_keys visits s) \<le> max 0 (rate_limit_per_minute (pc_settings cfg))"
proof -
  let ?k = "''rl:'' @ scope @ '':'' @ str_of_int minute"
  let ?calls = "map (\<lambda>(genv, env, req). (ge_now genv, rate_rules (pc_settings cfg) req)) visits"
  have "\<exists>r \<in> set (rate_rules (pc_settings cfg) req). rule_fail_closed r \<and>
      rule_limit r \<le> rate_limit_per_minute (pc_settings cfg) \<and> rule_key now r = ?k"
    if "scope \<in> set (client_scopes req)" "now div 60 = minute" for req now
    using that assms(2) by (auto simp: rate_rules_def client_scopes_def rule_key_def Let_def)
  then have "\<forall>(now, rules) \<in> set ?calls. \<exists>r \<in> set rules. rule_fail_closed r \<and>
      rule_limit r \<le> rate_limit_per_minute (pc_settings cfg) \<and> rule_key now r = ?k"
    using visits by (fastforce simp: list_all_iff)
  then have "int (fst (passed True pipe ?calls (gate_redis s))) \<le>
      max 0 (rate_limit_per_minute (pc_settings cfg) - cnt (gate_redis s) ?k)"
    by (intro passed_bound [OF incr]) (blast intro: mono start)+
  moreover have "list_all (\<lambda>(genv, env, req). ge_pipeline genv = pipe) visits" using visits by (auto simp: list_all_iff)
  ultimately show ?thesis using let_through_passed [OF assms(1)] start [of ?k] by fastforce
qed


definition rate_example_platform :: platform_config where
  "rate_example_platform = example_platform\<lparr>pc_settings := example_settings\<lparr>redis_required := True, rate_limit_per_minute := 1\<rparr>\<rparr>"

definition rate_example_visit :: "int \<Rightarrow> string list visit" where
  "rate_example_visit now = (\<lparr>ge_hash = (\<lambda>k. k), ge_pipeline = log_pipe, ge_now = now, ge_fresh_id = ''rid''\<rparr>,
     example_platform_env ''1'', example_request ''acme'' ''/health'' (MemoryRequest [] [] []))"

theorem server_rate_bound_witness:
  "let_through rate_example_platform example_framework [] [rate_example_visit 61, rate_example_visit 62, rate_example_visit 119]
     \<lparr>gate_redis = [], gate_audit = [], gate_app = new_platform rate_example_platform 0\<rparr> = 1"
proof -
  let ?s = "\<lparr>gate_redis = [], gate_audit = [], gate_app = new_platform rate_example_platform 0\<rparr>"
  let ?vs = "[rate_example_visit 61, rate_example_visit 62, rate_example_visit 119]"
  have "int (let_through rate_example_platform example_framework [] ?vs ?s) \<le> max 0 1"
    using server_rate_bound [where cfg = rate_example_platform and pipe = log_pipe and cnt = "\<lambda>s k. int (count_list s k)"
        and s = ?s and minute = 1 and scope = "''ip:10.0.0.1''" and visits = ?vs and fw = example_framework and api_keys = "[]"]
    by (simp add: log_pipe_incr rate_example_platform_def example_settings_def rate_example_visit_def client_scopes_def
        example_request_def log_pipe_def)
  moreover have "1 \<le> let_through rate_example_platform example_framework [] ?vs ?s" by code_simp
  ultimately show ?thesis by simp
qed

end
