(* ===== verification/End_To_End.thy ===== *)
theory End_To_End
  imports System_Runs
begin

section \<open>From one request to a later one\<close>

text \<open>
  What a client gets back from the service: the answer of one request, sent over HTTP, against the
  answer of an earlier one, with any requests of any clients in between. The statements start and
  end at \<open>serve_platform\<close>, so they go through the gate, the routing, the endpoint, the service object,
  the memory layer and the database and back.
\<close>

subsection \<open>Answers\<close>

lemma content_finish [simp]: "res_content (finish cfg rid r) = res_content r"
  by (simp add: finish_def apply_production_headers_def)

lemma content_canonical [simp]: "res_content (canonical_error code message rid status) \<noteq> Value v"
  by (simp add: canonical_error_def)

lemma respond_value:
  assumes "respond cfg rid m s = (Inr r, s')" and "res_content r = Value v"
  shows "m s = (Inr v, s')"
  using assms
  by (auto simp: respond_def ok_def platform_exception_handler_def split: prod.splits sum.splits py_exn.splits)

text \<open>A response that carries a value comes from the endpoint, and the endpoint ran for a cleared request.\<close>

lemma served_value:
  assumes run: "serve_platform cfg fw api_keys genv env req s = (resp, s')"
    and route: "route_endpoint (fw_path_int fw) (req_method req) (req_path req) = Some e"
    and op: "\<And>ctx. endpoint_op cfg env ctx e (req_payload req) = Some (m ctx)"
    and v: "res_content resp = Value v"
  obtains ctx where "cleared api_keys genv req ctx" and "m ctx (gate_app s) = (Inr v, gate_app s')"
proof -
  obtain q s1 where pc: "production_controls (pc_settings cfg) api_keys genv (application cfg fw env) req s = (q, s1)" by fastforce
  have q: "q = Inr resp \<and> s1 = s'"
    using run pc v by (cases q) (auto simp: serve_platform_def serve_def unhandled_exception_handler_def)
  from pc show ?thesis
  proof (cases rule: gate_cases)
    case limited
    with q v show ?thesis by (auto simp: refusal_def)
  next
    case refused
    with q v show ?thesis by (auto simp: refusal_def)
  next
    case (ran ctx)
    then obtain r0 where r0: "application cfg fw env ctx (rid_of genv req) req (gate_app s) = (r0, gate_app s1)"
      "q = map_sum id (finish (pc_settings cfg) (rid_of genv req)) r0" by (auto simp: runs_def)
    with q obtain r where "r0 = Inr r" "resp = finish (pc_settings cfg) (rid_of genv req) r" by (cases r0) auto
    with r0 q v have "respond cfg (rid_of genv req) (m ctx) (gate_app s) = (Inr r, gate_app s')" "res_content r = Value v"
      by (simp_all add: application_def route op)
    from respond_value [OF this] show ?thesis by (intro that [OF ran(2)])
  qed
qed

text \<open>Conversely a cleared request that passes the rate limit is answered with the endpoint's value.\<close>

lemma cleared_answer:
  assumes route: "route_endpoint (fw_path_int fw) (req_method req) (req_path req) = Some e"
    and op: "endpoint_op cfg env ctx e (req_payload req) = Some m"
    and clear: "cleared api_keys genv req ctx" and pass: "passes (pc_settings cfg) genv req s"
    and m: "m (gate_app s) = (Inr v, a)"
  shows "res_content (fst (serve_platform cfg fw api_keys genv env req s)) = Value v"
proof -
  obtain q s1 where pc: "production_controls (pc_settings cfg) api_keys genv (application cfg fw env) req s = (q, s1)" by fastforce
  have app: "application cfg fw env ctx (rid_of genv req) req (gate_app s) = (Inr (ok v), a)"
    by (simp add: application_def route op respond_def m)
  from pc have "q = Inr (finish (pc_settings cfg) (rid_of genv req) (ok v))"
  proof (cases rule: gate_cases)
    case limited
    with pass show ?thesis by blast
  next
    case refused
    with clear show ?thesis by blast
  next
    case (ran ctx')
    with cleared_unique [OF clear ran(2)] app show ?thesis by (auto simp: runs_def)
  qed
  with pc show ?thesis by (simp add: serve_platform_def serve_def ok_def)
qed

subsection \<open>Storing and searching\<close>

lemma timed_value: "timed env l k m s = (Inr a, s') \<Longrightarrow> \<exists>s1. m s = (Inr a, s1) \<and> pf_db s' = pf_db s1"
  by (auto simp: timed_def timer_def split: prod.splits sum.splits)

lemma store_memory_Inr:
  assumes "store_memory cfg env x ty md c s = (Inr r, s')"
  shows "store (pc_memory cfg) (pe_call env) c x ty (Some md) (pf_db s) = (Inr r, pf_db s')"
proof -
  from assms obtain s1 where s1: "op_bind (on_part pf_db pf_db_update (layer_store (pc_memory cfg) (pe_call env) x ty (Some md) (Some c)))
     (\<lambda>r. op_bind (on_part pf_guardian pf_guardian_update (guardian_version r)) (\<lambda>_.
      op_bind (count ''memories_stored'' 1 ''1'') (\<lambda>_. op_return r))) s = (Inr r, s1)" "pf_db s' = pf_db s1"
    unfolding store_memory_def by (auto dest: timed_value)
  then show ?thesis
    by (elim op_bind_InrE)
      (auto simp: on_part_def layer_store_def with_context_def count_def split: prod.splits)
qed

lemma stored_row:
  assumes "store c env ctx x ty md d = (Inr r, d')"
  obtains row where "row \<in> set (memories d')" and "r = to_record row"
proof -
  from assms show ?thesis
  proof (cases rule: store_Inr)
    case (present d1 row)
    then show ?thesis by (intro that [of row]) (auto dest: find_by_SomeD)
  next
    case (fresh d1 cf row)
    then show ?thesis by (intro that [of row]) (simp_all add: inserted_def)
  qed
qed

lemma search_memory_eq:
  assumes "search (pe_rows env) c q n (pf_db s) = (Inr hits, d)"
  shows "\<exists>s'. search_memory env q n c s = (Inr hits, s')"
  using assms
  by (simp add: search_memory_def timed_def timer_def on_part_def layer_search_def with_context_def split: prod.split)

text \<open>A row that matches is among the hits, or as many hits as asked for score at least as high.\<close>

lemma search_finds:
  assumes scan: "\<And>rows. mset (scan rows) = mset rows" and "0 \<le> n" and row: "row \<in> set (memories d)"
    and "m_tenant_id row = ctx_tenant_id ctx" and "m_status row = ''ACTIVE''" and "0 < score q (m_content row)"
  shows "\<exists>hits. search scan ctx q n d = (Inr hits, d) \<and>
    (hit_of q row \<in> set hits \<or>
     length hits = nat n \<and> (\<forall>h \<in> set hits. score q (m_content row) \<le> hit_score h))"
proof -
  let ?m = "matching (ctx_tenant_id ctx) q d"
  obtain hits rest where s: "search scan ctx q n d = (Inr hits, d)"
    and ms: "mset (map (hit_of q) ?m) = mset hits + mset rest" and len: "length hits = min (nat n) (length ?m)"
    and best: "\<forall>h \<in> set hits. \<forall>g \<in> set rest. hit_score g \<le> hit_score h"
    using search_ranks [OF scan assms(2), of ctx q d] by blast
  have "row \<in> set ?m" using assms(3-6) by (simp add: matching_def)
  then have "hit_of q row \<in># mset (map (hit_of q) ?m)" by simp
  then consider "hit_of q row \<in> set hits" | "hit_of q row \<in> set rest" unfolding ms by auto
  then show ?thesis
  proof cases
    case 1
    with s show ?thesis by blast
  next
    case 2
    from ms have "length ?m = length hits + length rest" by (metis length_map size_mset size_union)
    moreover have "rest \<noteq> []" using 2 by auto
    ultimately have "length hits = nat n" using len by (cases rest) auto
    moreover have "hit_score (hit_of q row) \<le> hit_score h" if "h \<in> set hits" for h using best 2 that by blast
    ultimately show ?thesis using s by (auto simp: hit_of_def)
  qed
qed

text \<open>
  C6: What is stored can be found, over HTTP and whatever happens in between: after a request to
  store a memory was answered with a record, and after any further requests of any clients, a search by the record's tenant
  whose query shares a word with the content is answered with hits that contain that very record with
  its score, or, when the limit leaves no room for it, with as many hits as asked for, each scoring at least as high.
\<close>

theorem stored_memory_found:
  assumes stored: "serve_platform cfg fw api_keys genv env req s = (resp, s1)" "res_content resp = Value (V_memory r)"
    and store: "route_endpoint (fw_path_int fw) (req_method req) (req_path req) = Some Memory_store"
      "req_payload req = MemoryRequest x ty md" "valid_payload (req_payload req)"
    and later: "s2 = fold (visit_step cfg fw api_keys) visits s1"
    and search: "route_endpoint (fw_path_int fw) (req_method req2) (req_path req2) = Some Memory_search"
      "req_payload req2 = QueryRequest q n" "valid_payload (req_payload req2)" "reorders (pe_rows env2)"
    and gate: "cleared api_keys genv2 req2 (Some c)" "passes (pc_settings cfg) genv2 req2 s2"
    and match: "ctx_tenant_id c = r_tenant_id r" "r_status r = ''ACTIVE''" "0 < score q (r_content r)"
  shows "\<exists>hits. res_content (fst (serve_platform cfg fw api_keys genv2 env2 req2 s2)) = Value (V_hits hits) \<and>
    (\<lparr>hit_record = r, hit_score = score q (r_content r)\<rparr> \<in> set hits \<or>
     length hits = nat n \<and> (\<forall>h \<in> set hits. score q (r_content r) \<le> hit_score h))"
proof -
  let ?op = "\<lambda>ctx. case tenant_context ctx of Inl ex \<Rightarrow> op_raise ex | Inr c \<Rightarrow> api_memory_store cfg env c x ty md"
  have "endpoint_op cfg env ctx Memory_store (req_payload req) = Some (?op ctx)" for ctx
    using store(2,3) by (simp add: endpoint_op_def tenant_endpoint_def split: sum.split)
  from served_value [OF stored(1) store(1) this stored(2)] obtain ctx where
    "?op ctx (gate_app s) = (Inr (V_memory r), gate_app s1)" by blast
  then obtain c0 where "store_memory cfg env x ty md c0 (gate_app s) = (Inr r, gate_app s1)"
    by (auto simp: api_memory_store_def value_of_def split: sum.splits elim!: op_bind_InrE)
  from store_memory_Inr [OF this] obtain row where "row \<in> set (memories (pf_db (gate_app s1)))" and r: "r = to_record row"
    by (rule stored_row)
  then have row: "row \<in> set (memories (pf_db (gate_app s2)))" unfolding later by (intro durable_memories.run_mem)
  have sels: "r_tenant_id r = m_tenant_id row" "r_status r = m_status row" "r_content r = m_content row"
    by (simp_all add: r to_record_def)
  have "\<exists>hits. search (pe_rows env2) c q n (pf_db (gate_app s2)) = (Inr hits, pf_db (gate_app s2)) \<and>
    (hit_of q row \<in> set hits \<or>
     length hits = nat n \<and> (\<forall>h \<in> set hits. score q (m_content row) \<le> hit_score h))"
    using search(2-4) match sels row by (intro search_finds) (simp_all add: reorders_def)
  then obtain hits where hits: "search (pe_rows env2) c q n (pf_db (gate_app s2)) = (Inr hits, pf_db (gate_app s2))"
    "hit_of q row \<in> set hits \<or> length hits = nat n \<and> (\<forall>h \<in> set hits. score q (m_content row) \<le> hit_score h)" by blast
  then obtain a where "api_memory_search env2 c q n (gate_app s2) = (Inr (V_hits hits), a)"
    using search_memory_eq [OF hits(1)] by (auto simp: api_memory_search_def value_of_def op_bind_def)
  moreover have "endpoint_op cfg env2 (Some c) Memory_search (req_payload req2) = Some (api_memory_search env2 c q n)"
    using search(2,3) by (simp add: endpoint_op_def tenant_endpoint_def tenant_context_def)
  ultimately have "res_content (fst (serve_platform cfg fw api_keys genv2 env2 req2 s2)) = Value (V_hits hits)"
    using cleared_answer [OF search(1) _ gate] by blast
  with hits(2) show ?thesis by (auto simp: hit_of_def r to_record_def)
qed


definition found_example_search :: "payload http_request" where
  "found_example_search = example_request ''acme'' ''/memory/search'' (QueryRequest ''hello'' 5)"

definition found_example_stored :: "api_value response \<times> (unit, platform) gate" where
  "found_example_stored = serve_platform example_platform example_framework example_api_keys example_gate_env
     (example_platform_env ''1'') (example_request ''acme'' ''/memory/store'' (MemoryRequest ''hello world'' ''semantic'' [])) example_start"

definition found_example_identity :: Identity where
  "found_example_identity = identity_of (the (dict_get example_api_keys ''acme''))"

lemma found_example_cleared:
  "cleared example_api_keys example_gate_env found_example_search
     (Some (context_of found_example_identity (rid_of example_gate_env found_example_search)))"
proof -
  let ?req = found_example_search
  have "authenticate_request (ge_hash example_gate_env) (ge_now example_gate_env) (req_headers ?req) example_api_keys =
      Inr (Some found_example_identity)"
    by (simp add: authenticate_request_def found_example_search_def example_request_def example_gate_env_def
        example_api_keys_def active_def found_example_identity_def)
  moreover have "id_tenant_id found_example_identity = ''acme''" "''memory.read'' \<in> permissions found_example_identity"
    by (simp_all add: found_example_identity_def identity_of_def example_api_keys_def)
  moreover have "\<not> is_public_path (req_path ?req)" "example_api_keys \<noteq> []"
    "route_permission (req_method ?req) (req_path ?req) = Some ''memory.read''"
    "''memory.read'' \<in> set PERMISSIONS" "''memory.read'' \<notin> set HIGH_RISK_ACTIONS" by code_simp+
  ultimately show ?thesis by (simp add: cleared_def granted_def context_of_def)
qed

theorem stored_memory_found_witness:
  "\<exists>r hits. res_content (fst found_example_stored) = Value (V_memory r) \<and>
     res_content (fst (serve_platform example_platform example_framework example_api_keys example_gate_env
       (example_platform_env ''3'') found_example_search
       (visit_step example_platform example_framework example_api_keys (example_store ''2'' ''beta'') (snd found_example_stored)))) =
       Value (V_hits hits) \<and>
     (\<lparr>hit_record = r, hit_score = score ''hello'' (r_content r)\<rparr> \<in> set hits \<or> length hits = 5)"
proof -
  let ?keys = example_api_keys and ?req = "example_request ''acme'' ''/memory/store'' (MemoryRequest ''hello world'' ''semantic'' [])"
  let ?vs = "[example_store ''2'' ''beta'']"
  let ?s2 = "fold (visit_step example_platform example_framework ?keys) ?vs (snd found_example_stored)"
  obtain resp s1 where st: "found_example_stored = (resp, s1)" by fastforce
  have "case res_content (fst found_example_stored) of Value (V_memory r) \<Rightarrow>
      r_tenant_id r = ''acme'' \<and> r_status r = ''ACTIVE'' \<and> 0 < score ''hello'' (r_content r) | _ \<Rightarrow> False"
    by code_simp
  then obtain r where r: "res_content resp = Value (V_memory r)" and match: "r_tenant_id r = ''acme''" "r_status r = ''ACTIVE''"
    "0 < score ''hello'' (r_content r)" by (auto simp: st split: content.splits api_value.splits)
  have stored: "serve_platform example_platform example_framework ?keys example_gate_env (example_platform_env ''1'') ?req example_start = (resp, s1)"
    using st by (simp add: found_example_stored_def)
  have routes: "route_endpoint (fw_path_int example_framework) (req_method ?req) (req_path ?req) = Some Memory_store"
    "route_endpoint (fw_path_int example_framework) (req_method found_example_search) (req_path found_example_search) = Some Memory_search"
    "valid_payload (req_payload ?req)" "valid_payload (req_payload found_example_search)" by code_simp+
  have pass: "passes (pc_settings example_platform) example_gate_env found_example_search ?s2"
    by (simp add: passes_def RedisRateLimiter_check_def example_platform_def example_settings_def)
  have scan: "reorders (pe_rows (example_platform_env ''3''))" by (simp add: example_platform_env_def reorders_def)
  have "req_payload ?req = MemoryRequest ''hello world'' ''semantic'' []" "req_payload found_example_search = QueryRequest ''hello'' 5"
    "ctx_tenant_id (context_of found_example_identity (rid_of example_gate_env found_example_search)) = r_tenant_id r"
    by (simp_all add: example_request_def found_example_search_def context_of_def match found_example_identity_def
        identity_of_def example_api_keys_def)
  note facts = this
  have later: "?s2 = fold (visit_step example_platform example_framework ?keys) ?vs s1" by (simp add: st)
  have "\<exists>hits. res_content (fst (serve_platform example_platform example_framework ?keys example_gate_env
      (example_platform_env ''3'') found_example_search ?s2)) = Value (V_hits hits) \<and>
    (\<lparr>hit_record = r, hit_score = score ''hello'' (r_content r)\<rparr> \<in> set hits \<or>
     length hits = nat 5 \<and> (\<forall>h \<in> set hits. score ''hello'' (r_content r) \<le> hit_score h))"
    by (rule stored_memory_found [OF stored r routes(1) facts(1) routes(3) later routes(2) facts(2) routes(4) scan
        found_example_cleared pass facts(3) match(2,3)])
  with r show ?thesis by (auto simp: st)
qed

end
