(* ===== verification/Spec2Isabelle.thy ===== *)
theory Spec2Isabelle
  imports Entities Distributed_Lock Concurrent_Workers Memory_Refinement Workflow_Refinement Startup
    End_To_End
begin

text \<open>
  \<^bold>\<open>A verification development for the AGI platform.\<close> The program is a FastAPI service
  (\<^verbatim>\<open>src/api/main.py\<close>) over a service object (\<^verbatim>\<open>src/agi_platform/services.py\<close>) that owns a dozen
  components: a durable memory, a workflow engine, a gateway to language models, a knowledge graph, a
  sandbox, research clients and a few record keepers. A request passes the middleware (rate limit,
  authentication, authorization, audit), reaches one endpoint, and the endpoint calls one or two
  components. Memory and workflows share a database; everything else is state of the process.

  \<^bold>\<open>How code becomes definitions.\<close> Every definition translates the function it is named after.
  Stateful code is an operation \<open>'s \<Rightarrow> (exception + result) \<times> 's\<close> (\<open>sop\<close>, theory \<open>Prelude\<close>), so
  every \<^verbatim>\<open>raise\<close> is a branch and what a failed call leaves behind is visible. Exceptions are
  the datatype \<open>py_exn\<close>; Python integers are \<open>int\<close>, floats are rationals (no rounding, no NaN), strings
  are lists of characters with code below 256, dicts are association lists in insertion order, JSON
  values a datatype (theory \<open>Py_Core\<close>). A table of the database is the list of its rows. Clocks, random
  identifiers, SHA-256, the environment, the network, DNS, Redis, child processes, the order in
  which a query without \<^verbatim>\<open>ORDER BY\<close> returns rows, and FastAPI's own answers are arguments; what a
  theorem needs of them is a hypothesis that states documented behaviour.

  \<^bold>\<open>Theories and the parts they model.\<close>
  \<^item> \<open>Prelude\<close>: operations, tables, and the interfaces shared by the components as locales:
    \<open>invariant_system\<close>, \<open>tenant_store\<close> (steps of one tenant are invisible to the others), \<open>append_only\<close>,
    \<open>lifecycle\<close>, \<open>simulation\<close>. Each is interpreted on the components' own steps. \<open>Py_Core\<close>: Python's strings,
    dicts, numbers and JSON as the code uses them. \<open>Sequence_Matcher\<close>: \<^verbatim>\<open>difflib\<close>'s ratio.
    \<open>Ip_Address\<close>: \<^verbatim>\<open>ipaddress\<close> and \<^verbatim>\<open>urllib.parse\<close>.
  \<^item> \<open>Domain\<close>, \<open>Entities\<close> (\<^verbatim>\<open>domain.py\<close>): all dataclasses; \<^verbatim>\<open>transition_to\<close> of workflows and tasks. The events
    of any run of transitions replay to the entity; versions count them; terminal states are final.
  \<^item> \<open>Database\<close> (\<^verbatim>\<open>database.py\<close>): nine tables with keys, foreign keys and checks (\<open>db_ok\<close>), sessions that
    commit or roll back.
  \<^item> \<open>Memory_Store\<close> (\<^verbatim>\<open>memory/core.py\<close>): \<open>store\<close>, \<open>search\<close>, \<open>update\<close>, \<open>rollback\<close>, \<open>consolidate\<close>. Tenants are
    isolated over any run of writes; the version history of each memory is complete; no update is lost;
    every earlier content can be restored; search returns the best matches. \<open>Memory_Refinement\<close>: the four
    tables implement an abstract store of content histories per tenant, call by call, as long as no two tenants
    come to the same memory id.
    \<open>Concurrent_Sessions\<close>: the same methods split into the phases of a session (its reads, then flush and commit),
    interleaved in any way; every interleaving is a serial execution of the calls that commit, up to stale answers of \<open>store\<close>.
  \<^item> \<open>Workflow_Doc\<close>, \<open>Workflow_Store\<close>, \<open>Orchestration\<close> (\<^verbatim>\<open>orchestration.py\<close>, \<^verbatim>\<open>orchestrator/orchestrator_core.py\<close>):
    documents, the store with leases, the engine. Journals have no gaps; each step is executed at
    most once; leases are exclusive until they are marked, expire, or their workflow is rewritten; a sweep frees exactly the expired ones.
    \<open>Workflow_Refinement\<close>: the engine implements an abstract list of documents. \<open>Concurrent_Workers\<close>: the
    same methods split into phases; alone they are the atomic methods, in a race a task is leased twice, two
    plans collide on one number and a workflow is executed twice.
  \<^item> \<open>Access_Control\<close>, \<open>Api_Keys\<close>, \<open>Rate_Limit\<close>, \<open>Distributed_Lock\<close> (\<^verbatim>\<open>security.py\<close>): the policy engine
    decides exactly the permission model; keys authenticate exactly when active; both rate limiters
    keep their bounds; the lock is exclusive over all interleavings and its retry loop ends.
  \<^item> \<open>Outbound\<close> (\<^verbatim>\<open>outbound.py\<close>): every request, redirects included, goes to a validated URL whose
    addresses lie outside the internal ranges that the code blocks. \<open>Intelligence\<close> (\<^verbatim>\<open>research\<close>, \<^verbatim>\<open>github_intel\<close>, \<^verbatim>\<open>chinese_hub\<close>, \<^verbatim>\<open>analysis\<close>):
    the clients built on it contact the hosts of their allow lists only.
  \<^item> \<open>Llm_Gateway\<close> (\<^verbatim>\<open>llm/core.py\<close>): a completion is charged once, only when returned, within the budget, after
    a bounded number of calls; routing picks exactly the usable providers.
  \<^item> \<open>Knowledge_Graph\<close> (\<^verbatim>\<open>knowledge_graph/core.py\<close>): the shared graph refines a separate graph per tenant, for
    tenant ids without a colon.
  \<^item> \<open>Sandbox\<close> (\<^verbatim>\<open>sandbox/core.py\<close>): every process ever started is confined. \<open>Catalog\<close>, \<open>Readiness\<close>,
    \<open>Competitive\<close>, \<open>Telemetry\<close>, \<open>Oversight\<close> (\<^verbatim>\<open>catalog.py\<close>, \<^verbatim>\<open>tool_registry.py\<close>, \<^verbatim>\<open>readiness.py\<close>, \<^verbatim>\<open>competitive.py\<close>,
    \<^verbatim>\<open>telemetry.py\<close>, \<^verbatim>\<open>guardian\<close>, \<^verbatim>\<open>governance\<close>, \<^verbatim>\<open>evolution\<close>): the tables and the record keepers.
  \<^item> \<open>Request_Gate\<close> (\<^verbatim>\<open>config.py\<close>, the middleware and handlers of \<^verbatim>\<open>api/main.py\<close>): generic in the application
    behind it. The application runs exactly for cleared requests; refusals leave it alone; governance
    requests are in the audit trail; every response carries the headers.
  \<^item> \<open>Platform\<close> (\<^verbatim>\<open>services.py\<close>, the endpoints of \<^verbatim>\<open>api/main.py\<close>): one definition per endpoint, composed with
    the gate in \<open>serve_platform\<close>. \<open>Api_Effects\<close>: what each endpoint may change and which permission its
    route asks for, so that what has a permission changes only for a request that holds it. \<open>System_Runs\<close>: sequences of
    requests; the invariants of all components hold together, records are durable, and a
    tenant's reads do not depend on what others do. \<open>Startup\<close> (\<^verbatim>\<open>make_engine\<close>, \<^verbatim>\<open>healthy\<close>, \<^verbatim>\<open>generate_api_key\<close>, the
    module body of \<^verbatim>\<open>api/main.py\<close>): the server a configuration gives; generated keys are admitted and
    the configured rate is kept. \<open>End_To_End\<close>: a memory stored over HTTP is found over HTTP.

  \<^bold>\<open>Loops and bounds.\<close> Loops over data are structural recursion. The recursion of the sequence
  matcher has a termination proof. The redirect loop counts down from the policy's limit, the
  retries of the gateway from its maximum: the bounds are the program's own. The loop of
  \<^verbatim>\<open>RedisDistributedLock.acquire\<close> may run forever when the clock stands still: it is a partial
  function, and that it returns is proved for a clock that advances.

  \<^bold>\<open>Concurrency.\<close> The theorems about runs serve requests, or call methods, one after the other. Real
  interleavings are modelled in three places: the sessions of the memory store and of the workflow engine at
  the isolation level READ COMMITTED, where each read of a session is a phase and its flush with the commit
  another, with the constraints of the tables checked at the flush; and the commands of the
  lock at the Redis server. Races of threads on the lists and dicts of the process are not modelled.

  \<^bold>\<open>Not modelled.\<close> Logging; the connection pools of database engines and the construction of Redis
  clients; characters above code 255 and the rounding of floats; JSON encoding of the
  responses; deployment files, migrations and documentation, which hold no program logic.
\<close>

end
